theory Spec2Isabelle
  imports Main
begin

section \<open>JavaScript values observed by the pipeline\<close>

text \<open>
  The retry wrapper probes the caught value through untyped property reads. A property
  value is one of the JavaScript primitives; numbers are integers here (status codes,
  counters and millisecond delays are the only numbers the pipeline handles).
\<close>

datatype jsval = JUndefined | JNull | JBool bool | JNum int | JStr string

text \<open>Truthiness, as \<^verbatim>\<open>||\<close> and \<^verbatim>\<open>!\<close> read it.\<close>

fun truthy :: "jsval \<Rightarrow> bool" where
  "truthy JUndefined = False"
| "truthy JNull = False"
| "truthy (JBool b) = b"
| "truthy (JNum n) = (n \<noteq> 0)"
| "truthy (JStr s) = (s \<noteq> [])"

definition js_or :: "jsval \<Rightarrow> jsval \<Rightarrow> jsval" where
  "js_or a b = (if truthy a then a else b)"

definition digitChar :: "nat \<Rightarrow> char" where
  "digitChar d = char_of (48 + d)"

fun showNat :: "nat \<Rightarrow> string" where
  "showNat n = (if n < 10 then [digitChar n] else showNat (n div 10) @ [digitChar (n mod 10)])"

definition showInt :: "int \<Rightarrow> string" where
  "showInt i = (if i < 0 then CHR ''-'' # showNat (nat (- i)) else showNat (nat i))"

text \<open>
  \<^verbatim>\<open>String(v)\<close> and template-literal interpolation of a primitive. A number is printed
  in decimal digits, as JavaScript prints every integer of magnitude below \<open>10\<^sup>2\<^sup>1\<close>; the
  numbers read here are status codes, far below that bound.
\<close>

fun toString :: "jsval \<Rightarrow> string" where
  "toString JUndefined = ''undefined''"
| "toString JNull = ''null''"
| "toString (JBool b) = (if b then ''true'' else ''false'')"
| "toString (JNum n) = showInt n"
| "toString (JStr s) = s"

text \<open>
  \<^verbatim>\<open>toLowerCase\<close> on the ASCII letters; every other character is left as it is. No
  character outside ASCII lower-cases to a character of one of the markers below in a
  way that completes a marker, so the restriction does not change the classification.
\<close>

definition lowerChar :: "char \<Rightarrow> char" where
  "lowerChar c = (let n = of_char c :: nat in if 65 \<le> n \<and> n \<le> 90 then char_of (n + 32) else c)"

definition toLowerCase :: "string \<Rightarrow> string" where
  "toLowerCase s = map lowerChar s"

fun startsWith :: "string \<Rightarrow> string \<Rightarrow> bool" where
  "startsWith s [] = True"
| "startsWith [] (c # cs) = False"
| "startsWith (x # xs) (c # cs) = (x = c \<and> startsWith xs cs)"

text \<open>\<^verbatim>\<open>s.includes(t)\<close>: \<open>t\<close> occurs in \<open>s\<close> at some position.\<close>

fun includes_str :: "string \<Rightarrow> string \<Rightarrow> bool" where
  "includes_str [] t = (t = [])"
| "includes_str (x # xs) t = (startsWith (x # xs) t \<or> includes_str xs t)"

section \<open>Thrown values\<close>

text \<open>
  A caught value is represented by the observations the program makes of it:
  \<^item> \<open>instanceOfError\<close>: \<^verbatim>\<open>error instanceof Error\<close>;
  \<^item> \<open>err_status\<close>: \<^verbatim>\<open>error.status\<close>;
  \<^item> \<open>err_message\<close>: \<^verbatim>\<open>error.message\<close>;
  \<^item> \<open>err_response\<close>: \<open>None\<close> when \<^verbatim>\<open>error.response\<close> is null or undefined, else
    \<open>Some\<close> of \<^verbatim>\<open>error.response.status\<close>;
  \<^item> \<open>err_nested\<close>: \<open>None\<close> when \<^verbatim>\<open>error.error\<close> is null or undefined, else \<open>Some\<close>
    of the pair (\<^verbatim>\<open>error.error.code\<close>, \<^verbatim>\<open>error.error.message\<close>);
  \<^item> \<open>err_json\<close>: \<^verbatim>\<open>JSON.stringify(error)\<close>, a string or undefined;
  \<^item> \<open>err_string\<close>: \<^verbatim>\<open>String(error)\<close>.
  Thrown \<^verbatim>\<open>null\<close> and \<^verbatim>\<open>undefined\<close> (on which a property read itself throws) and
  values whose serialisation throws are not represented.
\<close>

record thrown =
  instanceOfError :: bool
  err_status :: jsval
  err_message :: jsval
  err_response :: "jsval option"
  err_nested :: "(jsval \<times> jsval) option"
  err_json :: jsval
  err_string :: string

text \<open>\<^verbatim>\<open>new Error(msg)\<close>: only the message is set; an Error serialises to \<^verbatim>\<open>{}\<close>.\<close>

definition newError :: "string \<Rightarrow> thrown" where
  "newError msg =
     \<lparr>instanceOfError = True, err_status = JUndefined, err_message = JStr msg,
      err_response = None, err_nested = None, err_json = JStr ''{}'',
      err_string = ''Error: '' @ msg\<rparr>"

text \<open>The TypeError the runtime raises on a property read of undefined.\<close>

definition typeError :: "string \<Rightarrow> thrown" where
  "typeError msg =
     \<lparr>instanceOfError = True, err_status = JUndefined, err_message = JStr msg,
      err_response = None, err_nested = None, err_json = JStr ''{}'',
      err_string = ''TypeError: '' @ msg\<rparr>"

section \<open>The retrying executor (\<^verbatim>\<open>withRetry\<close>)\<close>

text \<open>\<^verbatim>\<open>error.status || error.response?.status || error.error?.code\<close>\<close>

definition statusOf :: "thrown \<Rightarrow> jsval" where
  "statusOf error =
     js_or (js_or (err_status error)
                  (case err_response error of None \<Rightarrow> JUndefined | Some st \<Rightarrow> st))
           (case err_nested error of None \<Rightarrow> JUndefined | Some (code, msg) \<Rightarrow> code)"

text \<open>\<^verbatim>\<open>error.message || error.error?.message || JSON.stringify(error)\<close>\<close>

definition messageOf :: "thrown \<Rightarrow> jsval" where
  "messageOf error =
     js_or (js_or (err_message error)
                  (case err_nested error of None \<Rightarrow> JUndefined | Some (code, msg) \<Rightarrow> msg))
           (err_json error)"

definition isRetryable :: "thrown \<Rightarrow> bool" where
  "isRetryable error =
     (let status = statusOf error;
          message = messageOf error;
          errorMessage = toLowerCase (toString message)
      in includes_str errorMessage ''429'' \<or>
         includes_str errorMessage ''resource_exhausted'' \<or>
         includes_str errorMessage ''quota'' \<or>
         includes_str errorMessage ''internal'' \<or>
         includes_str errorMessage ''overloaded'' \<or>
         includes_str errorMessage ''server error'' \<or>
         status = JNum 500 \<or>
         status = JNum 503)"

definition busyMessage :: "jsval \<Rightarrow> string" where
  "busyMessage status =
     ''The AI service is temporarily busy (Error '' @ toString status @
     ''). Please try again shortly.''"

section \<open>Data model (\<^verbatim>\<open>types.ts\<close> and the interfaces of the application)\<close>

record ProductConcept =
  conceptTitle :: string
  displayText :: string
  fusion :: "string list"
  vision :: string
  whyItWorks :: string

record ListingCopy =
  title :: string
  description :: string
  variations :: "string list"
  tags :: "string list"

datatype ProductType = Sweatshirt | Mug | Ornament | TShirt | ToteBag | Pillow | Hoodie

text \<open>The string a product type is at run time (it is interpolated into prompts).\<close>

fun productTypeName :: "ProductType \<Rightarrow> string" where
  "productTypeName Sweatshirt = ''Sweatshirt''"
| "productTypeName Mug = ''Mug''"
| "productTypeName Ornament = ''Ornament''"
| "productTypeName TShirt = ''T-Shirt''"
| "productTypeName ToteBag = ''Tote Bag''"
| "productTypeName Pillow = ''Pillow''"
| "productTypeName Hoodie = ''Hoodie''"

datatype AppStep = CONFIG | IDEATION | DESIGN | FINALIZE

record PrintifyShop =
  shop_id :: string
  shop_title :: string

record PrintifyImageUploadResponse =
  upload_id :: string
  upload_file_name :: string
  upload_url :: string

record PrintifyProductResponse =
  product_id :: string
  product_title :: string
  product_external_id :: string

record FinalizedProduct =
  concept :: ProductConcept
  designUrl :: string
  mockups :: "string list"
  listingCopy :: ListingCopy
  productType :: ProductType
  printifyId :: "string option"

record DesignItem =
  item_concept :: ProductConcept
  item_url :: string
  item_productType :: ProductType

section \<open>The generative collaborator and its responses\<close>

record inlineData =
  mimeType :: string
  data :: string

datatype part = TextPart string | InlinePart inlineData

text \<open>
  A candidate of a response: \<open>content\<close> is \<open>None\<close> when the candidate carries no content,
  \<open>Some None\<close> when the content has no \<^verbatim>\<open>parts\<close>, \<open>Some (Some ps)\<close> otherwise.
\<close>

datatype candidate = Candidate (content: "part list option option")

record response =
  candidates :: "candidate list option"
  resp_text :: "string option"

datatype request =
    ListingCopyRequest ProductConcept
  | MockupRequest inlineData string

record http_body =
  body_shops :: "PrintifyShop list"
  body_upload :: PrintifyImageUploadResponse
  body_product :: PrintifyProductResponse
  raw_json :: string

text \<open>
  What \<^verbatim>\<open>fetch\<close> resolves to: \<^verbatim>\<open>response.ok\<close> and the result of \<^verbatim>\<open>response.json()\<close>,
  which rejects or yields a body. The body is given under each reading the three service
  functions make of it (their type annotations), with \<open>raw_json\<close> its re-serialisation
  by \<^verbatim>\<open>JSON.stringify\<close>.
\<close>

record http_response =
  ok :: bool
  json_body :: "thrown + http_body"

record product_payload =
  payload_title :: string
  payload_description :: string
  blueprint_id :: nat
  print_provider_id :: nat
  payload_variants :: "(nat \<times> nat \<times> bool) list"
  print_area_variant_ids :: "nat list"
  position :: string
  image_id :: string
  payload_tags :: "string list"

datatype http_request =
    GetShops string
  | UploadImage string string string
  | CreateProduct string string product_payload

text \<open>
  The observable trace: every \<^verbatim>\<open>generateContent\<close> call, every timer wait (milliseconds),
  every invocation of the progress callback, every \<^verbatim>\<open>fetch\<close>. Console output is not
  traced.
\<close>

datatype event =
    Generate request
  | Sleep nat
  | Progress nat nat
  | Fetch http_request

text \<open>
  The collaborators: \<open>ai k\<close> is the outcome of the \<open>k\<close>-th \<^verbatim>\<open>generateContent\<close> call of the
  session, \<open>fetchApi k\<close> that of the \<open>k\<close>-th \<^verbatim>\<open>fetch\<close>, \<open>parseJson\<close> is
  \<^verbatim>\<open>JSON.parse\<close> read at the type \<^verbatim>\<open>ListingCopy\<close>.
\<close>

record collaborators =
  ai :: "nat \<Rightarrow> thrown + response"
  parseJson :: "string \<Rightarrow> thrown + ListingCopy"
  fetchApi :: "nat \<Rightarrow> thrown + http_response"

section \<open>Session state\<close>

record state =
  attempts :: nat
  fetches :: nat
  log :: "event list"
  step :: AppStep
  isLoading :: bool
  loadingMessage :: string
  error :: "string option"
  showSettings :: bool
  holiday :: string
  printifyToken :: string
  selectedDesigns :: "DesignItem list"
  finalizedProducts :: "FinalizedProduct list"
  successMessage :: "string option"

definition generateContent :: "collaborators \<Rightarrow> request \<Rightarrow> state \<Rightarrow> (thrown + response) \<times> state" where
  "generateContent env req s =
     (ai env (attempts s), s\<lparr>attempts := attempts s + 1, log := log s @ [Generate req]\<rparr>)"

definition sleep :: "nat \<Rightarrow> state \<Rightarrow> state" where
  "sleep ms s = s\<lparr>log := log s @ [Sleep ms]\<rparr>"

text \<open>
  The \<^verbatim>\<open>while (true)\<close> loop of \<^verbatim>\<open>withRetry\<close>, with its two variables \<open>retries\<close> and
  \<open>delay\<close> as arguments. It terminates: every iteration that continues increments
  \<open>retries\<close>, and it continues only while \<open>retries < maxRetries\<close>.
\<close>

function retryLoop ::
  "(state \<Rightarrow> (thrown + 'a) \<times> state) \<Rightarrow> nat \<Rightarrow> nat \<Rightarrow> nat \<Rightarrow> state \<Rightarrow> (thrown + 'a) \<times> state" where
  "retryLoop apiCall maxRetries retries delay s =
     (case apiCall s of
        (Inr v, s1) \<Rightarrow> (Inr v, s1)
      | (Inl err, s1) \<Rightarrow>
          if isRetryable err \<and> retries < maxRetries
          then retryLoop apiCall maxRetries (retries + 1) (delay * 2) (sleep delay s1)
          else if isRetryable err
               then (Inl (newError (busyMessage (statusOf err))), s1)
               else (Inl err, s1))"
  by pat_completeness auto
termination
  by (relation "measure (\<lambda>(apiCall, maxRetries, retries, delay, s). maxRetries - retries)") auto

definition withRetry ::
  "(state \<Rightarrow> (thrown + 'a) \<times> state) \<Rightarrow> nat \<Rightarrow> nat \<Rightarrow> state \<Rightarrow> (thrown + 'a) \<times> state" where
  "withRetry apiCall maxRetries initialDelay s = retryLoop apiCall maxRetries 0 initialDelay s"

text \<open>The default arguments \<^verbatim>\<open>maxRetries = 5, initialDelay = 2000\<close>; no call site overrides them.\<close>

definition defaultMaxRetries :: nat where
  "defaultMaxRetries = 5"

definition defaultInitialDelay :: nat where
  "defaultInitialDelay = 2000"

section \<open>Listing copy (\<^verbatim>\<open>generateListingCopy\<close>)\<close>

text \<open>
  The white space and line terminators \<^verbatim>\<open>String.prototype.trim\<close> strips, among the
  characters a \<open>char\<close> can hold: space, tab, line feed, vertical tab, form feed, carriage
  return and the no-break space U+00A0.
\<close>

definition isSpace :: "char \<Rightarrow> bool" where
  "isSpace c = (c \<in> set [CHR '' '', CHR 0x09, CHR 0x0A, CHR 0x0B, CHR 0x0C, CHR 0x0D, CHR 0xA0])"

definition trim :: "string \<Rightarrow> string" where
  "trim s = rev (dropWhile isSpace (rev (dropWhile isSpace s)))"

text \<open>
  One wrapped call, then \<^verbatim>\<open>JSON.parse(response.text.trim())\<close>, returned as it is. The
  \<^verbatim>\<open>catch\<close> block logs to the console and rethrows, so an error passes through.
\<close>

definition generateListingCopy ::
  "collaborators \<Rightarrow> ProductConcept \<Rightarrow> state \<Rightarrow> (thrown + ListingCopy) \<times> state" where
  "generateListingCopy env c s =
     (case withRetry (generateContent env (ListingCopyRequest c)) defaultMaxRetries defaultInitialDelay s of
        (Inl err, s1) \<Rightarrow> (Inl err, s1)
      | (Inr resp, s1) \<Rightarrow>
          (case resp_text resp of
             None \<Rightarrow> (Inl (typeError ''Cannot read properties of undefined (reading 'trim')''), s1)
           | Some t \<Rightarrow>
               (case parseJson env (trim t) of
                  Inl err \<Rightarrow> (Inl err, s1)
                | Inr parsed \<Rightarrow> (Inr parsed, s1))))"

section \<open>Mockup batch and finalisation (\<^verbatim>\<open>generateFinalAssets\<close>)\<close>

text \<open>\<^verbatim>\<open>s.split(',')\<close>: never empty; the pieces between the separators.\<close>

fun splitOn :: "char \<Rightarrow> string \<Rightarrow> string list" where
  "splitOn sep [] = [[]]"
| "splitOn sep (x # xs) =
     (if x = sep then [] # splitOn sep xs
      else (case splitOn sep xs of [] \<Rightarrow> [[x]] | y # ys \<Rightarrow> (x # y) # ys))"

text \<open>
  The regular expression \<^verbatim>\<open>/:(.*?);/\<close>: from the leftmost colon that is followed, with no
  line break in between, by a semicolon, the group is the text up to the first such
  semicolon.
\<close>

fun untilSemicolon :: "string \<Rightarrow> string option" where
  "untilSemicolon [] = None"
| "untilSemicolon (c # cs) =
     (if c = CHR '';'' then Some []
      else if c = CHR 0x0A \<or> c = CHR 0x0D then None
      else map_option ((#) c) (untilSemicolon cs))"

fun matchMime :: "string \<Rightarrow> string option" where
  "matchMime [] = None"
| "matchMime (c # cs) =
     (if c = CHR '':''
      then (case untilSemicolon cs of Some m \<Rightarrow> Some m | None \<Rightarrow> matchMime cs)
      else matchMime cs)"

definition invalidDataUrl :: thrown where
  "invalidDataUrl = newError ''Invalid base64 data URL format.''"

definition base64ToPart :: "string \<Rightarrow> thrown + inlineData" where
  "base64ToPart base64DataUrl =
     (let pieces = splitOn CHR '','' base64DataUrl;
          header = (case pieces of [] \<Rightarrow> None | h # rest \<Rightarrow> Some h);
          dat = (case pieces of h # d # rest \<Rightarrow> Some d | _ \<Rightarrow> None)
      in case (header, dat) of
           (Some h, Some d) \<Rightarrow>
             if h = [] \<or> d = [] then Inl invalidDataUrl
             else Inr \<lparr>mimeType = (case matchMime h of None \<Rightarrow> ''image/png'' | Some m \<Rightarrow> m),
                       data = d\<rparr>
         | _ \<Rightarrow> Inl invalidDataUrl)"

definition modelQualityRule :: string where
  "modelQualityRule = ''Model Quality Rule: The image must be photorealistic. If a person is visible, they must be in-focus with a natural, realistic pose and a clearly visible face. ABSOLUTELY NO headless or faceless/blurred-face models.''"

definition joinWith :: "string \<Rightarrow> string list \<Rightarrow> string" where
  "joinWith sep xs = (case xs of [] \<Rightarrow> [] | y # ys \<Rightarrow> y @ concat (map (\<lambda>z. sep @ z) ys))"

definition basePrompts :: "ProductType \<Rightarrow> ProductConcept \<Rightarrow> string \<Rightarrow> string list" where
  "basePrompts pt c hol =
     (let p = productTypeName pt in
      [''A professional studio hero mockup of a White (or very light neutral) '' @ p @ '' featuring the design. Minimalist, neutral background. Perfect for an Etsy thumbnail.'',
       ''An aesthetic lifestyle mockup of a Sand or Beige '' @ p @ '' with the design. Warm, cozy lighting.'',
       ''A high-contrast studio mockup of a Black '' @ p @ '' with the design. Light background to make the product pop.'',
       ''A professional mockup of a Navy Blue '' @ p @ '' showing the design. Clean setting.'',
       ''A cozy, authentic lifestyle shot of a Dark Heather Grey '' @ p @ '' with the design. Candid and artistic composition.'',
       ''A studio shot of a Forest Green '' @ p @ '' featuring the design. Neutral background.'',
       ''A studio shot of a Maroon '' @ p @ '' featuring the design. Neutral background.'',
       ''A studio shot of a Light Pink '' @ p @ '' featuring the design. Soft lighting.'',
       ''A close-up detail shot of the '' @ p @ '' highlighting the texture and print quality of the design.'',
       ''A creative flatlay of the '' @ p @ '' (in a neutral color) with the design, arranged with simple props related to '' @ hol @ '' or '' @ joinWith '', '' (fusion c) @ ''.'',
       ''A lifestyle photo showing the '' @ p @ '' with the design in a clear '' @ hol @ '' setting (e.g. near decorations, trees, or seasonal elements).'',
       ''A mockup of the '' @ p @ '' with the design, shown from an angle or folded to display the form.''])"

definition getMockupPrompts :: "ProductType \<Rightarrow> ProductConcept \<Rightarrow> string \<Rightarrow> string list" where
  "getMockupPrompts pt c hol = map (\<lambda>prompt. prompt @ '' '' @ modelQualityRule) (basePrompts pt c hol)"

text \<open>\<^verbatim>\<open>onProgress?.(p, t)\<close>: nothing without a callback; the trace records the invocation.\<close>

definition report :: "(nat \<Rightarrow> nat \<Rightarrow> state \<Rightarrow> state) option \<Rightarrow> nat \<Rightarrow> nat \<Rightarrow> state \<Rightarrow> state" where
  "report onProgress p t s =
     (case onProgress of None \<Rightarrow> s | Some f \<Rightarrow> f p t (s\<lparr>log := log s @ [Progress p t]\<rparr>))"

text \<open>
  The image of a response: the data of the first part with inline data in the first
  candidate; \<open>None\<close> when there is none. Reading \<^verbatim>\<open>.parts\<close> of a first candidate
  without content throws.
\<close>

fun findInline :: "part list \<Rightarrow> inlineData option" where
  "findInline [] = None"
| "findInline (TextPart t # ps) = findInline ps"
| "findInline (InlinePart d # ps) = Some d"

definition extractImage :: "response \<Rightarrow> thrown + string option" where
  "extractImage resp =
     (case candidates resp of
        None \<Rightarrow> Inr None
      | Some [] \<Rightarrow> Inr None
      | Some (cand # rest) \<Rightarrow>
          (case content cand of
             None \<Rightarrow> Inl (typeError ''Cannot read properties of undefined (reading 'parts')'')
           | Some None \<Rightarrow> Inr None
           | Some (Some ps) \<Rightarrow> Inr (map_option data (findInline ps))))"

text \<open>
  The \<^verbatim>\<open>for\<close> loop over the scene prompts, \<open>i\<close> the loop variable and \<open>mockupUrls\<close> the
  array built so far (\<open>totalN\<close> is the source's \<^verbatim>\<open>total\<close>).
\<close>

function mockupLoop ::
  "collaborators \<Rightarrow> inlineData \<Rightarrow> string list \<Rightarrow> (nat \<Rightarrow> nat \<Rightarrow> state \<Rightarrow> state) option \<Rightarrow> nat \<Rightarrow>
   nat \<Rightarrow> nat \<Rightarrow> string list \<Rightarrow> state \<Rightarrow> (thrown + string list) \<times> state" where
  "mockupLoop env designPart scenePrompts onProgress totalSteps totalN i mockupUrls s =
     (if i < totalN then
        (let prompt = scenePrompts ! i;
             s1 = report onProgress (i + 2) totalSteps s
         in case withRetry (generateContent env (MockupRequest designPart prompt))
                   defaultMaxRetries defaultInitialDelay s1 of
              (Inl err, s2) \<Rightarrow> (Inl err, s2)
            | (Inr resp, s2) \<Rightarrow>
                (case extractImage resp of
                   Inl err \<Rightarrow> (Inl err, s2)
                 | Inr img \<Rightarrow>
                     mockupLoop env designPart scenePrompts onProgress totalSteps totalN (i + 1)
                       (case img of
                          None \<Rightarrow> mockupUrls
                        | Some base64ImageBytes \<Rightarrow>
                            mockupUrls @ [''data:image/jpeg;base64,'' @ base64ImageBytes])
                       (if i < totalN - 1 then sleep 1500 s2 else s2)))
      else (Inr mockupUrls, s))"
  by pat_completeness auto
termination
  by (relation "measure (\<lambda>(env, designPart, scenePrompts, onProgress, totalSteps, totalN, i, mockupUrls, s). totalN - i)") auto

definition noMockups :: thrown where
  "noMockups = newError ''No mockups were generated.''"

definition generateFinalAssets ::
  "collaborators \<Rightarrow> string \<Rightarrow> ProductConcept \<Rightarrow> string \<Rightarrow> ProductType \<Rightarrow>
   (nat \<Rightarrow> nat \<Rightarrow> state \<Rightarrow> state) option \<Rightarrow> state \<Rightarrow> (thrown + string list \<times> ListingCopy) \<times> state" where
  "generateFinalAssets env url c hol pt onProgress s =
     (let scenePrompts = getMockupPrompts pt c hol;
          totalSteps = length scenePrompts + 1;
          s0 = report onProgress 0 totalSteps s
      in case generateListingCopy env c s0 of
           (Inl err, s1) \<Rightarrow> (Inl err, s1)
         | (Inr copy, s1) \<Rightarrow>
             (let s2 = report onProgress 1 totalSteps s1
              in case base64ToPart url of
                   Inl err \<Rightarrow> (Inl err, s2)
                 | Inr designPart \<Rightarrow>
                     (case mockupLoop env designPart scenePrompts onProgress totalSteps
                             (length scenePrompts) 0 [] s2 of
                        (Inl err, s3) \<Rightarrow> (Inl err, s3)
                      | (Inr mockupUrls, s3) \<Rightarrow>
                          if length mockupUrls = 0 then (Inl noMockups, s3)
                          else (Inr (mockupUrls, copy), s3))))"

section \<open>The finalisation orchestrator (\<^verbatim>\<open>handleForgeAssets\<close>)\<close>

text \<open>\<^verbatim>\<open>error instanceof Error ? error.message : String(error)\<close>, then the two setters.\<close>

definition handleApiError :: "thrown \<Rightarrow> state \<Rightarrow> state" where
  "handleApiError e s =
     (let message = (if instanceOfError e then toString (err_message e) else err_string e)
      in s\<lparr>error := Some message, isLoading := False\<rparr>)"

definition overallProgressText :: "nat \<Rightarrow> nat \<Rightarrow> DesignItem \<Rightarrow> string" where
  "overallProgressText i n design =
     ''Processing Design '' @ showNat (i + 1) @ '' of '' @ showNat n @ '': '' @ [CHR 0x22] @
     conceptTitle (item_concept design) @ [CHR 0x22]"

text \<open>The progress callback the orchestrator passes: it only rewrites the loading message.\<close>

definition progressCallback :: "string \<Rightarrow> nat \<Rightarrow> nat \<Rightarrow> state \<Rightarrow> state" where
  "progressCallback overallProgress progress tot s =
     (let stage = (if progress \<le> 1 then ''Writing compelling copy...''
                   else ''Generating mockup '' @ showNat (progress - 1) @ ''/'' @ showNat (tot - 1) @ ''...'')
      in s\<lparr>loadingMessage := overallProgress @ [CHR 0x0A] @ stage\<rparr>)"

function forgeLoop ::
  "collaborators \<Rightarrow> string \<Rightarrow> DesignItem list \<Rightarrow> nat \<Rightarrow> FinalizedProduct list \<Rightarrow> state \<Rightarrow>
   (thrown + FinalizedProduct list) \<times> state" where
  "forgeLoop env hol designsToProcess i allFinalAssets s =
     (if i < length designsToProcess then
        (let design = designsToProcess ! i;
             overallProgress = overallProgressText i (length designsToProcess) design;
             s1 = s\<lparr>loadingMessage := overallProgress\<rparr>
         in case generateFinalAssets env (item_url design) (item_concept design) hol
                   (item_productType design) (Some (progressCallback overallProgress)) s1 of
              (Inl err, s2) \<Rightarrow> (Inl err, s2)
            | (Inr (finalMockups, finalCopy), s2) \<Rightarrow>
                forgeLoop env hol designsToProcess (i + 1)
                  (allFinalAssets @
                     [\<lparr>concept = item_concept design, designUrl = item_url design,
                       mockups = finalMockups, listingCopy = finalCopy,
                       productType = item_productType design, printifyId = None\<rparr>])
                  s2)
      else (Inr allFinalAssets, s))"
  by pat_completeness auto
termination
  by (relation "measure (\<lambda>(env, hol, designsToProcess, i, allFinalAssets, s). length designsToProcess - i)") auto

definition handleForgeAssets :: "collaborators \<Rightarrow> DesignItem option \<Rightarrow> state \<Rightarrow> state" where
  "handleForgeAssets env singleDesign s =
     (let designsToProcess = (case singleDesign of Some d \<Rightarrow> [d] | None \<Rightarrow> selectedDesigns s)
      in if length designsToProcess = 0 then s
         else (let s1 = s\<lparr>isLoading := True, error := None, finalizedProducts := []\<rparr>
               in case forgeLoop env (holiday s) designsToProcess 0 [] s1 of
                    (Inr allFinalAssets, s2) \<Rightarrow>
                      (s2\<lparr>finalizedProducts := allFinalAssets, step := FINALIZE\<rparr>)\<lparr>isLoading := False\<rparr>
                  | (Inl e, s2) \<Rightarrow> (handleApiError e s2)\<lparr>isLoading := False\<rparr>))"

section \<open>The publish stage (\<^verbatim>\<open>printifyService\<close> and \<^verbatim>\<open>handlePrintifyPublish\<close>)\<close>

text \<open>\<^verbatim>\<open>PRODUCT_MAP\<close>: blueprint, print provider, variants, placement.\<close>

fun PRODUCT_MAP :: "ProductType \<Rightarrow> nat \<times> nat \<times> nat list \<times> string" where
  "PRODUCT_MAP TShirt = (12, 29, [45174, 45175, 45176], ''front'')"
| "PRODUCT_MAP Hoodie = (77, 29, [45426, 45427, 45428], ''front'')"
| "PRODUCT_MAP Sweatshirt = (53, 29, [45300, 45301, 45302], ''front'')"
| "PRODUCT_MAP Mug = (68, 23, [46317], ''front'')"
| "PRODUCT_MAP ToteBag = (485, 3, [58503], ''front'')"
| "PRODUCT_MAP Pillow = (58, 3, [45364], ''front'')"
| "PRODUCT_MAP Ornament = (847, 66, [96973], ''front'')"

definition doFetch :: "collaborators \<Rightarrow> http_request \<Rightarrow> state \<Rightarrow> (thrown + http_response) \<times> state" where
  "doFetch env req s =
     (fetchApi env (fetches s), s\<lparr>fetches := fetches s + 1, log := log s @ [Fetch req]\<rparr>)"

definition getPrintifyShop :: "collaborators \<Rightarrow> string \<Rightarrow> state \<Rightarrow> (thrown + PrintifyShop) \<times> state" where
  "getPrintifyShop env token s =
     (case doFetch env (GetShops token) s of
        (Inl err, s1) \<Rightarrow> (Inl err, s1)
      | (Inr resp, s1) \<Rightarrow>
          if \<not> ok resp
          then (Inl (newError ''Failed to fetch Printify shops. Check your API Token.''), s1)
          else (case json_body resp of
                  Inl err \<Rightarrow> (Inl err, s1)
                | Inr body \<Rightarrow>
                    (case body_shops body of
                       [] \<Rightarrow> (Inl (newError ''No Printify shops found for this account.''), s1)
                     | shop # rest \<Rightarrow>
                         (Inr \<lparr>shop_id = shop_id shop, shop_title = shop_title shop\<rparr>, s1))))"

definition isWordChar :: "char \<Rightarrow> bool" where
  "isWordChar c =
     (let n = of_char c :: nat
      in (48 \<le> n \<and> n \<le> 57) \<or> (65 \<le> n \<and> n \<le> 90) \<or> (97 \<le> n \<and> n \<le> 122) \<or> n = 95)"

text \<open>\<^verbatim>\<open>base64Image.replace(/^data:image\/\w+;base64,/, "")\<close>\<close>

definition stripDataPrefix :: "string \<Rightarrow> string" where
  "stripDataPrefix base64Image =
     (if startsWith base64Image ''data:image/''
      then (let rest = drop 11 base64Image;
                word = takeWhile isWordChar rest;
                after = dropWhile isWordChar rest
            in if word \<noteq> [] \<and> startsWith after '';base64,'' then drop 8 after
               else base64Image)
      else base64Image)"

definition uploadImageToPrintify ::
  "collaborators \<Rightarrow> string \<Rightarrow> string \<Rightarrow> string \<Rightarrow> state \<Rightarrow> (thrown + string) \<times> state" where
  "uploadImageToPrintify env token base64Image fileName s =
     (let cleanBase64 = stripDataPrefix base64Image
      in case doFetch env (UploadImage token fileName cleanBase64) s of
           (Inl err, s1) \<Rightarrow> (Inl err, s1)
         | (Inr resp, s1) \<Rightarrow>
             (case json_body resp of
                Inl err \<Rightarrow> (Inl err, s1)
              | Inr body \<Rightarrow>
                  if \<not> ok resp
                  then (Inl (newError (''Image upload failed: '' @ raw_json body)), s1)
                  else (Inr (upload_id (body_upload body)), s1)))"

text \<open>
  The request body of \<^verbatim>\<open>createPrintifyProduct\<close>. Every product type has an entry in
  \<^verbatim>\<open>PRODUCT_MAP\<close>, so the missing-mapping check never fires. Each variant is (id, price
  2500, enabled); the fixed placement literals of the image (centre, scale, angle) are
  constants of the request and not recorded.
\<close>

definition productPayload :: "ProductType \<Rightarrow> string \<Rightarrow> ListingCopy \<Rightarrow> product_payload" where
  "productPayload pt imageId copy =
     (case PRODUCT_MAP pt of
        (blueprint, provider, variantIds, placement) \<Rightarrow>
          \<lparr>payload_title = title copy, payload_description = description copy,
           blueprint_id = blueprint, print_provider_id = provider,
           payload_variants = map (\<lambda>v. (v, 2500, True)) variantIds,
           print_area_variant_ids = variantIds, position = placement,
           image_id = imageId, payload_tags = tags copy\<rparr>)"

definition createPrintifyProduct ::
  "collaborators \<Rightarrow> string \<Rightarrow> string \<Rightarrow> ProductType \<Rightarrow> string \<Rightarrow> ListingCopy \<Rightarrow> state \<Rightarrow>
   (thrown + PrintifyProductResponse) \<times> state" where
  "createPrintifyProduct env token shopId pt imageId copy s =
     (let payload = productPayload pt imageId copy
      in case doFetch env (CreateProduct token shopId payload) s of
           (Inl err, s1) \<Rightarrow> (Inl err, s1)
         | (Inr resp, s1) \<Rightarrow>
             (case json_body resp of
                Inl err \<Rightarrow> (Inl err, s1)
              | Inr body \<Rightarrow>
                  if \<not> ok resp
                  then (Inl (newError (''Product creation failed: '' @ raw_json body)), s1)
                  else (Inr (body_product body), s1)))"

text \<open>\<^verbatim>\<open>title.replace(/[^a-z0-9]/gi, '_')\<close>\<close>

definition isAlnum :: "char \<Rightarrow> bool" where
  "isAlnum c =
     (let n = of_char c :: nat
      in (48 \<le> n \<and> n \<le> 57) \<or> (65 \<le> n \<and> n \<le> 90) \<or> (97 \<le> n \<and> n \<le> 122))"

definition safeFileName :: "string \<Rightarrow> string" where
  "safeFileName t = map (\<lambda>c. if isAlnum c then c else CHR ''_'') t @ ''.png''"

text \<open>The functional state update after a successful publish.\<close>

definition markPublished :: "FinalizedProduct \<Rightarrow> string \<Rightarrow> FinalizedProduct list \<Rightarrow> FinalizedProduct list" where
  "markPublished product pid prev =
     map (\<lambda>p. if conceptTitle (concept p) = conceptTitle (concept product)
               then p\<lparr>printifyId := Some pid\<rparr> else p) prev"

definition publishFailed :: "thrown \<Rightarrow> state \<Rightarrow> state" where
  "publishFailed e s = (handleApiError e s)\<lparr>isLoading := False\<rparr>"

definition handlePrintifyPublish :: "collaborators \<Rightarrow> FinalizedProduct \<Rightarrow> state \<Rightarrow> state" where
  "handlePrintifyPublish env product s =
     (if printifyToken s = [] then s\<lparr>showSettings := True\<rparr>
      else
        (let s1 = s\<lparr>isLoading := True, loadingMessage := ''Connecting to Printify...'',
                     error := None, successMessage := None\<rparr>
         in case getPrintifyShop env (printifyToken s) s1 of
              (Inl e, s2) \<Rightarrow> publishFailed e s2
            | (Inr shop, s2) \<Rightarrow>
                (let s3 = s2\<lparr>loadingMessage := ''Uploading design to Printify Media Library...''\<rparr>;
                     filename = safeFileName (conceptTitle (concept product))
                 in case uploadImageToPrintify env (printifyToken s) (designUrl product) filename s3 of
                      (Inl e, s4) \<Rightarrow> publishFailed e s4
                    | (Inr imageId, s4) \<Rightarrow>
                        (let s5 = s4\<lparr>loadingMessage :=
                                        ''Creating '' @ productTypeName (productType product) @ '' listing...''\<rparr>
                         in case createPrintifyProduct env (printifyToken s) (shop_id shop)
                                   (productType product) imageId (listingCopy product) s5 of
                              (Inl e, s6) \<Rightarrow> publishFailed e s6
                            | (Inr printifyProduct, s6) \<Rightarrow>
                                (s6\<lparr>successMessage :=
                                       Some (''Successfully created '' @ [CHR 0x22] @
                                             product_title printifyProduct @ [CHR 0x22] @
                                             '' in Printify!''),
                                     finalizedProducts :=
                                       markPublished product (product_id printifyProduct)
                                         (finalizedProducts s6)\<rparr>)\<lparr>isLoading := False\<rparr>))))"

section \<open>Observations on traces\<close>

text \<open>
  The events of one wrapped call that was retried \<open>n\<close> times: the request, then for each
  retry the backoff wait and the request again.
\<close>

definition retryTrace :: "request \<Rightarrow> nat \<Rightarrow> nat \<Rightarrow> event list" where
  "retryTrace req d n = concat (map (\<lambda>k. [Generate req, Sleep (d * 2 ^ k)]) [0..<n]) @ [Generate req]"

text \<open>The (current step, total steps) pairs the progress callback received, in order.\<close>

fun progressReports :: "event list \<Rightarrow> (nat \<times> nat) list" where
  "progressReports [] = []"
| "progressReports (Progress p t # es) = (p, t) # progressReports es"
| "progressReports (e # es) = progressReports es"



text \<open>
  The skeleton of a trace: waits are dropped, and so is a request that repeats the request
  before it with only waits in between (a retry by the executor). \<open>prev\<close> is the request
  last seen since the last other event.
\<close>

fun skeleton :: "request option \<Rightarrow> event list \<Rightarrow> event list" where
  "skeleton prev [] = []"
| "skeleton prev (Sleep d # es) = skeleton prev es"
| "skeleton prev (Generate r # es) =
     (if prev = Some r then skeleton prev es else Generate r # skeleton (Some r) es)"
| "skeleton prev (Progress p t # es) = Progress p t # skeleton None es"
| "skeleton prev (Fetch q # es) = Fetch q # skeleton None es"

text \<open>
  The skeleton of the trace of one tuple that runs to its end: report 0, the listing-copy
  request, report 1, then for every scene prompt \<open>q\<close> report \<open>q + 2\<close> followed by the
  mockup request for that prompt. A tuple that fails leaves a prefix of it.
\<close>

definition tupleSkeleton :: "string \<Rightarrow> DesignItem \<Rightarrow> event list" where
  "tupleSkeleton hol d =
     (let ps = getMockupPrompts (item_productType d) (item_concept d) hol;
          T = length ps + 1
      in Progress 0 T # Generate (ListingCopyRequest (item_concept d)) # Progress 1 T #
         (case base64ToPart (item_url d) of
            Inl e \<Rightarrow> []
          | Inr designPart \<Rightarrow>
              concat (map (\<lambda>q. [Progress (q + 2) T, Generate (MockupRequest designPart (ps ! q))])
                        [0..<length ps])))"

text \<open>The concepts of the listing-copy requests of a trace, in order.\<close>

fun copyRequests :: "event list \<Rightarrow> ProductConcept list" where
  "copyRequests [] = []"
| "copyRequests (Generate (ListingCopyRequest c) # es) = c # copyRequests es"
| "copyRequests (e # es) = copyRequests es"

text \<open>What the orchestrator builds from a design item and the assets generated for it.\<close>

definition itemOf :: "FinalizedProduct \<Rightarrow> DesignItem" where
  "itemOf p = \<lparr>item_concept = concept p, item_url = designUrl p, item_productType = productType p\<rparr>"

text \<open>
  One iteration of the orchestrator's loop: the loading message for tuple \<open>i\<close>, then the
  finalisation of that tuple with the orchestrator's progress callback.
\<close>

definition tupleRun ::
  "collaborators \<Rightarrow> string \<Rightarrow> DesignItem list \<Rightarrow> nat \<Rightarrow> state \<Rightarrow>
   (thrown + string list \<times> ListingCopy) \<times> state" where
  "tupleRun env hol designsToProcess i s =
     (let design = designsToProcess ! i;
          overallProgress = overallProgressText i (length designsToProcess) design
      in generateFinalAssets env (item_url design) (item_concept design) hol
           (item_productType design) (Some (progressCallback overallProgress))
           (s\<lparr>loadingMessage := overallProgress\<rparr>))"

text \<open>
  The state in which tuple \<open>j\<close> starts when the tuples before it are run one after the
  other in input order from state \<open>s\<close>, and the outcome of tuple \<open>j\<close> run from there.
\<close>

primrec stateBefore :: "collaborators \<Rightarrow> string \<Rightarrow> DesignItem list \<Rightarrow> state \<Rightarrow> nat \<Rightarrow> state" where
  "stateBefore env hol ds s 0 = s"
| "stateBefore env hol ds s (Suc j) = snd (tupleRun env hol ds j (stateBefore env hol ds s j))"

definition tupleResult ::
  "collaborators \<Rightarrow> string \<Rightarrow> DesignItem list \<Rightarrow> state \<Rightarrow> nat \<Rightarrow> thrown + string list \<times> ListingCopy" where
  "tupleResult env hol ds s j = fst (tupleRun env hol ds j (stateBefore env hol ds s j))"

text \<open>The product the orchestrator pushes for a tuple and the assets generated for it.\<close>

definition builtProduct :: "DesignItem \<Rightarrow> string list \<times> ListingCopy \<Rightarrow> FinalizedProduct" where
  "builtProduct design assets =
     \<lparr>concept = item_concept design, designUrl = item_url design,
      mockups = fst assets, listingCopy = snd assets,
      productType = item_productType design, printifyId = None\<rparr>"

section \<open>Example inputs\<close>

text \<open>Concrete collaborators, errors and states at which the properties below are evaluated.\<close>

definition exampleConcept :: ProductConcept where
  "exampleConcept =
     \<lparr>conceptTitle = ''Cozy Pines'', displayText = ''Oh So Merry'',
      fusion = [''retro'', ''cozy''], vision = ''A warm pine forest.'',
      whyItWorks = ''Coziness sells.''\<rparr>"

definition exampleCopy :: ListingCopy where
  "exampleCopy =
     \<lparr>title = ''Cozy Pines Sweatshirt'', description = ''A cozy sweatshirt.'',
      variations = [''Sand'', ''Sage''], tags = [''cozy'', ''pines'']\<rparr>"

definition exampleResponse :: response where
  "exampleResponse =
     \<lparr>candidates = Some [Candidate (Some (Some [InlinePart \<lparr>mimeType = ''image/png'', data = ''AAAA''\<rparr>]))],
      resp_text = Some ''{}''\<rparr>"

definition exampleState :: state where
  "exampleState =
     \<lparr>attempts = 0, fetches = 0, log = [], step = DESIGN, isLoading = False,
      loadingMessage = [], error = None, showSettings = False, holiday = ''Christmas'',
      printifyToken = ''token'', selectedDesigns = [], finalizedProducts = [],
      successMessage = None\<rparr>"

definition rateLimited :: thrown where
  "rateLimited = newError ''429 Too Many Requests''"

definition unavailable :: thrown where
  "unavailable = (newError ''Service Unavailable'')\<lparr>err_status := JNum 503\<rparr>"

definition badKey :: thrown where
  "badKey = newError ''API key not valid''"

definition noFetch :: "nat \<Rightarrow> thrown + http_response" where
  "noFetch k = Inl (typeError ''Failed to fetch'')"

definition flakyEnv :: collaborators where
  "flakyEnv =
     \<lparr>ai = (\<lambda>k. if k < 2 then Inl rateLimited else Inr exampleResponse),
      parseJson = (\<lambda>t. Inr exampleCopy), fetchApi = noFetch\<rparr>"

definition downEnv :: collaborators where
  "downEnv = \<lparr>ai = (\<lambda>k. Inl unavailable), parseJson = (\<lambda>t. Inr exampleCopy), fetchApi = noFetch\<rparr>"

definition shoutedQuota :: thrown where
  "shoutedQuota = newError ''Daily QUOTA Exceeded''"

definition nestedOverloaded :: thrown where
  "nestedOverloaded =
     \<lparr>instanceOfError = False, err_status = JUndefined, err_message = JUndefined,
      err_response = None, err_nested = Some (JNum 8, JStr ''The model is Overloaded''),
      err_json = JStr ''{}'', err_string = ''[object Object]''\<rparr>"

definition serialisedRateLimit :: thrown where
  "serialisedRateLimit =
     \<lparr>instanceOfError = False, err_status = JUndefined, err_message = JStr [],
      err_response = None, err_nested = None,
      err_json = JStr (''{'' @ [CHR 0x22] @ ''code'' @ [CHR 0x22] @ '':429}''),
      err_string = ''[object Object]''\<rparr>"

definition numericMessage :: thrown where
  "numericMessage =
     \<lparr>instanceOfError = False, err_status = JUndefined, err_message = JNum 429,
      err_response = None, err_nested = None, err_json = JStr ''{}'',
      err_string = ''[object Object]''\<rparr>"

definition responseUnavailable :: thrown where
  "responseUnavailable =
     \<lparr>instanceOfError = True, err_status = JNum 0, err_message = JStr ''Bad Gateway'',
      err_response = Some (JNum 503), err_nested = None,
      err_json = JStr ''{}'', err_string = ''Error: Bad Gateway''\<rparr>"

definition nestedCode500 :: thrown where
  "nestedCode500 =
     \<lparr>instanceOfError = False, err_status = JUndefined, err_message = JUndefined,
      err_response = None, err_nested = Some (JNum 500, JStr ''backend failure''),
      err_json = JStr ''{}'', err_string = ''[object Object]''\<rparr>"

definition notFoundShadowing :: thrown where
  "notFoundShadowing =
     \<lparr>instanceOfError = True, err_status = JNum 404, err_message = JStr ''Not Found'',
      err_response = Some (JNum 503), err_nested = Some (JNum 500, JStr ''quota''),
      err_json = JStr ''internal'', err_string = ''Error: Not Found''\<rparr>"


definition keylessEnv :: collaborators where
  "keylessEnv = \<lparr>ai = (\<lambda>k. Inl badKey), parseJson = (\<lambda>t. Inr exampleCopy), fetchApi = noFetch\<rparr>"

definition exampleProduct :: FinalizedProduct where
  "exampleProduct =
     \<lparr>concept = exampleConcept, designUrl = ''data:image/png;base64,AAAA'',
      mockups = [''data:image/jpeg;base64,BBBB''], listingCopy = exampleCopy,
      productType = Mug, printifyId = None\<rparr>"


definition exampleBody :: http_body where
  "exampleBody =
     \<lparr>body_shops = [\<lparr>shop_id = ''shop-1'', shop_title = ''My Shop''\<rparr>],
      body_upload = \<lparr>upload_id = ''img-1'', upload_file_name = ''Cozy_Pines.png'', upload_url = ''u''\<rparr>,
      body_product = \<lparr>product_id = ''prod-1'', product_title = ''Cozy Pines Sweatshirt'',
                      product_external_id = ''x''\<rparr>,
      raw_json = ''{}''\<rparr>"


definition serverErrorJson :: string where
  "serverErrorJson = ''{'' @ [CHR 0x22] @ ''error'' @ [CHR 0x22] @ '':'' @ [CHR 0x22] @
                     ''Internal server error'' @ [CHR 0x22] @ ''}''"


definition okResponse :: http_response where
  "okResponse = \<lparr>ok = True, json_body = Inr exampleBody\<rparr>"


definition serverErrorResponse :: http_response where
  "serverErrorResponse = \<lparr>ok = False, json_body = Inr (exampleBody\<lparr>raw_json := serverErrorJson\<rparr>)\<rparr>"


definition uploadFailsOnceEnv :: collaborators where
  "uploadFailsOnceEnv =
     \<lparr>ai = (\<lambda>k. Inr exampleResponse), parseJson = (\<lambda>t. Inr exampleCopy),
      fetchApi = (\<lambda>k. if k = 1 then Inr serverErrorResponse else Inr okResponse)\<rparr>"


definition shopEnv :: collaborators where
  "shopEnv =
     \<lparr>ai = (\<lambda>k. Inr exampleResponse), parseJson = (\<lambda>t. Inr exampleCopy),
      fetchApi = (\<lambda>k. Inr okResponse)\<rparr>"


definition otherProduct :: FinalizedProduct where
  "otherProduct =
     \<lparr>concept = exampleConcept\<lparr>conceptTitle := ''Pixelated Pines''\<rparr>,
      designUrl = ''data:image/png;base64,CCCC'', mockups = [], listingCopy = exampleCopy,
      productType = Hoodie, printifyId = None\<rparr>"


definition publishState :: state where
  "publishState =
     exampleState\<lparr>step := FINALIZE,
       finalizedProducts := [exampleProduct, otherProduct, exampleProduct\<lparr>productType := Hoodie\<rparr>]\<rparr>"


definition oversizedCopy :: ListingCopy where
  "oversizedCopy =
     \<lparr>title = replicate 141 CHR ''x'', description = ''d'', variations = [],
      tags = [replicate 21 CHR ''t'', ''short'']\<rparr>"


definition sloppyEnv :: collaborators where
  "sloppyEnv =
     \<lparr>ai = (\<lambda>k. Inr exampleResponse), parseJson = (\<lambda>t. Inr oversizedCopy),
      fetchApi = noFetch\<rparr>"






definition secondItem :: DesignItem where
  "secondItem =
     \<lparr>item_concept = exampleConcept\<lparr>conceptTitle := ''Pixelated Pines''\<rparr>,
      item_url = ''data:image/png;base64,CCCC'', item_productType = Hoodie\<rparr>"


definition firstItem :: DesignItem where
  "firstItem =
     \<lparr>item_concept = exampleConcept, item_url = ''data:image/png;base64,AAAA'',
      item_productType = Mug\<rparr>"


definition batchState :: state where
  "batchState = exampleState\<lparr>selectedDesigns := [firstItem, secondItem]\<rparr>"


definition brokenItem :: DesignItem where
  "brokenItem =
     \<lparr>item_concept = exampleConcept\<lparr>conceptTitle := ''Broken Pines''\<rparr>,
      item_url = ''not-a-data-url'', item_productType = Pillow\<rparr>"

definition brokenBatchState :: state where
  "brokenBatchState =
     exampleState\<lparr>selectedDesigns := [firstItem, brokenItem, secondItem],
                   finalizedProducts := [exampleProduct]\<rparr>"

section \<open>Properties of the executor\<close>

declare retryLoop.simps [simp del]
declare mockupLoop.simps [simp del]
declare forgeLoop.simps [simp del]

lemma startsWith_iff: "startsWith s t \<longleftrightarrow> (\<exists>post. s = t @ post)"
  by (induction s t rule: startsWith.induct) auto

lemma includes_str_iff: "includes_str s t \<longleftrightarrow> (\<exists>pre post. s = pre @ t @ post)"
proof (induction s)
  case Nil
  then show ?case by auto
next
  case (Cons x xs)
  show ?case
  proof
    assume "includes_str (x # xs) t"
    then consider "startsWith (x # xs) t" | "includes_str xs t" by auto
    then show "\<exists>pre post. x # xs = pre @ t @ post"
    proof cases
      case 1
      then obtain post where "x # xs = t @ post" by (auto simp: startsWith_iff)
      then have "x # xs = [] @ t @ post" by simp
      then show ?thesis by blast
    next
      case 2
      then obtain pre post where "xs = pre @ t @ post" using Cons.IH by auto
      then have "x # xs = (x # pre) @ t @ post" by simp
      then show ?thesis by blast
    qed
  next
    assume "\<exists>pre post. x # xs = pre @ t @ post"
    then obtain pre post where eq: "x # xs = pre @ t @ post" by blast
    show "includes_str (x # xs) t"
    proof (cases pre)
      case Nil
      with eq have "startsWith (x # xs) t" by (auto simp: startsWith_iff)
      then show ?thesis by simp
    next
      case (Cons p ps)
      with eq have "xs = ps @ t @ post" by simp
      then have "includes_str xs t" using Cons.IH by blast
      then show ?thesis by simp
    qed
  qed
qed

lemma map_upt_shift: "map f [0..<Suc n] = f 0 # map (\<lambda>k. f (Suc k)) [0..<n]"
  by (induction n) simp_all

lemma retryLoop_generate:
  "r \<le> m \<Longrightarrow>
   \<exists>n \<le> m - r.
     snd (retryLoop (generateContent env req) m r d s) =
       s\<lparr>attempts := attempts s + n + 1, log := log s @ retryTrace req d n\<rparr>
     \<and> (\<forall>k<n. \<exists>e. ai env (attempts s + k) = Inl e \<and> isRetryable e)
     \<and> fst (retryLoop (generateContent env req) m r d s) =
         (case ai env (attempts s + n) of
            Inr v \<Rightarrow> Inr v
          | Inl e \<Rightarrow> if isRetryable e then Inl (newError (busyMessage (statusOf e))) else Inl e)
     \<and> (\<forall>e. ai env (attempts s + n) = Inl e \<and> isRetryable e \<longrightarrow> n = m - r)"
proof (induction "m - r" arbitrary: r d s)
  case 0
  then have rm: "r = m" by simp
  have "snd (retryLoop (generateContent env req) m r d s) =
          s\<lparr>attempts := attempts s + 0 + 1, log := log s @ retryTrace req d 0\<rparr>"
    by (simp add: retryLoop.simps retryTrace_def rm generateContent_def split: sum.splits)
  moreover have "fst (retryLoop (generateContent env req) m r d s) =
         (case ai env (attempts s + 0) of
            Inr v \<Rightarrow> Inr v
          | Inl e \<Rightarrow> if isRetryable e then Inl (newError (busyMessage (statusOf e))) else Inl e)"
    by (simp add: retryLoop.simps rm generateContent_def split: sum.splits)
  moreover have "\<forall>e. ai env (attempts s + 0) = Inl e \<and> isRetryable e \<longrightarrow> 0 = m - r"
    using rm by simp
  moreover have "\<forall>k<(0::nat). \<exists>e. ai env (attempts s + k) = Inl e \<and> isRetryable e" by simp
  moreover have "(0::nat) \<le> m - r" by simp
  ultimately show ?case by blast
next
  case (Suc x)
  then have lt: "r < m" by simp
  let ?s1 = "s\<lparr>attempts := attempts s + 1, log := log s @ [Generate req]\<rparr>"
  show ?case
  proof (cases "\<exists>e. ai env (attempts s) = Inl e \<and> isRetryable e")
    case False
    have "snd (retryLoop (generateContent env req) m r d s) =
          s\<lparr>attempts := attempts s + 0 + 1, log := log s @ retryTrace req d 0\<rparr>"
      using False by (simp add: retryLoop.simps retryTrace_def generateContent_def split: sum.splits)
    moreover have "fst (retryLoop (generateContent env req) m r d s) =
         (case ai env (attempts s + 0) of
            Inr v \<Rightarrow> Inr v
          | Inl e \<Rightarrow> if isRetryable e then Inl (newError (busyMessage (statusOf e))) else Inl e)"
      using False by (simp add: retryLoop.simps generateContent_def split: sum.splits)
    moreover have "\<forall>e. ai env (attempts s + 0) = Inl e \<and> isRetryable e \<longrightarrow> 0 = m - r"
      using False by auto
    moreover have "\<forall>k<(0::nat). \<exists>e. ai env (attempts s + k) = Inl e \<and> isRetryable e" by simp
    moreover have "(0::nat) \<le> m - r" by simp
    ultimately show ?thesis by blast
  next
    case True
    then obtain e where e: "ai env (attempts s) = Inl e" "isRetryable e" by blast
    let ?s2 = "sleep d ?s1"
    have step: "retryLoop (generateContent env req) m r d s =
                retryLoop (generateContent env req) m (r + 1) (d * 2) ?s2"
      using e lt by (subst retryLoop.simps) (simp add: generateContent_def)
    have "x = m - (r + 1)" "r + 1 \<le> m" using Suc.hyps(2) lt by simp_all
    from Suc.hyps(1)[OF this, of "d * 2" ?s2]
    obtain n where n: "n \<le> m - (r + 1)"
      "snd (retryLoop (generateContent env req) m (r + 1) (d * 2) ?s2) =
        ?s2\<lparr>attempts := attempts ?s2 + n + 1, log := log ?s2 @ retryTrace req (d * 2) n\<rparr>"
      "\<forall>k<n. \<exists>e. ai env (attempts ?s2 + k) = Inl e \<and> isRetryable e"
      "fst (retryLoop (generateContent env req) m (r + 1) (d * 2) ?s2) =
         (case ai env (attempts ?s2 + n) of
            Inr v \<Rightarrow> Inr v
          | Inl e \<Rightarrow> if isRetryable e then Inl (newError (busyMessage (statusOf e))) else Inl e)"
      "\<forall>e. ai env (attempts ?s2 + n) = Inl e \<and> isRetryable e \<longrightarrow> n = m - (r + 1)"
      by blast
    have a2: "attempts ?s2 = attempts s + 1" by (simp add: sleep_def)
    have c1: "Suc n \<le> m - r" using n(1) lt by simp
    have c2: "snd (retryLoop (generateContent env req) m r d s) =
       s\<lparr>attempts := attempts s + Suc n + 1, log := log s @ retryTrace req d (Suc n)\<rparr>"
      unfolding step n(2) retryTrace_def map_upt_shift by (simp add: sleep_def mult.assoc)
    have c3: "\<forall>k<Suc n. \<exists>e. ai env (attempts s + k) = Inl e \<and> isRetryable e"
    proof (intro allI impI)
      fix k assume "k < Suc n"
      show "\<exists>e. ai env (attempts s + k) = Inl e \<and> isRetryable e"
      proof (cases k)
        case 0
        then show ?thesis using e by simp
      next
        case (Suc j)
        then have "j < n" using \<open>k < Suc n\<close> by simp
        then show ?thesis using n(3) a2 Suc by simp
      qed
    qed
    have c4: "fst (retryLoop (generateContent env req) m r d s) =
         (case ai env (attempts s + Suc n) of
            Inr v \<Rightarrow> Inr v
          | Inl e \<Rightarrow> if isRetryable e then Inl (newError (busyMessage (statusOf e))) else Inl e)"
      unfolding step n(4) a2 by simp
    have c5: "\<forall>e. ai env (attempts s + Suc n) = Inl e \<and> isRetryable e \<longrightarrow> Suc n = m - r"
      using n(5) a2 lt n(1) by auto
    show ?thesis using c1 c2 c3 c4 c5 by (intro exI[of _ "Suc n"]) blast
  qed
qed

lemma upper_codes: "map char_of [65..<91::nat] = ''ABCDEFGHIJKLMNOPQRSTUVWXYZ''"
  by code_simp

lemma upper_range: "\<forall>c \<in> set ''ABCDEFGHIJKLMNOPQRSTUVWXYZ''. 65 \<le> (of_char c :: nat) \<and> (of_char c :: nat) \<le> 90"
  by code_simp

lemma upper_lowered:
  "\<forall>c \<in> set ''ABCDEFGHIJKLMNOPQRSTUVWXYZ''.
     lowerChar c = (case map_of (zip ''ABCDEFGHIJKLMNOPQRSTUVWXYZ'' ''abcdefghijklmnopqrstuvwxyz'') c of
                      None \<Rightarrow> c | Some l \<Rightarrow> l)"
  by code_simp

lemma lowerChar_table:
  "lowerChar c = (case map_of (zip ''ABCDEFGHIJKLMNOPQRSTUVWXYZ'' ''abcdefghijklmnopqrstuvwxyz'') c of
                    None \<Rightarrow> c | Some l \<Rightarrow> l)"
proof (cases "c \<in> set ''ABCDEFGHIJKLMNOPQRSTUVWXYZ''")
  case True
  then show ?thesis using upper_lowered by blast
next
  case False
  have "\<not> (65 \<le> (of_char c :: nat) \<and> (of_char c :: nat) \<le> 90)"
  proof
    assume r: "65 \<le> (of_char c :: nat) \<and> (of_char c :: nat) \<le> 90"
    then have "(of_char c :: nat) \<in> set [65..<91]" unfolding set_upt atLeastLessThan_iff by arith
    then have "char_of (of_char c :: nat) \<in> set (map char_of [65..<91::nat])"
      by (metis imageI set_map)
    then have "c \<in> set ''ABCDEFGHIJKLMNOPQRSTUVWXYZ''" unfolding upper_codes by simp
    with False show False by blast
  qed
  then have l: "lowerChar c = c" by (auto simp: lowerChar_def Let_def)
  have "map_of (zip ''ABCDEFGHIJKLMNOPQRSTUVWXYZ'' ''abcdefghijklmnopqrstuvwxyz'') c = None"
    using False by simp
  with l show ?thesis by simp
qed

lemma toLowerCase_table:
  "toLowerCase s =
     map (\<lambda>c. case map_of (zip ''ABCDEFGHIJKLMNOPQRSTUVWXYZ'' ''abcdefghijklmnopqrstuvwxyz'') c of
                 None \<Rightarrow> c | Some l \<Rightarrow> l) s"
  unfolding toLowerCase_def using lowerChar_table by (induction s) auto

text \<open>
  C6. The classification is a function of the caught value alone. Its message is the first
  truthy one of the top-level message, the nested error message and the JSON serialisation;
  its status code is the first truthy one of the top-level status, the nested response
  status and the nested error code. The value is transient exactly when the message, as a
  string with each of the letters A to Z replaced by its lower-case letter, contains one of
  the six markers, or the status code is the number 500 or 503. Every other value is
  terminal.
\<close>

theorem classification_markers_or_status:
  "isRetryable e \<longleftrightarrow>
     (let nestedMessage = (case err_nested e of None \<Rightarrow> JUndefined | Some (code, msg) \<Rightarrow> msg);
          nestedCode = (case err_nested e of None \<Rightarrow> JUndefined | Some (code, msg) \<Rightarrow> code);
          responseStatus = (case err_response e of None \<Rightarrow> JUndefined | Some st \<Rightarrow> st);
          message = (if truthy (err_message e) then err_message e
                     else if truthy nestedMessage then nestedMessage else err_json e);
          status = (if truthy (err_status e) then err_status e
                    else if truthy responseStatus then responseStatus else nestedCode);
          lowered = map (\<lambda>c. case map_of (zip ''ABCDEFGHIJKLMNOPQRSTUVWXYZ''
                                              ''abcdefghijklmnopqrstuvwxyz'') c of
                                 None \<Rightarrow> c | Some l \<Rightarrow> l)
                        (toString message)
      in (\<exists>m \<in> set [''429'', ''resource_exhausted'', ''quota'', ''internal'', ''overloaded'', ''server error''].
            \<exists>pre post. lowered = pre @ m @ post)
         \<or> status = JNum 500 \<or> status = JNum 503)"
proof -
  have "isRetryable e \<longleftrightarrow>
     (\<exists>m \<in> set [''429'', ''resource_exhausted'', ''quota'', ''internal'', ''overloaded'', ''server error''].
        \<exists>pre post. toLowerCase (toString (messageOf e)) = pre @ m @ post)
     \<or> statusOf e = JNum 500 \<or> statusOf e = JNum 503"
    by (simp add: isRetryable_def Let_def includes_str_iff del: includes_str.simps)
  then show ?thesis
    unfolding toLowerCase_table messageOf_def statusOf_def js_or_def Let_def by simp
qed

theorem classification_markers_or_status_witness:
  "isRetryable shoutedQuota \<and> isRetryable nestedOverloaded \<and> isRetryable serialisedRateLimit
   \<and> isRetryable numericMessage \<and> isRetryable responseUnavailable \<and> isRetryable nestedCode500
   \<and> \<not> isRetryable notFoundShadowing"
proof -
  note probe = classification_markers_or_status[folded toLowerCase_table, unfolded Let_def,
      folded includes_str_iff]
  have a: "isRetryable shoutedQuota"
    apply (subst probe)
    unfolding shoutedQuota_def apply code_simp
    done
  have b: "isRetryable nestedOverloaded"
    apply (subst probe)
    unfolding nestedOverloaded_def apply code_simp
    done
  have c: "isRetryable serialisedRateLimit"
    apply (subst probe)
    unfolding serialisedRateLimit_def apply code_simp
    done
  have d: "isRetryable responseUnavailable"
    apply (subst probe)
    unfolding responseUnavailable_def apply code_simp
    done
  have e: "isRetryable nestedCode500"
    apply (subst probe)
    unfolding nestedCode500_def apply code_simp
    done
  have f: "\<not> isRetryable notFoundShadowing"
    apply (subst probe)
    unfolding notFoundShadowing_def apply code_simp
    done
  have g: "isRetryable numericMessage"
    apply (subst probe)
    unfolding numericMessage_def apply code_simp
    done
  show ?thesis using a b c d e f g by simp
qed

text \<open>
  C1. A wrapped remote operation is attempted \<open>n + 1\<close> times for some \<open>n \<le> maxRetries\<close>
  (defaults 5 and 2000 ms): each of the first \<open>n\<close> attempts failed with a
  transient-classified error and was followed by a wait of \<open>initialDelay * 2 ^ k\<close> before
  attempt \<open>k + 1\<close>; the executor stops on a transient error only when \<open>n = maxRetries\<close>;
  a terminal-classified error at the last attempt is returned as it is, with no wait and no
  further attempt; a response is returned as it is.
\<close>

theorem withRetry_bounded_backoff:
  "defaultMaxRetries = 5 \<and> defaultInitialDelay = 2000 \<and>
   (\<exists>n \<le> maxRetries.
      snd (withRetry (generateContent env req) maxRetries initialDelay s) =
        s\<lparr>attempts := attempts s + n + 1,
          log := log s @ concat (map (\<lambda>k. [Generate req, Sleep (initialDelay * 2 ^ k)]) [0..<n])
                 @ [Generate req]\<rparr>
    \<and> (\<forall>k<n. \<exists>e. ai env (attempts s + k) = Inl e \<and> isRetryable e)
    \<and> (\<forall>e. ai env (attempts s + n) = Inl e \<and> isRetryable e \<longrightarrow> n = maxRetries)
    \<and> (\<forall>e. ai env (attempts s + n) = Inl e \<and> \<not> isRetryable e \<longrightarrow>
           fst (withRetry (generateContent env req) maxRetries initialDelay s) = Inl e)
    \<and> (\<forall>v. ai env (attempts s + n) = Inr v \<longrightarrow>
           fst (withRetry (generateContent env req) maxRetries initialDelay s) = Inr v))"
proof -
  from retryLoop_generate[of 0 maxRetries env req initialDelay s]
  obtain n where n: "n \<le> maxRetries"
    "snd (retryLoop (generateContent env req) maxRetries 0 initialDelay s) =
       s\<lparr>attempts := attempts s + n + 1, log := log s @ retryTrace req initialDelay n\<rparr>"
    "\<forall>k<n. \<exists>e. ai env (attempts s + k) = Inl e \<and> isRetryable e"
    "fst (retryLoop (generateContent env req) maxRetries 0 initialDelay s) =
         (case ai env (attempts s + n) of
            Inr v \<Rightarrow> Inr v
          | Inl e \<Rightarrow> if isRetryable e then Inl (newError (busyMessage (statusOf e))) else Inl e)"
    "\<forall>e. ai env (attempts s + n) = Inl e \<and> isRetryable e \<longrightarrow> n = maxRetries"
    by auto
  have a: "snd (withRetry (generateContent env req) maxRetries initialDelay s) =
        s\<lparr>attempts := attempts s + n + 1,
          log := log s @ concat (map (\<lambda>k. [Generate req, Sleep (initialDelay * 2 ^ k)]) [0..<n])
                 @ [Generate req]\<rparr>"
    using n(2) by (simp add: withRetry_def retryTrace_def)
  have b: "\<forall>e. ai env (attempts s + n) = Inl e \<and> \<not> isRetryable e \<longrightarrow>
           fst (withRetry (generateContent env req) maxRetries initialDelay s) = Inl e"
    using n(4) by (simp add: withRetry_def)
  have c: "\<forall>v. ai env (attempts s + n) = Inr v \<longrightarrow>
           fst (withRetry (generateContent env req) maxRetries initialDelay s) = Inr v"
    using n(4) by (simp add: withRetry_def)
  show ?thesis using n(1) n(3) n(5) a b c
    by (simp add: defaultMaxRetries_def defaultInitialDelay_def) blast
qed

theorem withRetry_bounded_backoff_witness:
  "withRetry (generateContent flakyEnv (ListingCopyRequest exampleConcept)) 5 2000 exampleState =
     (Inr exampleResponse,
      exampleState\<lparr>attempts := 3,
        log := [Generate (ListingCopyRequest exampleConcept), Sleep 2000,
                Generate (ListingCopyRequest exampleConcept), Sleep 4000,
                Generate (ListingCopyRequest exampleConcept)]\<rparr>)"
proof -
  let ?req = "ListingCopyRequest exampleConcept"
  let ?run = "withRetry (generateContent flakyEnv ?req) 5 2000 exampleState"
  have r: "isRetryable rateLimited" unfolding rateLimited_def by code_simp
  have a0: "attempts exampleState = 0" and l0: "log exampleState = []"
    by (simp_all add: exampleState_def)
  from withRetry_bounded_backoff[of 5 flakyEnv ?req 2000 exampleState]
  obtain n where n: "n \<le> 5"
    "snd ?run = exampleState\<lparr>attempts := attempts exampleState + n + 1,
          log := log exampleState @ concat (map (\<lambda>k. [Generate ?req, Sleep (2000 * 2 ^ k)]) [0..<n])
                 @ [Generate ?req]\<rparr>"
    "\<forall>k<n. \<exists>e. ai flakyEnv (attempts exampleState + k) = Inl e \<and> isRetryable e"
    "\<forall>e. ai flakyEnv (attempts exampleState + n) = Inl e \<and> isRetryable e \<longrightarrow> n = 5"
    "\<forall>v. ai flakyEnv (attempts exampleState + n) = Inr v \<longrightarrow> fst ?run = Inr v"
    by blast
  have "\<not> 2 < n"
  proof
    assume "2 < n"
    with n(3) obtain e where "ai flakyEnv (attempts exampleState + 2) = Inl e" by blast
    then show False by (simp add: flakyEnv_def a0)
  qed
  moreover have "\<not> n < 2"
  proof
    assume "n < 2"
    then have "ai flakyEnv (attempts exampleState + n) = Inl rateLimited"
      by (simp add: flakyEnv_def a0)
    with n(4) r have "n = 5" by blast
    with \<open>n < 2\<close> show False by simp
  qed
  ultimately have n2: "n = 2" by simp
  have "ai flakyEnv (attempts exampleState + n) = Inr exampleResponse"
    by (simp add: n2 flakyEnv_def a0)
  with n(5) have f: "fst ?run = Inr exampleResponse" by blast
  have u: "[0..<2] = [0, 1]" by (simp add: upt_rec)
  have s: "snd ?run = exampleState\<lparr>attempts := 3,
        log := [Generate ?req, Sleep 2000, Generate ?req, Sleep 4000, Generate ?req]\<rparr>"
    using n(2) by (simp add: n2 a0 l0 u)
  show ?thesis using f s by (simp add: prod_eq_iff)
qed

lemma withRetry_exhausted:
  assumes "\<forall>k \<le> m. \<exists>e. ai env (attempts s + k) = Inl e \<and> isRetryable e"
    and "ai env (attempts s + m) = Inl e"
  shows "withRetry (generateContent env req) m d s =
           (Inl (newError (busyMessage (statusOf e))),
            s\<lparr>attempts := attempts s + m + 1, log := log s @ retryTrace req d m\<rparr>)"
proof -
  from retryLoop_generate[of 0 m env req d s]
  obtain n where n: "n \<le> m"
    "snd (retryLoop (generateContent env req) m 0 d s) =
       s\<lparr>attempts := attempts s + n + 1, log := log s @ retryTrace req d n\<rparr>"
    "fst (retryLoop (generateContent env req) m 0 d s) =
         (case ai env (attempts s + n) of
            Inr v \<Rightarrow> Inr v
          | Inl e \<Rightarrow> if isRetryable e then Inl (newError (busyMessage (statusOf e))) else Inl e)"
    "\<forall>e. ai env (attempts s + n) = Inl e \<and> isRetryable e \<longrightarrow> n = m"
    by auto
  from assms(1) n(1) obtain e' where "ai env (attempts s + n) = Inl e'" "isRetryable e'" by blast
  with n(4) have nm: "n = m" by blast
  have "isRetryable e" using assms by auto
  then have "fst (retryLoop (generateContent env req) m 0 d s) = Inl (newError (busyMessage (statusOf e)))"
    using n(3) assms(2) nm by simp
  then show ?thesis using n(2) nm by (simp add: withRetry_def prod_eq_iff)
qed

text \<open>
  C7 (as amended). When every attempt, the first and the \<open>maxRetries\<close> retries, fails with a
  transient-classified error, the executor fails with a new error whose message is
  ``The AI service is temporarily busy (Error <status>). Please try again shortly.'', where
  <status> is the status code probed from the last failure: the message text of the
  underlying failure is hidden, its status code is shown.
\<close>

theorem busy_error_on_exhaustion:
  assumes "\<forall>k \<le> maxRetries. \<exists>e. ai env (attempts s + k) = Inl e \<and> isRetryable e"
    and "ai env (attempts s + maxRetries) = Inl e"
  shows "fst (withRetry (generateContent env req) maxRetries initialDelay s) =
           Inl (newError (''The AI service is temporarily busy (Error '' @ toString (statusOf e) @
                          ''). Please try again shortly.''))
         \<and> attempts (snd (withRetry (generateContent env req) maxRetries initialDelay s)) =
             attempts s + maxRetries + 1"
  using withRetry_exhausted[OF assms, of req initialDelay] by (simp add: busyMessage_def)

theorem busy_error_on_exhaustion_witness:
  "fst (withRetry (generateContent downEnv (ListingCopyRequest exampleConcept)) 5 2000 exampleState) =
     Inl (newError ''The AI service is temporarily busy (Error 503). Please try again shortly.'')
   \<and> attempts (snd (withRetry (generateContent downEnv (ListingCopyRequest exampleConcept)) 5 2000
                      exampleState)) = 6"
proof -
  have r: "isRetryable unavailable" unfolding unavailable_def by code_simp
  have st: "toString (statusOf unavailable) = ''503''" unfolding unavailable_def by code_simp
  have h1: "\<forall>k \<le> 5. \<exists>e. ai downEnv (attempts exampleState + k) = Inl e \<and> isRetryable e"
    using r by (simp add: downEnv_def)
  have h2: "ai downEnv (attempts exampleState + 5) = Inl unavailable"
    by (simp add: downEnv_def)
  show ?thesis
    using busy_error_on_exhaustion[OF h1 h2, of "ListingCopyRequest exampleConcept" 2000]
    by (simp add: st exampleState_def)
qed

text \<open>
  C7 as stated fails: with a collaborator that always answers 503, the error raised after
  the retries are exhausted carries the status code 503 of the underlying failure in its
  message.
\<close>

theorem busy_error_counterexample:
  "isRetryable unavailable \<and> statusOf unavailable = JNum 503 \<and>
   fst (withRetry (generateContent downEnv (ListingCopyRequest exampleConcept))
          defaultMaxRetries defaultInitialDelay exampleState) =
     Inl (newError ''The AI service is temporarily busy (Error 503). Please try again shortly.'') \<and>
   includes_str ''The AI service is temporarily busy (Error 503). Please try again shortly.''
     (toString (statusOf unavailable))"
proof -
  have r: "isRetryable unavailable" unfolding unavailable_def by code_simp
  have st: "statusOf unavailable = JNum 503" unfolding unavailable_def by code_simp
  have msg: "busyMessage (JNum 503) =
      ''The AI service is temporarily busy (Error 503). Please try again shortly.''"
    by code_simp
  have inc: "includes_str ''The AI service is temporarily busy (Error 503). Please try again shortly.''
     (toString (JNum 503))"
    by code_simp
  have h1: "\<forall>k \<le> defaultMaxRetries. \<exists>e. ai downEnv (attempts exampleState + k) = Inl e \<and> isRetryable e"
    using r by (simp add: downEnv_def)
  have h2: "ai downEnv (attempts exampleState + defaultMaxRetries) = Inl unavailable"
    by (simp add: downEnv_def)
  show ?thesis
    using withRetry_exhausted[OF h1 h2, of "ListingCopyRequest exampleConcept" defaultInitialDelay]
      r st msg inc
    by simp
qed

section \<open>Properties of the listing copy, the data URL and the publish stage\<close>

lemma withRetry_frame:
  "\<exists>n \<le> m. snd (withRetry (generateContent env req) m d s) =
            s\<lparr>attempts := attempts s + n + 1, log := log s @ retryTrace req d n\<rparr>"
  using retryLoop_generate[of 0 m env req d s] by (auto simp: withRetry_def)


lemma retryTrace_has_request: "Generate req \<in> set (retryTrace req d n)"
  by (simp add: retryTrace_def)


lemma listingCopy_state:
  "\<exists>n \<le> defaultMaxRetries. snd (generateListingCopy env c s) =
      s\<lparr>attempts := attempts s + n + 1, log := log s @ retryTrace (ListingCopyRequest c) defaultInitialDelay n\<rparr>"
proof -
  have "snd (generateListingCopy env c s) =
        snd (withRetry (generateContent env (ListingCopyRequest c)) defaultMaxRetries defaultInitialDelay s)"
    by (simp add: generateListingCopy_def split: prod.splits sum.splits option.splits)
  then show ?thesis using withRetry_frame[of defaultMaxRetries env "ListingCopyRequest c" defaultInitialDelay s]
    by simp
qed


text \<open>
  C8. Whatever the response text parses to is what the Listing Copy Stage returns, with the
  state the wrapped call left: no length or count is checked, so a copy with a title of
  more than 140 characters, a tag count other than 13 or a tag of more than 20 characters
  is returned unchanged.
\<close>

theorem listing_copy_passed_through:
  assumes "withRetry (generateContent env (ListingCopyRequest c)) defaultMaxRetries defaultInitialDelay s
             = (Inr resp, s1)"
    and "resp_text resp = Some t"
    and "parseJson env (trim t) = Inr copy"
  shows "generateListingCopy env c s = (Inr copy, s1)"
  using assms by (simp add: generateListingCopy_def)


lemma splitOn_unfold:
  "splitOn c s = takeWhile (\<lambda>x. x \<noteq> c) s #
     (case dropWhile (\<lambda>x. x \<noteq> c) s of [] \<Rightarrow> [] | y # r \<Rightarrow> splitOn c r)"
proof (induction s)
  case Nil
  then show ?case by simp
next
  case (Cons a s)
  show ?case
  proof (cases "a = c")
    case True
    then show ?thesis by simp
  next
    case False
    then show ?thesis using Cons.IH by simp
  qed
qed


lemma base64ToPart_cases:
  "base64ToPart url = Inl invalidDataUrl \<or>
   (\<exists>header dat rest. header \<noteq> [] \<and> dat \<noteq> [] \<and> CHR '','' \<notin> set header \<and> CHR '','' \<notin> set dat \<and>
      (url = header @ '','' @ dat \<or> url = header @ '','' @ dat @ '','' @ rest))"
proof (cases "base64ToPart url")
  case (Inl e)
  then have "e = invalidDataUrl"
    by (auto simp: base64ToPart_def Let_def split: list.splits if_splits option.splits)
  with Inl show ?thesis by simp
next
  case (Inr p)
  let ?ne = "\<lambda>x. x \<noteq> CHR '',''"
  let ?h = "takeWhile ?ne url"
  obtain y r where dw: "dropWhile ?ne url = y # r"
    using Inr by (subst (asm) base64ToPart_def, subst (asm) splitOn_unfold)
       (auto simp: Let_def split: list.splits)
  then have y: "y = CHR '',''" using hd_dropWhile[of ?ne url] by auto
  let ?d = "takeWhile ?ne r"
  have sp: "splitOn CHR '','' url = ?h # ?d # (case dropWhile ?ne r of [] \<Rightarrow> [] | y # r' \<Rightarrow> splitOn CHR '','' r')"
    by (subst splitOn_unfold, simp add: dw, subst splitOn_unfold, simp)
  have hne: "?h \<noteq> []" and dne: "?d \<noteq> []"
    using Inr by (auto simp: base64ToPart_def sp Let_def split: if_splits)
  have url: "url = ?h @ '','' @ r" using takeWhile_dropWhile_id[of ?ne url] dw y by simp
  have r: "r = ?d @ dropWhile ?ne r" by simp
  have nh: "CHR '','' \<notin> set ?h" using set_takeWhileD by fastforce
  have nd: "CHR '','' \<notin> set ?d" using set_takeWhileD by fastforce
  show ?thesis
  proof (cases "dropWhile ?ne r")
    case Nil
    then have "url = ?h @ '','' @ ?d" using url r by (metis append_Nil2)
    then show ?thesis using hne dne nh nd by blast
  next
    case (Cons z rest)
    then have "z = CHR '',''" using hd_dropWhile[of ?ne r] by auto
    then have "url = ?h @ '','' @ ?d @ '','' @ rest" using url r Cons by (metis append_Cons append_Nil)
    then show ?thesis using hne dne nh nd by blast
  qed
qed


text \<open>
  C10 (as amended). A design URL that is not a non-empty header, a comma and non-empty data
  (up to the next comma, if any) makes the finalisation of that design fail, and only after
  the listing-copy request has been sent at least once. When the listing copy was obtained,
  the failure is the ``Invalid base64 data URL format.'' error, raised after the second
  progress report and before any mockup request; when the listing-copy stage fails, the
  failure is that stage's error and the URL is never examined.
\<close>

theorem invalid_url_fails_after_copy:
  assumes "\<not> (\<exists>header dat rest. header \<noteq> [] \<and> dat \<noteq> [] \<and> CHR '','' \<notin> set header \<and> CHR '','' \<notin> set dat \<and>
      (url = header @ '','' @ dat \<or> url = header @ '','' @ dat @ '','' @ rest))"
  shows "(\<exists>e. fst (generateFinalAssets env url c hol pt onProgress s) = Inl e)
       \<and> (\<forall>copy s1. generateListingCopy env c (report onProgress 0 13 s) = (Inr copy, s1) \<longrightarrow>
            generateFinalAssets env url c hol pt onProgress s =
              (Inl (newError ''Invalid base64 data URL format.''), report onProgress 1 13 s1)
            \<and> attempts (report onProgress 0 13 s) < attempts s1
            \<and> Generate (ListingCopyRequest c) \<in> set (log s1))
       \<and> (\<forall>e s1. generateListingCopy env c (report onProgress 0 13 s) = (Inl e, s1) \<longrightarrow>
            generateFinalAssets env url c hol pt onProgress s = (Inl e, s1)
            \<and> attempts (report onProgress 0 13 s) < attempts s1
            \<and> Generate (ListingCopyRequest c) \<in> set (log s1))"
proof -
  have b: "base64ToPart url = Inl invalidDataUrl" using assms(1) base64ToPart_cases[of url] by blast
  have len: "length (getMockupPrompts pt c hol) = 12"
    by (simp add: getMockupPrompts_def basePrompts_def Let_def)
  have fails: "\<exists>e. fst (generateFinalAssets env url c hol pt onProgress s) = Inl e"
    using b by (simp add: generateFinalAssets_def Let_def len split: prod.splits sum.splits)
  have sent: "attempts (report onProgress 0 13 s) < attempts s1
            \<and> Generate (ListingCopyRequest c) \<in> set (log s1)"
    if ok: "generateListingCopy env c (report onProgress 0 13 s) = (r, s1)" for r s1
  proof -
    from listingCopy_state[of env c "report onProgress 0 13 s"] ok
    obtain n where "s1 = (report onProgress 0 13 s)\<lparr>attempts := attempts (report onProgress 0 13 s) + n + 1,
       log := log (report onProgress 0 13 s) @ retryTrace (ListingCopyRequest c) defaultInitialDelay n\<rparr>"
      by auto
    then show ?thesis using retryTrace_has_request by simp
  qed
  have after: "generateFinalAssets env url c hol pt onProgress s =
              (Inl (newError ''Invalid base64 data URL format.''), report onProgress 1 13 s1)
            \<and> attempts (report onProgress 0 13 s) < attempts s1
            \<and> Generate (ListingCopyRequest c) \<in> set (log s1)"
    if ok: "generateListingCopy env c (report onProgress 0 13 s) = (Inr copy, s1)" for copy s1
  proof -
    have r: "generateFinalAssets env url c hol pt onProgress s =
           (Inl (newError ''Invalid base64 data URL format.''), report onProgress 1 13 s1)"
      using ok b by (simp add: generateFinalAssets_def Let_def len invalidDataUrl_def)
    with sent[OF ok] show ?thesis by simp
  qed
  have before: "generateFinalAssets env url c hol pt onProgress s = (Inl e, s1)
            \<and> attempts (report onProgress 0 13 s) < attempts s1
            \<and> Generate (ListingCopyRequest c) \<in> set (log s1)"
    if ko: "generateListingCopy env c (report onProgress 0 13 s) = (Inl e, s1)" for e s1
  proof -
    have r: "generateFinalAssets env url c hol pt onProgress s = (Inl e, s1)"
      using ko by (simp add: generateFinalAssets_def Let_def len)
    with sent[OF ko] show ?thesis by simp
  qed
  show ?thesis using fails after before by blast
qed

lemma getPrintifyShop_state:
  "snd (getPrintifyShop env token s) = s\<lparr>fetches := fetches s + 1, log := log s @ [Fetch (GetShops token)]\<rparr>"
  by (simp add: getPrintifyShop_def doFetch_def split: sum.splits list.splits)


lemma uploadImageToPrintify_state:
  "snd (uploadImageToPrintify env token img name s) =
     s\<lparr>fetches := fetches s + 1, log := log s @ [Fetch (UploadImage token name (stripDataPrefix img))]\<rparr>"
  by (simp add: uploadImageToPrintify_def doFetch_def Let_def split: sum.splits)


lemma createPrintifyProduct_state:
  "snd (createPrintifyProduct env token shopId pt imageId copy s) =
     s\<lparr>fetches := fetches s + 1,
       log := log s @ [Fetch (CreateProduct token shopId (productPayload pt imageId copy))]\<rparr>"
  by (simp add: createPrintifyProduct_def doFetch_def Let_def split: sum.splits)


lemma handleApiError_frame:
  "handleApiError e s = s\<lparr>error := error (handleApiError e s), isLoading := False\<rparr>"
  "error (handleApiError e s) \<noteq> None"
  by (simp_all add: handleApiError_def Let_def)


lemma getPrintifyShop_result:
  "fetches s = fetches s' \<Longrightarrow> fst (getPrintifyShop env token s) = fst (getPrintifyShop env token s')"
  by (simp add: getPrintifyShop_def doFetch_def split: sum.splits list.splits)

lemma uploadImageToPrintify_result:
  "fetches s = fetches s' \<Longrightarrow>
   fst (uploadImageToPrintify env token img name s) = fst (uploadImageToPrintify env token img name s')"
  by (simp add: uploadImageToPrintify_def doFetch_def Let_def split: sum.splits)

lemma createPrintifyProduct_result:
  "fetches s = fetches s' \<Longrightarrow>
   fst (createPrintifyProduct env token shopId pt imageId copy s) =
   fst (createPrintifyProduct env token shopId pt imageId copy s')"
  by (simp add: createPrintifyProduct_def doFetch_def Let_def split: sum.splits)

text \<open>
  C5 (as amended). The publish stage issues its three calls directly, each at most once and
  in the order shop, upload, create, with no wait in between, and the first call that fails
  ends the publish with that call's error. The outcome of a call depends on the state only
  through the number of fetches made so far, so the three outcomes are read at the session
  state with that number advanced. If the shop call fails, the publish ends after one
  fetch with that error; if the upload fails, after two; if the creation fails, after
  three; only when all three return is the product marked and the success message set. In
  every case the final state is the initial one with exactly the fetches, log entries and
  messages listed.
\<close>

theorem publish_calls_issued_once:
  assumes "printifyToken s \<noteq> []"
  shows "(\<forall>e. fst (getPrintifyShop env (printifyToken s) s) = Inl e \<longrightarrow>
            handlePrintifyPublish env product s =
              s\<lparr>fetches := fetches s + 1,
                log := log s @ [Fetch (GetShops (printifyToken s))],
                loadingMessage := ''Connecting to Printify...'',
                error := Some (if instanceOfError e then toString (err_message e) else err_string e),
                successMessage := None, isLoading := False\<rparr>)
       \<and> (\<forall>shop e.
            fst (getPrintifyShop env (printifyToken s) s) = Inr shop
          \<and> fst (uploadImageToPrintify env (printifyToken s) (designUrl product)
                   (safeFileName (conceptTitle (concept product))) (s\<lparr>fetches := fetches s + 1\<rparr>)) = Inl e \<longrightarrow>
            handlePrintifyPublish env product s =
              s\<lparr>fetches := fetches s + 2,
                log := log s @ [Fetch (GetShops (printifyToken s)),
                                Fetch (UploadImage (printifyToken s)
                                         (safeFileName (conceptTitle (concept product)))
                                         (stripDataPrefix (designUrl product)))],
                loadingMessage := ''Uploading design to Printify Media Library...'',
                error := Some (if instanceOfError e then toString (err_message e) else err_string e),
                successMessage := None, isLoading := False\<rparr>)
       \<and> (\<forall>shop imageId e.
            fst (getPrintifyShop env (printifyToken s) s) = Inr shop
          \<and> fst (uploadImageToPrintify env (printifyToken s) (designUrl product)
                   (safeFileName (conceptTitle (concept product))) (s\<lparr>fetches := fetches s + 1\<rparr>)) = Inr imageId
          \<and> fst (createPrintifyProduct env (printifyToken s) (shop_id shop) (productType product) imageId
                   (listingCopy product) (s\<lparr>fetches := fetches s + 2\<rparr>)) = Inl e \<longrightarrow>
            handlePrintifyPublish env product s =
              s\<lparr>fetches := fetches s + 3,
                log := log s @ [Fetch (GetShops (printifyToken s)),
                                Fetch (UploadImage (printifyToken s)
                                         (safeFileName (conceptTitle (concept product)))
                                         (stripDataPrefix (designUrl product))),
                                Fetch (CreateProduct (printifyToken s) (shop_id shop)
                                         (productPayload (productType product) imageId (listingCopy product)))],
                loadingMessage := ''Creating '' @ productTypeName (productType product) @ '' listing...'',
                error := Some (if instanceOfError e then toString (err_message e) else err_string e),
                successMessage := None, isLoading := False\<rparr>)
       \<and> (\<forall>shop imageId created.
            fst (getPrintifyShop env (printifyToken s) s) = Inr shop
          \<and> fst (uploadImageToPrintify env (printifyToken s) (designUrl product)
                   (safeFileName (conceptTitle (concept product))) (s\<lparr>fetches := fetches s + 1\<rparr>)) = Inr imageId
          \<and> fst (createPrintifyProduct env (printifyToken s) (shop_id shop) (productType product) imageId
                   (listingCopy product) (s\<lparr>fetches := fetches s + 2\<rparr>)) = Inr created \<longrightarrow>
            handlePrintifyPublish env product s =
              s\<lparr>fetches := fetches s + 3,
                log := log s @ [Fetch (GetShops (printifyToken s)),
                                Fetch (UploadImage (printifyToken s)
                                         (safeFileName (conceptTitle (concept product)))
                                         (stripDataPrefix (designUrl product))),
                                Fetch (CreateProduct (printifyToken s) (shop_id shop)
                                         (productPayload (productType product) imageId (listingCopy product)))],
                loadingMessage := ''Creating '' @ productTypeName (productType product) @ '' listing...'',
                error := None,
                successMessage := Some (''Successfully created '' @ [CHR 0x22] @ product_title created @
                                        [CHR 0x22] @ '' in Printify!''),
                finalizedProducts := markPublished product (product_id created) (finalizedProducts s),
                isLoading := False\<rparr>)"
proof -
  let ?tok = "printifyToken s"
  let ?s1 = "s\<lparr>isLoading := True, loadingMessage := ''Connecting to Printify...'',
                     error := None, successMessage := None\<rparr>"
  let ?name = "safeFileName (conceptTitle (concept product))"
  obtain r1 s2 where g: "getPrintifyShop env ?tok ?s1 = (r1, s2)" by (cases "getPrintifyShop env ?tok ?s1")
  have s2: "s2 = ?s1\<lparr>fetches := fetches s + 1, log := log s @ [Fetch (GetShops ?tok)]\<rparr>"
    using getPrintifyShop_state[of env ?tok ?s1] g by simp
  have r1: "fst (getPrintifyShop env ?tok s) = r1"
    using getPrintifyShop_result[of s ?s1 env ?tok] g by simp
  let ?s3 = "s2\<lparr>loadingMessage := ''Uploading design to Printify Media Library...''\<rparr>"
  obtain r2 s4 where u: "uploadImageToPrintify env ?tok (designUrl product) ?name ?s3 = (r2, s4)"
    by (cases "uploadImageToPrintify env ?tok (designUrl product) ?name ?s3")
  have s4: "s4 = ?s3\<lparr>fetches := fetches s + 2,
       log := log s @ [Fetch (GetShops ?tok), Fetch (UploadImage ?tok ?name (stripDataPrefix (designUrl product)))]\<rparr>"
    using uploadImageToPrintify_state[of env ?tok "designUrl product" ?name ?s3] u by (simp add: s2)
  have r2: "fst (uploadImageToPrintify env ?tok (designUrl product) ?name (s\<lparr>fetches := fetches s + 1\<rparr>)) = r2"
    using uploadImageToPrintify_result[of "s\<lparr>fetches := fetches s + 1\<rparr>" ?s3 env ?tok "designUrl product" ?name] u
    by (simp add: s2)
  let ?s5 = "s4\<lparr>loadingMessage := ''Creating '' @ productTypeName (productType product) @ '' listing...''\<rparr>"
  have A: "handlePrintifyPublish env product s =
              s\<lparr>fetches := fetches s + 1,
                log := log s @ [Fetch (GetShops (printifyToken s))],
                loadingMessage := ''Connecting to Printify...'',
                error := Some (if instanceOfError e then toString (err_message e) else err_string e),
                successMessage := None, isLoading := False\<rparr>"
    if "r1 = Inl e" for e
    using that assms g
    by (simp add: handlePrintifyPublish_def Let_def publishFailed_def handleApiError_def s2)
  have B: "handlePrintifyPublish env product s =
              s\<lparr>fetches := fetches s + 2,
                log := log s @ [Fetch (GetShops ?tok), Fetch (UploadImage ?tok ?name (stripDataPrefix (designUrl product)))],
                loadingMessage := ''Uploading design to Printify Media Library...'',
                error := Some (if instanceOfError e then toString (err_message e) else err_string e),
                successMessage := None, isLoading := False\<rparr>"
    if "r1 = Inr shop" "r2 = Inl e" for shop e
    using that assms g u
    by (simp add: handlePrintifyPublish_def Let_def publishFailed_def handleApiError_def s4 s2)
  have CD: "(\<forall>e. fst (createPrintifyProduct env ?tok (shop_id shop) (productType product) imageId
                   (listingCopy product) (s\<lparr>fetches := fetches s + 2\<rparr>)) = Inl e \<longrightarrow>
            handlePrintifyPublish env product s =
              s\<lparr>fetches := fetches s + 3,
                log := log s @ [Fetch (GetShops ?tok), Fetch (UploadImage ?tok ?name (stripDataPrefix (designUrl product))),
                                Fetch (CreateProduct ?tok (shop_id shop)
                                         (productPayload (productType product) imageId (listingCopy product)))],
                loadingMessage := ''Creating '' @ productTypeName (productType product) @ '' listing...'',
                error := Some (if instanceOfError e then toString (err_message e) else err_string e),
                successMessage := None, isLoading := False\<rparr>)
        \<and> (\<forall>created. fst (createPrintifyProduct env ?tok (shop_id shop) (productType product) imageId
                   (listingCopy product) (s\<lparr>fetches := fetches s + 2\<rparr>)) = Inr created \<longrightarrow>
            handlePrintifyPublish env product s =
              s\<lparr>fetches := fetches s + 3,
                log := log s @ [Fetch (GetShops ?tok), Fetch (UploadImage ?tok ?name (stripDataPrefix (designUrl product))),
                                Fetch (CreateProduct ?tok (shop_id shop)
                                         (productPayload (productType product) imageId (listingCopy product)))],
                loadingMessage := ''Creating '' @ productTypeName (productType product) @ '' listing...'',
                error := None,
                successMessage := Some (''Successfully created '' @ [CHR 0x22] @ product_title created @
                                        [CHR 0x22] @ '' in Printify!''),
                finalizedProducts := markPublished product (product_id created) (finalizedProducts s),
                isLoading := False\<rparr>)"
    if sh: "r1 = Inr shop" and im: "r2 = Inr imageId" for shop imageId
  proof -
    obtain r3 s6 where c: "createPrintifyProduct env ?tok (shop_id shop) (productType product) imageId
                             (listingCopy product) ?s5 = (r3, s6)"
      by (cases "createPrintifyProduct env ?tok (shop_id shop) (productType product) imageId (listingCopy product) ?s5")
    define payload where "payload = productPayload (productType product) imageId (listingCopy product)"
    have s6: "s6 = ?s5\<lparr>fetches := fetches s + 3,
       log := log s @ [Fetch (GetShops ?tok), Fetch (UploadImage ?tok ?name (stripDataPrefix (designUrl product))),
                       Fetch (CreateProduct ?tok (shop_id shop) payload)]\<rparr>"
      using createPrintifyProduct_state[of env ?tok "shop_id shop" "productType product" imageId "listingCopy product" ?s5] c
      by (simp add: s4 s2 payload_def)
    have r3: "fst (createPrintifyProduct env ?tok (shop_id shop) (productType product) imageId
                   (listingCopy product) (s\<lparr>fetches := fetches s + 2\<rparr>)) = r3"
      using createPrintifyProduct_result[of "s\<lparr>fetches := fetches s + 2\<rparr>" ?s5 env ?tok "shop_id shop"
              "productType product" imageId "listingCopy product"] c
      by (simp add: s4)
    have hp: "handlePrintifyPublish env product s =
       (case r3 of Inl e \<Rightarrow> publishFailed e s6
        | Inr pp \<Rightarrow> (s6\<lparr>successMessage := Some (''Successfully created '' @ [CHR 0x22] @ product_title pp @ [CHR 0x22] @ '' in Printify!''),
               finalizedProducts := markPublished product (product_id pp) (finalizedProducts s6)\<rparr>)\<lparr>isLoading := False\<rparr>)"
      using assms g u c sh im by (simp add: handlePrintifyPublish_def Let_def split: sum.splits)
    show ?thesis
      unfolding r3 hp
      by (cases r3) (simp_all add: publishFailed_def handleApiError_def Let_def s6 s4 s2 payload_def)
  qed
  show ?thesis
    unfolding r1 r2 using A B CD by blast
qed


lemma createPrintifyProduct_ok:
  assumes "createPrintifyProduct env token shopId pt imageId copy s = (Inr pp, s1)"
  shows "\<exists>resp body. fetchApi env (fetches s) = Inr resp \<and> ok resp \<and> json_body resp = Inr body
           \<and> pp = body_product body"
  using assms
  by (auto simp: createPrintifyProduct_def doFetch_def Let_def split: sum.splits if_splits)


lemma publish_success_state:
  assumes "printifyToken s \<noteq> []"
    and "successMessage (handlePrintifyPublish env product s) \<noteq> None"
  shows "\<exists>resp body. fetchApi env (fetches s + 2) = Inr resp \<and> ok resp \<and> json_body resp = Inr body
           \<and> finalizedProducts (handlePrintifyPublish env product s) =
               markPublished product (product_id (body_product body)) (finalizedProducts s)"
proof -
  let ?tok = "printifyToken s"
  let ?s1 = "s\<lparr>isLoading := True, loadingMessage := ''Connecting to Printify...'',
                     error := None, successMessage := None\<rparr>"
  let ?name = "safeFileName (conceptTitle (concept product))"
  obtain r1 s2 where g: "getPrintifyShop env ?tok ?s1 = (r1, s2)" by (cases "getPrintifyShop env ?tok ?s1")
  have s2: "s2 = ?s1\<lparr>fetches := fetches s + 1, log := log s @ [Fetch (GetShops ?tok)]\<rparr>"
    using getPrintifyShop_state[of env ?tok ?s1] g by simp
  show ?thesis
  proof (cases r1)
    case (Inl e)
    then have "handlePrintifyPublish env product s = publishFailed e s2"
      using assms g by (simp add: handlePrintifyPublish_def Let_def)
    then show ?thesis using assms(2)
      by (simp add: publishFailed_def handleApiError_def Let_def s2)
  next
    case (Inr shop)
    let ?s3 = "s2\<lparr>loadingMessage := ''Uploading design to Printify Media Library...''\<rparr>"
    obtain r2 s4 where u: "uploadImageToPrintify env ?tok (designUrl product) ?name ?s3 = (r2, s4)"
      by (cases "uploadImageToPrintify env ?tok (designUrl product) ?name ?s3")
    have s4: "s4 = ?s3\<lparr>fetches := fetches s + 2,
         log := log s @ [Fetch (GetShops ?tok), Fetch (UploadImage ?tok ?name (stripDataPrefix (designUrl product)))]\<rparr>"
      using uploadImageToPrintify_state[of env ?tok "designUrl product" ?name ?s3] u by (simp add: s2)
    show ?thesis
    proof (cases r2)
      case (Inl e)
      then have "handlePrintifyPublish env product s = publishFailed e s4"
        using assms g u Inr by (simp add: handlePrintifyPublish_def Let_def)
      then show ?thesis using assms(2)
        by (simp add: publishFailed_def handleApiError_def Let_def s4 s2)
    next
      case (Inr imageId)
      note img = Inr
      let ?s5 = "s4\<lparr>loadingMessage := ''Creating '' @ productTypeName (productType product) @ '' listing...''\<rparr>"
      obtain r3 s6 where c: "createPrintifyProduct env ?tok (shop_id shop) (productType product) imageId
                               (listingCopy product) ?s5 = (r3, s6)"
        by (cases "createPrintifyProduct env ?tok (shop_id shop) (productType product) imageId (listingCopy product) ?s5")
      define payload where "payload = productPayload (productType product) imageId (listingCopy product)"
      have s6: "s6 = ?s5\<lparr>fetches := fetches s + 3,
         log := log s @ [Fetch (GetShops ?tok), Fetch (UploadImage ?tok ?name (stripDataPrefix (designUrl product))),
                         Fetch (CreateProduct ?tok (shop_id shop) payload)]\<rparr>"
        using createPrintifyProduct_state[of env ?tok "shop_id shop" "productType product" imageId "listingCopy product" ?s5] c
        by (simp add: s4 s2 payload_def)
      show ?thesis
      proof (cases r3)
        case (Inl e)
        then have "handlePrintifyPublish env product s = publishFailed e s6"
          using assms g u c \<open>r1 = Inr shop\<close> img by (simp add: handlePrintifyPublish_def Let_def)
        then show ?thesis using assms(2)
          by (simp add: publishFailed_def handleApiError_def Let_def s6 s4 s2)
      next
        case (Inr pp)
        then have hp: "handlePrintifyPublish env product s =
           (s6\<lparr>successMessage := Some (''Successfully created '' @ [CHR 0x22] @ product_title pp @ [CHR 0x22] @ '' in Printify!''),
               finalizedProducts := markPublished product (product_id pp) (finalizedProducts s6)\<rparr>)\<lparr>isLoading := False\<rparr>"
          using assms g u c \<open>r1 = Inr shop\<close> img by (simp add: handlePrintifyPublish_def Let_def)
        have f5: "fetches ?s5 = fetches s + 2" by (simp add: s4)
        from createPrintifyProduct_ok[OF c[unfolded Inr]]
        obtain resp body where rb: "fetchApi env (fetches s + 2) = Inr resp" "ok resp"
          "json_body resp = Inr body" "pp = body_product body" unfolding f5 by blast
        have "finalizedProducts (handlePrintifyPublish env product s) =
               markPublished product (product_id (body_product body)) (finalizedProducts s)"
          by (simp add: hp s6 s4 s2 rb(4))
        with rb(1,2,3) show ?thesis by blast
      qed
    qed
  qed
qed


text \<open>
  C9. After a successful publish the list of finalized products is the old list in which
  every product whose concept title equals the published product's concept title has its
  publish identifier set to the \<^verbatim>\<open>id\<close> of the body the product-creation call (the third
  fetch) answered with: the list keeps its length and order, and concept, design, mockups,
  listing copy and product type of every product are unchanged.
\<close>

theorem publish_marks_every_matching_title:
  assumes "printifyToken s \<noteq> []"
    and "successMessage (handlePrintifyPublish env product s) \<noteq> None"
  shows "\<exists>resp body.
           fetchApi env (fetches s + 2) = Inr resp \<and> ok resp \<and> json_body resp = Inr body
         \<and> finalizedProducts (handlePrintifyPublish env product s) =
             map (\<lambda>p. if conceptTitle (concept p) = conceptTitle (concept product)
                       then p\<lparr>printifyId := Some (product_id (body_product body))\<rparr> else p)
               (finalizedProducts s)
         \<and> length (finalizedProducts (handlePrintifyPublish env product s)) = length (finalizedProducts s)
         \<and> (\<forall>i < length (finalizedProducts s).
               concept (finalizedProducts (handlePrintifyPublish env product s) ! i) = concept (finalizedProducts s ! i)
             \<and> designUrl (finalizedProducts (handlePrintifyPublish env product s) ! i) = designUrl (finalizedProducts s ! i)
             \<and> mockups (finalizedProducts (handlePrintifyPublish env product s) ! i) = mockups (finalizedProducts s ! i)
             \<and> listingCopy (finalizedProducts (handlePrintifyPublish env product s) ! i) = listingCopy (finalizedProducts s ! i)
             \<and> productType (finalizedProducts (handlePrintifyPublish env product s) ! i) = productType (finalizedProducts s ! i)
             \<and> printifyId (finalizedProducts (handlePrintifyPublish env product s) ! i) =
                 (if conceptTitle (concept (finalizedProducts s ! i)) = conceptTitle (concept product)
                  then Some (product_id (body_product body)) else printifyId (finalizedProducts s ! i)))"
proof -
  from publish_success_state[OF assms] obtain resp body where
    rb: "fetchApi env (fetches s + 2) = Inr resp" "ok resp" "json_body resp = Inr body"
    and fp: "finalizedProducts (handlePrintifyPublish env product s) =
       markPublished product (product_id (body_product body)) (finalizedProducts s)"
    by blast
  show ?thesis
    apply (rule exI[of _ resp], rule exI[of _ body])
    using rb apply (simp add: fp markPublished_def)
    done
qed

lemma example_fileName: "safeFileName (conceptTitle (concept exampleProduct)) = ''Cozy_Pines.png''"
  unfolding exampleProduct_def exampleConcept_def by code_simp


lemma example_stripped: "stripDataPrefix (designUrl exampleProduct) = ''AAAA''"
  unfolding exampleProduct_def by code_simp


lemma example_upload_error_transient:
  "isRetryable (newError (''Image upload failed: '' @ serverErrorJson))"
  unfolding serverErrorJson_def by code_simp


lemma example_publish_failure:
  "handlePrintifyPublish uploadFailsOnceEnv exampleProduct exampleState =
   exampleState\<lparr>loadingMessage := ''Uploading design to Printify Media Library...'',
     fetches := 2, log := [Fetch (GetShops ''token''), Fetch (UploadImage ''token'' ''Cozy_Pines.png'' ''AAAA'')],
     error := Some (''Image upload failed: '' @ serverErrorJson), isLoading := False\<rparr>"
  by (simp add: handlePrintifyPublish_def Let_def example_fileName example_stripped getPrintifyShop_def
      uploadImageToPrintify_def doFetch_def uploadFailsOnceEnv_def okResponse_def serverErrorResponse_def
      exampleBody_def publishFailed_def handleApiError_def newError_def exampleState_def)


lemma example_publish_success:
  "successMessage (handlePrintifyPublish shopEnv exampleProduct publishState) \<noteq> None"
  by (simp add: handlePrintifyPublish_def Let_def getPrintifyShop_def
      uploadImageToPrintify_def createPrintifyProduct_def doFetch_def shopEnv_def okResponse_def
      exampleBody_def publishState_def exampleState_def)


text \<open>
  C5 as stated fails: the upload answers once with a server error whose payload the
  executor's classification calls transient, and a second attempt would succeed; the
  publish stops after two fetches with the upload error.
\<close>

theorem publish_not_retried_counterexample:
  "fst (uploadImageToPrintify uploadFailsOnceEnv ''token'' (designUrl exampleProduct) ''Cozy_Pines.png''
          (exampleState\<lparr>fetches := 1\<rparr>)) = Inl (newError (''Image upload failed: '' @ serverErrorJson))
   \<and> isRetryable (newError (''Image upload failed: '' @ serverErrorJson))
   \<and> error (handlePrintifyPublish uploadFailsOnceEnv exampleProduct exampleState) =
       Some (''Image upload failed: '' @ serverErrorJson)
   \<and> log (handlePrintifyPublish uploadFailsOnceEnv exampleProduct exampleState) =
       [Fetch (GetShops ''token''), Fetch (UploadImage ''token'' ''Cozy_Pines.png'' ''AAAA'')]
   \<and> fetches (handlePrintifyPublish uploadFailsOnceEnv exampleProduct exampleState) = 2
   \<and> fetchApi uploadFailsOnceEnv 2 = Inr okResponse"
proof -
  have up: "fst (uploadImageToPrintify uploadFailsOnceEnv ''token'' (designUrl exampleProduct) ''Cozy_Pines.png''
          (exampleState\<lparr>fetches := 1\<rparr>)) = Inl (newError (''Image upload failed: '' @ serverErrorJson))"
    by (simp add: uploadImageToPrintify_def doFetch_def Let_def uploadFailsOnceEnv_def
        serverErrorResponse_def exampleBody_def)
  have nxt: "fetchApi uploadFailsOnceEnv 2 = Inr okResponse"
    by (simp add: uploadFailsOnceEnv_def)
  show ?thesis
    using up example_upload_error_transient nxt by (simp add: example_publish_failure)
qed


theorem publish_calls_issued_once_witness:
  "printifyToken exampleState \<noteq> []
   \<and> handlePrintifyPublish uploadFailsOnceEnv exampleProduct exampleState =
       exampleState\<lparr>fetches := 2,
         log := [Fetch (GetShops ''token''), Fetch (UploadImage ''token'' ''Cozy_Pines.png'' ''AAAA'')],
         loadingMessage := ''Uploading design to Printify Media Library...'',
         error := Some (''Image upload failed: '' @ serverErrorJson),
         successMessage := None, isLoading := False\<rparr>"
proof -
  have t: "printifyToken exampleState \<noteq> []" by (simp add: exampleState_def)
  have tok: "printifyToken exampleState = ''token''" by (simp add: exampleState_def)
  have f0: "fetches exampleState = 0" "log exampleState = []" by (simp_all add: exampleState_def)
  have sh: "fst (getPrintifyShop uploadFailsOnceEnv (printifyToken exampleState) exampleState) =
              Inr \<lparr>shop_id = ''shop-1'', shop_title = ''My Shop''\<rparr>"
    by (simp add: getPrintifyShop_def doFetch_def uploadFailsOnceEnv_def okResponse_def exampleBody_def
        exampleState_def)
  have up: "fst (uploadImageToPrintify uploadFailsOnceEnv (printifyToken exampleState) (designUrl exampleProduct)
                   (safeFileName (conceptTitle (concept exampleProduct)))
                   (exampleState\<lparr>fetches := fetches exampleState + 1\<rparr>)) =
              Inl (newError (''Image upload failed: '' @ serverErrorJson))"
    by (simp add: uploadImageToPrintify_def doFetch_def Let_def uploadFailsOnceEnv_def
        serverErrorResponse_def exampleBody_def f0)
  from publish_calls_issued_once[OF t, of uploadFailsOnceEnv exampleProduct]
  have "\<forall>shop e.
            fst (getPrintifyShop uploadFailsOnceEnv (printifyToken exampleState) exampleState) = Inr shop
          \<and> fst (uploadImageToPrintify uploadFailsOnceEnv (printifyToken exampleState) (designUrl exampleProduct)
                   (safeFileName (conceptTitle (concept exampleProduct))) (exampleState\<lparr>fetches := fetches exampleState + 1\<rparr>)) = Inl e \<longrightarrow>
            handlePrintifyPublish uploadFailsOnceEnv exampleProduct exampleState =
              exampleState\<lparr>fetches := fetches exampleState + 2,
                log := log exampleState @ [Fetch (GetShops (printifyToken exampleState)),
                                Fetch (UploadImage (printifyToken exampleState)
                                         (safeFileName (conceptTitle (concept exampleProduct)))
                                         (stripDataPrefix (designUrl exampleProduct)))],
                loadingMessage := ''Uploading design to Printify Media Library...'',
                error := Some (if instanceOfError e then toString (err_message e) else err_string e),
                successMessage := None, isLoading := False\<rparr>"
    by blast
  from this sh up
  have "handlePrintifyPublish uploadFailsOnceEnv exampleProduct exampleState =
              exampleState\<lparr>fetches := fetches exampleState + 2,
                log := log exampleState @ [Fetch (GetShops (printifyToken exampleState)),
                                Fetch (UploadImage (printifyToken exampleState)
                                         (safeFileName (conceptTitle (concept exampleProduct)))
                                         (stripDataPrefix (designUrl exampleProduct)))],
                loadingMessage := ''Uploading design to Printify Media Library...'',
                error := Some (if instanceOfError (newError (''Image upload failed: '' @ serverErrorJson))
                               then toString (err_message (newError (''Image upload failed: '' @ serverErrorJson)))
                               else err_string (newError (''Image upload failed: '' @ serverErrorJson))),
                successMessage := None, isLoading := False\<rparr>"
    by blast
  then show ?thesis
    using t by (simp add: f0 tok example_fileName example_stripped newError_def)
qed


theorem publish_marks_every_matching_title_witness:
  "map printifyId (finalizedProducts (handlePrintifyPublish shopEnv exampleProduct publishState)) =
     [Some ''prod-1'', None, Some ''prod-1'']
   \<and> map printifyId (finalizedProducts publishState) = [None, None, None]
   \<and> map (\<lambda>p. p\<lparr>printifyId := None\<rparr>) (finalizedProducts (handlePrintifyPublish shopEnv exampleProduct publishState))
       = finalizedProducts publishState"
proof -
  have t: "printifyToken publishState \<noteq> []" by (simp add: publishState_def exampleState_def)
  from publish_marks_every_matching_title[OF t example_publish_success]
  obtain resp body where rb: "fetchApi shopEnv (fetches publishState + 2) = Inr resp" "json_body resp = Inr body"
    and fp: "finalizedProducts (handlePrintifyPublish shopEnv exampleProduct publishState) =
             map (\<lambda>p. if conceptTitle (concept p) = conceptTitle (concept exampleProduct)
                       then p\<lparr>printifyId := Some (product_id (body_product body))\<rparr> else p)
               (finalizedProducts publishState)"
    by blast
  from rb have "body = exampleBody" by (auto simp: shopEnv_def okResponse_def)
  then have pid: "product_id (body_product body) = ''prod-1''" by (simp add: exampleBody_def)
  show ?thesis
    unfolding fp pid
    by (simp add: publishState_def exampleState_def exampleProduct_def otherProduct_def exampleConcept_def)
qed


lemma withRetry_first_try:
  "withRetry (generateContent env req) defaultMaxRetries defaultInitialDelay s =
     (Inr r, s\<lparr>attempts := attempts s + 1, log := log s @ [Generate req]\<rparr>)"
  if "ai env (attempts s) = Inr r"
  using that by (simp add: withRetry_def retryLoop.simps generateContent_def)


theorem listing_copy_passed_through_witness:
  "generateListingCopy sloppyEnv exampleConcept exampleState =
     (Inr oversizedCopy, exampleState\<lparr>attempts := 1, log := [Generate (ListingCopyRequest exampleConcept)]\<rparr>)
   \<and> length (title oversizedCopy) = 141 \<and> length (tags oversizedCopy) = 2
   \<and> length (hd (tags oversizedCopy)) = 21"
proof -
  have h1: "withRetry (generateContent sloppyEnv (ListingCopyRequest exampleConcept))
              defaultMaxRetries defaultInitialDelay exampleState =
            (Inr exampleResponse,
             exampleState\<lparr>attempts := 1, log := [Generate (ListingCopyRequest exampleConcept)]\<rparr>)"
    using withRetry_first_try[of sloppyEnv exampleState exampleResponse "ListingCopyRequest exampleConcept"]
    by (simp add: sloppyEnv_def exampleState_def)
  have h2: "resp_text exampleResponse = Some ''{}''" by (simp add: exampleResponse_def)
  have h3: "parseJson sloppyEnv (trim ''{}'') = Inr oversizedCopy" by (simp add: sloppyEnv_def)
  show ?thesis
    using listing_copy_passed_through[OF h1 h2 h3] by (simp add: oversizedCopy_def)
qed


lemma badKey_terminal: "\<not> isRetryable badKey"
  unfolding badKey_def by code_simp

theorem invalid_url_fails_after_copy_witness:
  "generateFinalAssets shopEnv ''not-a-data-url'' exampleConcept ''Christmas'' Mug None exampleState =
     (Inl (newError ''Invalid base64 data URL format.''),
      exampleState\<lparr>attempts := 1, log := [Generate (ListingCopyRequest exampleConcept)]\<rparr>)
   \<and> generateFinalAssets keylessEnv ''not-a-data-url'' exampleConcept ''Christmas'' Mug None exampleState =
     (Inl (newError ''API key not valid''),
      exampleState\<lparr>attempts := 1, log := [Generate (ListingCopyRequest exampleConcept)]\<rparr>)"
proof -
  have nc: "CHR '','' \<notin> set ''not-a-data-url''" by simp
  have h1: "\<not> (\<exists>header dat rest. header \<noteq> [] \<and> dat \<noteq> [] \<and> CHR '','' \<notin> set header \<and> CHR '','' \<notin> set dat \<and>
      (''not-a-data-url'' = header @ '','' @ dat \<or> ''not-a-data-url'' = header @ '','' @ dat @ '','' @ rest))"
  proof
    assume "\<exists>header dat rest. header \<noteq> [] \<and> dat \<noteq> [] \<and> CHR '','' \<notin> set header \<and> CHR '','' \<notin> set dat \<and>
      (''not-a-data-url'' = header @ '','' @ dat \<or> ''not-a-data-url'' = header @ '','' @ dat @ '','' @ rest)"
    then obtain header tl where "''not-a-data-url'' = header @ '','' @ tl" by blast
    moreover have "\<forall>u. u = header @ '','' @ tl \<longrightarrow> CHR '','' \<in> set u" by simp
    ultimately have "CHR '','' \<in> set ''not-a-data-url''" by blast
    with nc show False by blast
  qed
  have cp: "generateListingCopy shopEnv exampleConcept (report None 0 13 exampleState) =
     (Inr exampleCopy, exampleState\<lparr>attempts := 1, log := [Generate (ListingCopyRequest exampleConcept)]\<rparr>)"
    using withRetry_first_try[of shopEnv exampleState exampleResponse "ListingCopyRequest exampleConcept"]
    by (simp add: generateListingCopy_def report_def shopEnv_def exampleState_def exampleResponse_def)
  have ko: "generateListingCopy keylessEnv exampleConcept (report None 0 13 exampleState) =
     (Inl badKey, exampleState\<lparr>attempts := 1, log := [Generate (ListingCopyRequest exampleConcept)]\<rparr>)"
    using badKey_terminal
    by (simp add: generateListingCopy_def withRetry_def retryLoop.simps generateContent_def report_def
        keylessEnv_def exampleState_def)
  have a: "generateFinalAssets shopEnv ''not-a-data-url'' exampleConcept ''Christmas'' Mug None exampleState =
     (Inl (newError ''Invalid base64 data URL format.''),
      exampleState\<lparr>attempts := 1, log := [Generate (ListingCopyRequest exampleConcept)]\<rparr>)"
    using invalid_url_fails_after_copy[OF h1, of shopEnv exampleConcept "''Christmas''" Mug None exampleState] cp
    by (simp add: report_def)
  have b: "generateFinalAssets keylessEnv ''not-a-data-url'' exampleConcept ''Christmas'' Mug None exampleState =
     (Inl badKey, exampleState\<lparr>attempts := 1, log := [Generate (ListingCopyRequest exampleConcept)]\<rparr>)"
    using invalid_url_fails_after_copy[OF h1, of keylessEnv exampleConcept "''Christmas''" Mug None exampleState] ko
    by simp
  show ?thesis using a b by (simp add: badKey_def)
qed

text \<open>
  C10 as stated fails: with a design URL without a comma and a collaborator that rejects
  the API key, the finalisation fails with the collaborator's error, not with the invalid
  URL error.
\<close>

theorem invalid_url_copy_error_counterexample:
  "CHR '','' \<notin> set ''not-a-data-url''
   \<and> generateFinalAssets keylessEnv ''not-a-data-url'' exampleConcept ''Christmas'' Mug None exampleState =
       (Inl (newError ''API key not valid''),
        exampleState\<lparr>attempts := 1, log := [Generate (ListingCopyRequest exampleConcept)]\<rparr>)
   \<and> newError ''API key not valid'' \<noteq> newError ''Invalid base64 data URL format.''"
proof -
  have len: "length (getMockupPrompts Mug exampleConcept ''Christmas'') = 12"
    by (simp add: getMockupPrompts_def basePrompts_def Let_def)
  have cp: "generateListingCopy keylessEnv exampleConcept (report None 0 13 exampleState) =
     (Inl badKey, exampleState\<lparr>attempts := 1, log := [Generate (ListingCopyRequest exampleConcept)]\<rparr>)"
    using badKey_terminal
    by (simp add: generateListingCopy_def withRetry_def retryLoop.simps generateContent_def report_def
        keylessEnv_def exampleState_def)
  have "generateFinalAssets keylessEnv ''not-a-data-url'' exampleConcept ''Christmas'' Mug None exampleState =
       (Inl badKey, exampleState\<lparr>attempts := 1, log := [Generate (ListingCopyRequest exampleConcept)]\<rparr>)"
    using cp by (simp add: generateFinalAssets_def Let_def len)
  moreover have "newError ''API key not valid'' \<noteq> newError ''Invalid base64 data URL format.''"
    by (simp add: newError_def)
  ultimately show ?thesis by (simp add: badKey_def)
qed

section \<open>Properties of the mockup batch\<close>

lemma length_getMockupPrompts: "length (getMockupPrompts pt c hol) = 12"
  by (simp add: getMockupPrompts_def basePrompts_def Let_def)
















lemma example_designPart:
  "base64ToPart ''data:image/png;base64,AAAA'' = Inr \<lparr>mimeType = ''image/png'', data = ''AAAA''\<rparr>"
  by code_simp









section \<open>Properties of the orchestrator\<close>

lemma retryTrace_0: "retryTrace req d 0 = [Generate req]"
  by (simp add: retryTrace_def)


lemma retryTrace_Suc: "retryTrace req d (Suc n) = Generate req # Sleep d # retryTrace req (d * 2) n"
  unfolding retryTrace_def map_upt_shift by (simp add: mult.assoc)


lemma skeleton_retryTrace:
  "skeleton prev (retryTrace req d n @ es) =
     (if prev = Some req then [] else [Generate req]) @ skeleton (Some req) es"
  by (induction n arbitrary: d prev) (simp_all add: retryTrace_0 retryTrace_Suc)


lemma skeleton_restart:
  "es = [] \<or> (\<exists>p t rest. es = Progress p t # rest) \<Longrightarrow> skeleton prev es = skeleton None es"
  by auto


lemma skeleton_append:
  "ys = [] \<or> (\<exists>p t rest. ys = Progress p t # rest) \<Longrightarrow>
   skeleton prev (xs @ ys) = skeleton prev xs @ skeleton None ys"
proof (induction xs arbitrary: prev)
  case Nil
  then show ?case by auto
next
  case (Cons e xs)
  then show ?case by (cases e) auto
qed


lemma progressReports_skeleton: "progressReports (skeleton prev es) = progressReports es"
proof (induction es arbitrary: prev)
  case Nil
  then show ?case by simp
next
  case (Cons e es)
  then show ?case by (cases e) auto
qed


lemma progressReports_append: "progressReports (xs @ ys) = progressReports xs @ progressReports ys"
proof (induction xs)
  case Nil
  then show ?case by simp
next
  case (Cons e xs)
  then show ?case by (cases e) auto
qed


lemma progressReports_steps:
  "progressReports (concat (map (\<lambda>q. [Progress (q + 2) T, Generate (g q)]) [i..<j])) =
     map (\<lambda>p. (p, T)) [i + 2..<j + 2]"
proof (induction j)
  case 0
  then show ?case by simp
next
  case (Suc j)
  show ?case
  proof (cases "i \<le> j")
    case True
    then show ?thesis using Suc by (simp add: progressReports_append)
  next
    case False
    then show ?thesis by simp
  qed
qed


lemma report_callback:
  "report (Some (progressCallback op)) p t s =
     s\<lparr>log := log s @ [Progress p t],
       loadingMessage := loadingMessage (progressCallback op p t s)\<rparr>"
  by (simp add: report_def progressCallback_def Let_def)


lemma withRetry_state:
  "\<exists>n. snd (withRetry (generateContent env req) m d s) =
            s\<lparr>attempts := attempts s + n + 1, log := log s @ retryTrace req d n\<rparr>"
  using retryLoop_generate[of 0 m env req d s] by (auto simp: withRetry_def)


lemma mockupLoop_trace:
  "i \<le> N \<Longrightarrow>
   \<exists>a m evs j.
     snd (mockupLoop env dp ps (Some (progressCallback op)) T N i urls s) =
       s\<lparr>attempts := a, log := log s @ evs, loadingMessage := m\<rparr>
   \<and> (evs = [] \<or> (\<exists>rest. evs = Progress (i + 2) T # rest))
   \<and> skeleton None evs =
       concat (map (\<lambda>q. [Progress (q + 2) T, Generate (MockupRequest dp (ps ! q))]) [i..<j])
   \<and> i \<le> j \<and> j \<le> N
   \<and> ((\<exists>u. fst (mockupLoop env dp ps (Some (progressCallback op)) T N i urls s) = Inr u) \<longrightarrow> j = N)"
proof (induction "N - i" arbitrary: i urls s)
  case 0
  then have iN: "i = N" by simp
  have "mockupLoop env dp ps (Some (progressCallback op)) T N i urls s = (Inr urls, s)"
    using iN by (simp add: mockupLoop.simps)
  then show ?case
    apply (rule_tac x = "attempts s" in exI)
    apply (rule_tac x = "loadingMessage s" in exI)
    apply (rule_tac x = "[]" in exI)
    apply (rule_tac x = N in exI)
    apply (simp add: iN)
    done
next
  case (Suc k)
  then have lt: "i < N" by simp
  let ?cb = "Some (progressCallback op)"
  let ?req = "MockupRequest dp (ps ! i)"
  let ?f = "\<lambda>q. [Progress (q + 2) T, Generate (MockupRequest dp (ps ! q))]"
  let ?s1 = "report ?cb (i + 2) T s"
  have s1: "?s1 = s\<lparr>log := log s @ [Progress (i + 2) T],
                     loadingMessage := loadingMessage (progressCallback op (i + 2) T s)\<rparr>"
    by (rule report_callback)
  obtain r s2 where w: "withRetry (generateContent env ?req) defaultMaxRetries defaultInitialDelay ?s1 = (r, s2)"
    by (cases "withRetry (generateContent env ?req) defaultMaxRetries defaultInitialDelay ?s1")
  from withRetry_state[of env ?req defaultMaxRetries defaultInitialDelay ?s1] w
  obtain n where s2': "s2 = ?s1\<lparr>attempts := attempts ?s1 + n + 1,
                        log := log ?s1 @ retryTrace ?req defaultInitialDelay n\<rparr>"
    by auto
  define m1 where "m1 = loadingMessage (progressCallback op (i + 2) T s)"
  have s2: "s2 = s\<lparr>attempts := attempts s + n + 1,
                  log := log s @ Progress (i + 2) T # retryTrace ?req defaultInitialDelay n,
                  loadingMessage := m1\<rparr>"
    unfolding s2' s1 m1_def by simp
  have sk1: "skeleton None (Progress (i + 2) T # retryTrace ?req defaultInitialDelay n @ es) =
             Progress (i + 2) T # Generate ?req # skeleton (Some ?req) es" for es
    by (simp add: skeleton_retryTrace)
  have single: "[i..<Suc i] = [i]" by simp
  have stop: ?case if res: "mockupLoop env dp ps ?cb T N i urls s = (Inl e, s2)" for e
    apply (rule_tac x = "attempts s + n + 1" in exI)
    apply (rule_tac x = m1 in exI)
    apply (rule_tac x = "Progress (i + 2) T # retryTrace ?req defaultInitialDelay n" in exI)
    apply (rule_tac x = "Suc i" in exI)
    using lt sk1[of "[]"] apply (simp add: res s2 single del: upt_Suc)
    done
  show ?case
  proof (cases r)
    case (Inl e)
    then have "mockupLoop env dp ps ?cb T N i urls s = (Inl e, s2)"
      using lt w by (subst mockupLoop.simps) (simp add: Let_def)
    then show ?thesis by (rule stop)
  next
    case (Inr resp)
    show ?thesis
    proof (cases "extractImage resp")
      case (Inl e)
      then have "mockupLoop env dp ps ?cb T N i urls s = (Inl e, s2)"
        using lt w Inr by (subst mockupLoop.simps) (simp add: Let_def)
      then show ?thesis by (rule stop)
    next
      case (Inr img)
      let ?urls = "case img of None \<Rightarrow> urls | Some d \<Rightarrow> urls @ [''data:image/jpeg;base64,'' @ d]"
      define s3 where "s3 = (if i < N - 1 then sleep 1500 s2 else s2)"
      define sl where "sl = (if i < N - 1 then [Sleep 1500] else [])"
      have s3: "s3 = s\<lparr>attempts := attempts s + n + 1,
                  log := log s @ Progress (i + 2) T # retryTrace ?req defaultInitialDelay n @ sl,
                  loadingMessage := m1\<rparr>"
        by (simp add: s3_def sl_def s2 sleep_def)
      have step: "mockupLoop env dp ps ?cb T N i urls s = mockupLoop env dp ps ?cb T N (i + 1) ?urls s3"
        using lt w \<open>r = Inr resp\<close> Inr unfolding s3_def
        by (subst mockupLoop.simps) (simp add: Let_def)
      have k: "k = N - (i + 1)" "i + 1 \<le> N" using Suc.hyps(2) lt by simp_all
      from Suc.hyps(1)[OF k, of ?urls s3]
      obtain a m evs j where ih:
        "snd (mockupLoop env dp ps ?cb T N (i + 1) ?urls s3) =
           s3\<lparr>attempts := a, log := log s3 @ evs, loadingMessage := m\<rparr>"
        "evs = [] \<or> (\<exists>rest. evs = Progress (i + 1 + 2) T # rest)"
        "skeleton None evs = concat (map ?f [i + 1..<j])"
        "i + 1 \<le> j" "j \<le> N"
        "(\<exists>u. fst (mockupLoop env dp ps ?cb T N (i + 1) ?urls s3) = Inr u) \<longrightarrow> j = N"
        by blast
      have sl: "skeleton (Some ?req) (sl @ evs) = skeleton None evs"
        using ih(2) by (auto simp: sl_def)
      have upt: "[i..<j] = i # [i + 1..<j]" using ih(4) by (simp add: upt_conv_Cons)
      have sk: "skeleton None (Progress (i + 2) T # retryTrace ?req defaultInitialDelay n @ sl @ evs) =
                concat (map ?f [i..<j])"
        unfolding sk1 sl ih(3) upt by simp
      have st: "snd (mockupLoop env dp ps ?cb T N i urls s) =
          s\<lparr>attempts := a,
            log := log s @ (Progress (i + 2) T # retryTrace ?req defaultInitialDelay n @ sl @ evs),
            loadingMessage := m\<rparr>"
        unfolding step ih(1) by (simp add: s3)
      show ?thesis
        apply (rule_tac x = a in exI)
        apply (rule_tac x = m in exI)
        apply (rule_tac x = "Progress (i + 2) T # retryTrace ?req defaultInitialDelay n @ sl @ evs" in exI)
        apply (rule_tac x = j in exI)
        using st sk ih(4,5,6) step apply simp
        done
    qed
  qed
qed

lemma length_concat_pairs: "length (concat (map (\<lambda>q. [A q, B q]) xs)) = 2 * length xs"
  by (induction xs) simp_all


lemma take_concat_pairs:
  assumes "j \<le> N"
  shows "take (2 * j) (concat (map (\<lambda>q. [A q, B q]) [0..<N])) = concat (map (\<lambda>q. [A q, B q]) [0..<j])"
proof -
  have "[0..<N] = [0..<j] @ [j..<N]"
    using assms upt_add_eq_append[of 0 j "N - j"] by simp
  then have "concat (map (\<lambda>q. [A q, B q]) [0..<N]) =
             concat (map (\<lambda>q. [A q, B q]) [0..<j]) @ concat (map (\<lambda>q. [A q, B q]) [j..<N])"
    by simp
  then show ?thesis using length_concat_pairs[of A B "[0..<j]"] by simp
qed


lemma take_three: "take (3 + n) (a # b # c # xs) = a # b # c # take n xs"
  by (simp add: numeral_3_eq_3)


lemma full_reports:
  "(0, T) # (1, T) # map (\<lambda>p. (p, T)) [2..<14] = map (\<lambda>p. (p, T)) [0..<14]"
proof -
  have a: "[0..<14] = [0, 1, 2, 3, 4, 5, 6, 7, 8, 9, 10, 11, 12, 13::nat]" by code_simp
  have b: "[2..<14] = [2, 3, 4, 5, 6, 7, 8, 9, 10, 11, 12, 13::nat]" by code_simp
  show ?thesis unfolding a b by simp
qed


lemma generateFinalAssets_trace:
  "\<exists>a m evs l.
     snd (generateFinalAssets env (item_url d) (item_concept d) hol (item_productType d)
            (Some (progressCallback op)) s) =
       s\<lparr>attempts := a, log := log s @ evs, loadingMessage := m\<rparr>
   \<and> (\<exists>rest. evs = Progress 0 13 # rest)
   \<and> skeleton None evs = take l (tupleSkeleton hol d) \<and> 2 \<le> l
   \<and> ((\<exists>x. fst (generateFinalAssets env (item_url d) (item_concept d) hol (item_productType d)
                   (Some (progressCallback op)) s) = Inr x) \<longrightarrow>
        skeleton None evs = tupleSkeleton hol d \<and>
        progressReports evs = map (\<lambda>p. (p, 13)) [0..<14])"
proof -
  let ?cb = "Some (progressCallback op)"
  let ?c = "item_concept d"
  let ?ps = "getMockupPrompts (item_productType d) ?c hol"
  let ?run = "generateFinalAssets env (item_url d) ?c hol (item_productType d) ?cb s"
  let ?creq = "ListingCopyRequest ?c"
  have len: "length ?ps = 12" by (rule length_getMockupPrompts)
  define m0 where "m0 = loadingMessage (progressCallback op 0 13 s)"
  let ?s0 = "report ?cb 0 13 s"
  have s0: "?s0 = s\<lparr>log := log s @ [Progress 0 13], loadingMessage := m0\<rparr>"
    unfolding m0_def by (rule report_callback)
  obtain rc s1 where lc: "generateListingCopy env ?c ?s0 = (rc, s1)"
    by (cases "generateListingCopy env ?c ?s0")
  from listingCopy_state[of env ?c ?s0] lc
  obtain n where "s1 = ?s0\<lparr>attempts := attempts ?s0 + n + 1,
       log := log ?s0 @ retryTrace ?creq defaultInitialDelay n\<rparr>"
    by auto
  then have s1: "s1 = s\<lparr>attempts := attempts s + n + 1,
       log := log s @ Progress 0 13 # retryTrace ?creq defaultInitialDelay n,
       loadingMessage := m0\<rparr>"
    unfolding s0 by simp
  define tail where "tail = (case base64ToPart (item_url d) of
            Inl e \<Rightarrow> []
          | Inr designPart \<Rightarrow>
              concat (map (\<lambda>q. [Progress (q + 2) 13, Generate (MockupRequest designPart (?ps ! q))])
                        [0..<12]))"
  have ts: "tupleSkeleton hol d = Progress 0 13 # Generate ?creq # Progress 1 13 # tail"
    by (simp add: tupleSkeleton_def Let_def len tail_def cong: sum.case_cong)
  have sk0: "skeleton None (Progress 0 13 # retryTrace ?creq defaultInitialDelay n @ es) =
             Progress 0 13 # Generate ?creq # skeleton (Some ?creq) es" for es
    by (simp add: skeleton_retryTrace)
  show ?thesis
  proof (cases rc)
    case (Inl e)
    then have run: "?run = (Inl e, s1)"
      using lc by (simp add: generateFinalAssets_def Let_def len)
    show ?thesis
      apply (rule_tac x = "attempts s + n + 1" in exI)
      apply (rule_tac x = m0 in exI)
      apply (rule_tac x = "Progress 0 13 # retryTrace ?creq defaultInitialDelay n" in exI)
      apply (rule_tac x = 2 in exI)
      using sk0[of "[]"] apply (simp add: run s1 ts)
      done
  next
    case (Inr copy)
    define m1 where "m1 = loadingMessage (progressCallback op 1 13 s1)"
    define s2 where "s2 = report ?cb 1 13 s1"
    have "s2 = s1\<lparr>log := log s1 @ [Progress 1 13], loadingMessage := m1\<rparr>"
      unfolding m1_def s2_def by (rule report_callback)
    then have s2: "s2 = s\<lparr>attempts := attempts s + n + 1,
       log := log s @ Progress 0 13 # retryTrace ?creq defaultInitialDelay n @ [Progress 1 13],
       loadingMessage := m1\<rparr>"
      unfolding s1 by simp
    show ?thesis
    proof (cases "base64ToPart (item_url d)")
      case (Inl e)
      then have "?run = (Inl e, s2)"
        using lc \<open>rc = Inr copy\<close> unfolding s2_def
        by (simp add: generateFinalAssets_def Let_def len)
      then have run: "?run = (Inl e, s\<lparr>attempts := attempts s + n + 1,
         log := log s @ Progress 0 13 # retryTrace ?creq defaultInitialDelay n @ [Progress 1 13],
         loadingMessage := m1\<rparr>)"
        by (simp only: s2)
      have tl: "tail = []" using Inl by (simp add: tail_def)
      show ?thesis
        apply (rule_tac x = "attempts s + n + 1" in exI)
        apply (rule_tac x = m1 in exI)
        apply (rule_tac x = "Progress 0 13 # retryTrace ?creq defaultInitialDelay n @ [Progress 1 13]" in exI)
        apply (rule_tac x = 3 in exI)
        using sk0[of "[Progress 1 13]"] apply (simp add: run ts tl)
        done
    next
      case (Inr dp)
      let ?f = "\<lambda>q. [Progress (q + 2) 13, Generate (MockupRequest dp (?ps ! q))]"
      let ?loop = "mockupLoop env dp ?ps ?cb 13 12 0 [] s2"
      have tl: "tail = concat (map ?f [0..<12])" using Inr by (simp add: tail_def)
      from mockupLoop_trace[of 0 12 env dp ?ps op 13 "[]" s2]
      obtain a m evs j where ml:
        "snd ?loop = s2\<lparr>attempts := a, log := log s2 @ evs, loadingMessage := m\<rparr>"
        "evs = [] \<or> (\<exists>rest. evs = Progress (0 + 2) 13 # rest)"
        "skeleton None evs = concat (map ?f [0..<j])"
        "j \<le> 12"
        "(\<exists>u. fst ?loop = Inr u) \<longrightarrow> j = 12"
        by auto
      have run_snd: "snd ?run = snd ?loop"
        using lc \<open>rc = Inr copy\<close> Inr unfolding s2_def
        by (simp add: generateFinalAssets_def Let_def len split: prod.splits sum.splits)
      have run_ok: "(\<exists>x. fst ?run = Inr x) \<longrightarrow> (\<exists>u. fst ?loop = Inr u)"
        using lc \<open>rc = Inr copy\<close> Inr unfolding s2_def
        by (simp add: generateFinalAssets_def Let_def len split: prod.splits sum.splits)
      let ?evs = "Progress 0 13 # retryTrace ?creq defaultInitialDelay n @ Progress 1 13 # evs"
      have st: "snd ?run = s\<lparr>attempts := a, log := log s @ ?evs, loadingMessage := m\<rparr>"
        unfolding run_snd ml(1) by (simp add: s2)
      have "skeleton (Some ?creq) (Progress 1 13 # evs) = Progress 1 13 # skeleton None evs"
        by simp
      then have sk: "skeleton None ?evs = Progress 0 13 # Generate ?creq # Progress 1 13 # concat (map ?f [0..<j])"
        using sk0[of "Progress 1 13 # evs"] ml(3) by simp
      have tk: "take (3 + 2 * j) (tupleSkeleton hol d) =
                Progress 0 13 # Generate ?creq # Progress 1 13 # concat (map ?f [0..<j])"
        by (simp only: ts tl take_three take_concat_pairs[OF ml(4)])
      have full: "j = 12 \<Longrightarrow> skeleton None ?evs = tupleSkeleton hol d"
        unfolding sk ts tl by simp
      have "progressReports ?evs = progressReports (skeleton None ?evs)"
        by (simp only: progressReports_skeleton)
      also have "\<dots> = (0, 13) # (1, 13) # map (\<lambda>p. (p, 13)) [0 + 2..<j + 2]"
        unfolding sk using progressReports_steps[of 13 "\<lambda>q. MockupRequest dp (?ps ! q)" 0 j] by simp
      finally have pr0: "progressReports ?evs = (0, 13) # (1, 13) # map (\<lambda>p. (p, 13)) [0 + 2..<j + 2]" .
      have pr: "progressReports ?evs = map (\<lambda>p. (p, 13)) [0..<14]" if "j = 12"
      proof -
        have "(0::nat) + 2 = 2" by simp
        moreover have "j + 2 = 14" using that by simp
        ultimately have e: "[0 + 2..<j + 2] = [2..<14::nat]" by (simp only:)
        show ?thesis unfolding pr0 e by (rule full_reports)
      qed
      show ?thesis
        apply (rule_tac x = a in exI)
        apply (rule_tac x = m in exI)
        apply (rule_tac x = ?evs in exI)
        apply (rule_tac x = "3 + 2 * j" in exI)
        using st sk tk full pr run_ok ml(5) apply simp
        done
    qed
  qed
qed

lemma itemOf_built:
  "itemOf \<lparr>concept = item_concept d, designUrl = item_url d, mockups = ms, listingCopy = cp,
           productType = item_productType d, printifyId = None\<rparr> = d"
  by (simp add: itemOf_def)


lemma forgeLoop_trace:
  "i \<le> length ds \<Longrightarrow>
   \<exists>a m evs.
     snd (forgeLoop env hol ds i acc s) = s\<lparr>attempts := a, log := log s @ evs, loadingMessage := m\<rparr>
   \<and> (evs = [] \<or> (\<exists>rest. evs = Progress 0 13 # rest))
   \<and> (\<forall>all. fst (forgeLoop env hol ds i acc s) = Inr all \<longrightarrow>
          skeleton None evs = concat (map (tupleSkeleton hol) (drop i ds))
        \<and> progressReports evs = concat (replicate (length ds - i) (map (\<lambda>p. (p, 13)) [0..<14]))
        \<and> map itemOf all = map itemOf acc @ drop i ds)
   \<and> (\<forall>e. fst (forgeLoop env hol ds i acc s) = Inl e \<longrightarrow>
          (\<exists>k l. i \<le> k \<and> k < length ds \<and> 2 \<le> l \<and>
             skeleton None evs =
               concat (map (tupleSkeleton hol) (take (k - i) (drop i ds))) @
               take l (tupleSkeleton hol (ds ! k))))"
proof (induction "length ds - i" arbitrary: i acc s)
  case 0
  then have il: "i = length ds" by simp
  have "forgeLoop env hol ds i acc s = (Inr acc, s)"
    using il by (simp add: forgeLoop.simps)
  then show ?case
    apply (rule_tac x = "attempts s" in exI)
    apply (rule_tac x = "loadingMessage s" in exI)
    apply (rule_tac x = "[]" in exI)
    apply (simp add: il)
    done
next
  case (Suc n)
  then have lt: "i < length ds" by simp
  define d where "d = ds ! i"
  define op where "op = overallProgressText i (length ds) d"
  define s1 where "s1 = s\<lparr>loadingMessage := op\<rparr>"
  let ?run = "generateFinalAssets env (item_url d) (item_concept d) hol (item_productType d)
                (Some (progressCallback op)) s1"
  obtain r s2 where run: "?run = (r, s2)" by (cases ?run)
  from generateFinalAssets_trace[of env d hol op s1]
  obtain a1 m1 evs1 l1 where t0:
    "snd ?run = s1\<lparr>attempts := a1, log := log s1 @ evs1, loadingMessage := m1\<rparr>"
    "\<exists>rest. evs1 = Progress 0 13 # rest"
    "skeleton None evs1 = take l1 (tupleSkeleton hol d)" "2 \<le> l1"
    "(\<exists>x. fst ?run = Inr x) \<longrightarrow> skeleton None evs1 = tupleSkeleton hol d \<and>
        progressReports evs1 = map (\<lambda>p. (p, 13)) [0..<14]"
    by blast
  have t: "s2 = s1\<lparr>attempts := a1, log := log s1 @ evs1, loadingMessage := m1\<rparr>"
    "\<exists>rest. evs1 = Progress 0 13 # rest"
    "skeleton None evs1 = take l1 (tupleSkeleton hol d)" "2 \<le> l1"
    "(\<exists>x. r = Inr x) \<longrightarrow> skeleton None evs1 = tupleSkeleton hol d \<and>
        progressReports evs1 = map (\<lambda>p. (p, 13)) [0..<14]"
    using t0 by (simp_all only: run fst_conv snd_conv)
  have s2: "s2 = s\<lparr>attempts := a1, log := log s @ evs1, loadingMessage := m1\<rparr>"
    using t(1) by (simp add: s1_def)
  show ?case
  proof (cases r)
    case (Inl e)
    have res: "forgeLoop env hol ds i acc s = (Inl e, s2)"
      using lt run Inl unfolding d_def op_def s1_def
      by (subst forgeLoop.simps) (simp add: Let_def)
    have st: "snd (forgeLoop env hol ds i acc s) =
                s\<lparr>attempts := a1, log := log s @ evs1, loadingMessage := m1\<rparr>"
      by (simp add: res s2)
    have hd: "evs1 = [] \<or> (\<exists>rest. evs1 = Progress 0 13 # rest)" using t(2) by simp
    have ok: "\<forall>all. fst (forgeLoop env hol ds i acc s) = Inr all \<longrightarrow>
          skeleton None evs1 = concat (map (tupleSkeleton hol) (drop i ds))
        \<and> progressReports evs1 = concat (replicate (length ds - i) (map (\<lambda>p. (p, 13)) [0..<14]))
        \<and> map itemOf all = map itemOf acc @ drop i ds"
      by (simp add: res)
    have "skeleton None evs1 =
               concat (map (tupleSkeleton hol) (take (i - i) (drop i ds))) @
               take l1 (tupleSkeleton hol (ds ! i))"
      using t(3) by (simp add: d_def)
    then have bad: "\<forall>e. fst (forgeLoop env hol ds i acc s) = Inl e \<longrightarrow>
          (\<exists>k l. i \<le> k \<and> k < length ds \<and> 2 \<le> l \<and>
             skeleton None evs1 =
               concat (map (tupleSkeleton hol) (take (k - i) (drop i ds))) @
               take l (tupleSkeleton hol (ds ! k)))"
      using lt t(4) by blast
    show ?thesis
      apply (rule_tac x = a1 in exI)
      apply (rule_tac x = m1 in exI)
      apply (rule_tac x = evs1 in exI)
      using st hd ok bad apply blast
      done
  next
    case (Inr x)
    obtain ms cp where x: "x = (ms, cp)" by (cases x)
    define acc' where "acc' = acc @ [\<lparr>concept = item_concept d, designUrl = item_url d,
                       mockups = ms, listingCopy = cp,
                       productType = item_productType d, printifyId = None\<rparr>]"
    have res: "forgeLoop env hol ds i acc s = forgeLoop env hol ds (i + 1) acc' s2"
      using lt run Inr x unfolding d_def op_def s1_def acc'_def
      by (subst forgeLoop.simps) (simp add: Let_def)
    have n: "n = length ds - (i + 1)" "i + 1 \<le> length ds" using Suc.hyps(2) lt by simp_all
    from Suc.hyps(1)[OF n, of acc' s2]
    obtain a2 m2 evs2 where ih:
      "snd (forgeLoop env hol ds (i + 1) acc' s2) = s2\<lparr>attempts := a2, log := log s2 @ evs2, loadingMessage := m2\<rparr>"
      "evs2 = [] \<or> (\<exists>rest. evs2 = Progress 0 13 # rest)"
      "\<forall>all. fst (forgeLoop env hol ds (i + 1) acc' s2) = Inr all \<longrightarrow>
          skeleton None evs2 = concat (map (tupleSkeleton hol) (drop (i + 1) ds))
        \<and> progressReports evs2 = concat (replicate (length ds - (i + 1)) (map (\<lambda>p. (p, 13)) [0..<14]))
        \<and> map itemOf all = map itemOf acc' @ drop (i + 1) ds"
      "\<forall>e. fst (forgeLoop env hol ds (i + 1) acc' s2) = Inl e \<longrightarrow>
          (\<exists>k l. i + 1 \<le> k \<and> k < length ds \<and> 2 \<le> l \<and>
             skeleton None evs2 =
               concat (map (tupleSkeleton hol) (take (k - (i + 1)) (drop (i + 1) ds))) @
               take l (tupleSkeleton hol (ds ! k)))"
      by blast
    have full: "skeleton None evs1 = tupleSkeleton hol d"
      and pr1: "progressReports evs1 = map (\<lambda>p. (p, 13)) [0..<14]"
      using t(5) Inr by simp_all
    have sk: "skeleton None (evs1 @ evs2) = tupleSkeleton hol d @ skeleton None evs2"
      using skeleton_append[of evs2 None evs1] ih(2) full by auto
    have dr: "drop i ds = d # drop (i + 1) ds"
      using lt by (simp add: d_def Cons_nth_drop_Suc)
    have st: "snd (forgeLoop env hol ds i acc s) =
                s\<lparr>attempts := a2, log := log s @ (evs1 @ evs2), loadingMessage := m2\<rparr>"
      unfolding res ih(1) by (simp add: s2)
    have hd: "evs1 @ evs2 = [] \<or> (\<exists>rest. evs1 @ evs2 = Progress 0 13 # rest)"
      using t(2) by auto
    have ok: "skeleton None (evs1 @ evs2) = concat (map (tupleSkeleton hol) (drop i ds))
        \<and> progressReports (evs1 @ evs2) = concat (replicate (length ds - i) (map (\<lambda>p. (p, 13)) [0..<14]))
        \<and> map itemOf all = map itemOf acc @ drop i ds"
      if "fst (forgeLoop env hol ds i acc s) = Inr all" for all
    proof -
      from that have "fst (forgeLoop env hol ds (i + 1) acc' s2) = Inr all" by (simp add: res)
      with ih(3) have a: "skeleton None evs2 = concat (map (tupleSkeleton hol) (drop (i + 1) ds))"
        and b: "progressReports evs2 = concat (replicate (length ds - (i + 1)) (map (\<lambda>p. (p, 13)) [0..<14]))"
        and c: "map itemOf all = map itemOf acc' @ drop (i + 1) ds"
        by blast+
      have len: "length ds - i = Suc (length ds - (i + 1))" using lt by simp
      have "progressReports (evs1 @ evs2) =
              concat (replicate (length ds - i) (map (\<lambda>p. (p, 13)) [0..<14]))"
        unfolding progressReports_append pr1 b len by simp
      moreover have "map itemOf all = map itemOf acc @ drop i ds"
        unfolding c dr by (simp add: acc'_def itemOf_built)
      moreover have "skeleton None (evs1 @ evs2) = concat (map (tupleSkeleton hol) (drop i ds))"
        unfolding sk a dr by simp
      ultimately show ?thesis by blast
    qed
    have bad: "\<exists>k l. i \<le> k \<and> k < length ds \<and> 2 \<le> l \<and>
             skeleton None (evs1 @ evs2) =
               concat (map (tupleSkeleton hol) (take (k - i) (drop i ds))) @
               take l (tupleSkeleton hol (ds ! k))"
      if "fst (forgeLoop env hol ds i acc s) = Inl e" for e
    proof -
      from that have "fst (forgeLoop env hol ds (i + 1) acc' s2) = Inl e" by (simp add: res)
      with ih(4) obtain k l where kl: "i + 1 \<le> k" "k < length ds" "2 \<le> l"
        "skeleton None evs2 =
               concat (map (tupleSkeleton hol) (take (k - (i + 1)) (drop (i + 1) ds))) @
               take l (tupleSkeleton hol (ds ! k))"
        by blast
      have ki: "k - i = Suc (k - (i + 1))" using kl(1) by simp
      have "skeleton None (evs1 @ evs2) =
               concat (map (tupleSkeleton hol) (take (k - i) (drop i ds))) @
               take l (tupleSkeleton hol (ds ! k))"
        unfolding sk kl(4) dr ki by simp
      then show ?thesis using kl(1,2,3) by (intro exI[of _ k] exI[of _ l]) simp
    qed
    show ?thesis
      apply (rule_tac x = a2 in exI)
      apply (rule_tac x = m2 in exI)
      apply (rule_tac x = "evs1 @ evs2" in exI)
      using st hd ok bad apply blast
      done
  qed
qed

lemma copyRequests_append: "copyRequests (xs @ ys) = copyRequests xs @ copyRequests ys"
  by (induction xs rule: copyRequests.induct) simp_all


lemma copyRequests_steps:
  "copyRequests (concat (map (\<lambda>q. [Progress (a q) T, Generate (MockupRequest dp (g q))]) qs)) = []"
  by (induction qs) simp_all


lemma copyRequests_skip:
  "(\<forall>c. e \<noteq> Generate (ListingCopyRequest c)) \<Longrightarrow> copyRequests (e # es) = copyRequests es"
proof (cases e)
  case (Generate r)
  assume "\<forall>c. e \<noteq> Generate (ListingCopyRequest c)"
  with Generate show ?thesis by (cases r) simp_all
qed simp_all

lemma copyRequests_Cons_empty:
  "copyRequests (e # es) = [] \<Longrightarrow> (\<forall>c. e \<noteq> Generate (ListingCopyRequest c)) \<and> copyRequests es = []"
proof (cases e)
  case (Generate r)
  assume "copyRequests (e # es) = []"
  with Generate show ?thesis by (cases r) simp_all
qed simp_all

lemma copyRequests_take_none: "copyRequests xs = [] \<Longrightarrow> copyRequests (take n xs) = []"
proof (induction xs arbitrary: n)
  case Nil
  then show ?case by simp
next
  case (Cons e es)
  from copyRequests_Cons_empty[OF Cons.prems]
  have e: "\<forall>c. e \<noteq> Generate (ListingCopyRequest c)" and es: "copyRequests es = []" by simp_all
  show ?case
  proof (cases n)
    case 0
    then show ?thesis by simp
  next
    case (Suc m)
    then show ?thesis using copyRequests_skip[OF e] Cons.IH[OF es] by simp
  qed
qed

lemma take_two: "take (2 + n) (a # b # xs) = a # b # take n xs"
  by (simp add: numeral_2_eq_2)


lemma copyRequests_tupleSkeleton_take:
  assumes "2 \<le> l"
  shows "copyRequests (take l (tupleSkeleton hol d)) = [item_concept d]"
proof -
  let ?ps = "getMockupPrompts (item_productType d) (item_concept d) hol"
  define tail where "tail = (case base64ToPart (item_url d) of
            Inl e \<Rightarrow> []
          | Inr designPart \<Rightarrow>
              concat (map (\<lambda>q. [Progress (q + 2) 13, Generate (MockupRequest designPart (?ps ! q))])
                        [0..<12]))"
  have ts: "tupleSkeleton hol d =
      Progress 0 13 # Generate (ListingCopyRequest (item_concept d)) # Progress 1 13 # tail"
    by (simp add: tupleSkeleton_def Let_def length_getMockupPrompts tail_def cong: sum.case_cong)
  have "copyRequests tail = []"
    unfolding tail_def by (cases "base64ToPart (item_url d)") (simp_all only: sum.case copyRequests_steps copyRequests.simps)
  then have "copyRequests (Progress 1 13 # tail) = []" by simp
  then have n: "copyRequests (take (l - 2) (Progress 1 13 # tail)) = []"
    by (rule copyRequests_take_none)
  have l: "l = 2 + (l - 2)" using assms by simp
  have "take l (tupleSkeleton hol d) =
        Progress 0 13 # Generate (ListingCopyRequest (item_concept d)) # take (l - 2) (Progress 1 13 # tail)"
    by (subst l, simp only: ts take_two)
  then show ?thesis using n by simp
qed


lemma length_tupleSkeleton: "2 \<le> length (tupleSkeleton hol d)"
  by (simp add: tupleSkeleton_def Let_def)


lemma copyRequests_tupleSkeleton: "copyRequests (tupleSkeleton hol d) = [item_concept d]"
  using copyRequests_tupleSkeleton_take[OF length_tupleSkeleton[of hol d], of hol d] by simp


lemma copyRequests_tuples:
  "copyRequests (concat (map (tupleSkeleton hol) xs)) = map item_concept xs"
  by (induction xs) (simp_all add: copyRequests_append copyRequests_tupleSkeleton)

lemma handleForgeAssets_trace:
  assumes "ds = (case singleDesign of Some d \<Rightarrow> [d] | None \<Rightarrow> selectedDesigns s)"
    and "ds \<noteq> []"
  shows "\<exists>evs.
     log (handleForgeAssets env singleDesign s) = log s @ evs
   \<and> (error (handleForgeAssets env singleDesign s) = None \<longrightarrow>
        step (handleForgeAssets env singleDesign s) = FINALIZE
      \<and> map itemOf (finalizedProducts (handleForgeAssets env singleDesign s)) = ds
      \<and> skeleton None evs = concat (map (tupleSkeleton (holiday s)) ds)
      \<and> progressReports evs = concat (replicate (length ds) (map (\<lambda>p. (p, 13)) [0..<14])))
   \<and> (error (handleForgeAssets env singleDesign s) \<noteq> None \<longrightarrow>
        finalizedProducts (handleForgeAssets env singleDesign s) = []
      \<and> step (handleForgeAssets env singleDesign s) = step s
      \<and> (\<exists>k l. k < length ds \<and> 2 \<le> l \<and>
            skeleton None evs =
              concat (map (tupleSkeleton (holiday s)) (take k ds)) @
              take l (tupleSkeleton (holiday s) (ds ! k))))"
proof -
  define s1 where "s1 = s\<lparr>isLoading := True, error := None, finalizedProducts := []\<rparr>"
  let ?loop = "forgeLoop env (holiday s) ds 0 [] s1"
  obtain r s2 where loop: "?loop = (r, s2)" by (cases ?loop)
  from forgeLoop_trace[of 0 ds env "holiday s" "[]" s1]
  obtain a m evs where t0:
    "snd ?loop = s1\<lparr>attempts := a, log := log s1 @ evs, loadingMessage := m\<rparr>"
    "\<forall>all. fst ?loop = Inr all \<longrightarrow>
          skeleton None evs = concat (map (tupleSkeleton (holiday s)) (drop 0 ds))
        \<and> progressReports evs = concat (replicate (length ds - 0) (map (\<lambda>p. (p, 13)) [0..<14]))
        \<and> map itemOf all = map itemOf [] @ drop 0 ds"
    "\<forall>e. fst ?loop = Inl e \<longrightarrow>
          (\<exists>k l. 0 \<le> k \<and> k < length ds \<and> 2 \<le> l \<and>
             skeleton None evs =
               concat (map (tupleSkeleton (holiday s)) (take (k - 0) (drop 0 ds))) @
               take l (tupleSkeleton (holiday s) (ds ! k)))"
    by blast
  have s2: "s2 = s1\<lparr>attempts := a, log := log s1 @ evs, loadingMessage := m\<rparr>"
    using t0(1) by (simp only: loop snd_conv)
  have hfa: "handleForgeAssets env singleDesign s =
      (case r of
         Inr allFinalAssets \<Rightarrow> (s2\<lparr>finalizedProducts := allFinalAssets, step := FINALIZE\<rparr>)\<lparr>isLoading := False\<rparr>
       | Inl e \<Rightarrow> (handleApiError e s2)\<lparr>isLoading := False\<rparr>)"
    using assms loop unfolding s1_def
    by (simp add: handleForgeAssets_def Let_def split: sum.splits)
  show ?thesis
  proof (cases r)
    case (Inl e)
    have "fst ?loop = Inl e" using loop Inl by simp
    from t0(3)[rule_format, OF this] obtain k l where kl0: "k < length ds" "2 \<le> l"
      "skeleton None evs = concat (map (tupleSkeleton (holiday s)) (take (k - 0) (drop 0 ds))) @
               take l (tupleSkeleton (holiday s) (ds ! k))"
      by blast
    have kl: "k < length ds" "2 \<le> l"
      "skeleton None evs = concat (map (tupleSkeleton (holiday s)) (take k ds)) @
               take l (tupleSkeleton (holiday s) (ds ! k))"
      using kl0 by simp_all
    have h: "handleForgeAssets env singleDesign s = (handleApiError e s2)\<lparr>isLoading := False\<rparr>"
      using hfa Inl by simp
    have f: "log (handleForgeAssets env singleDesign s) = log s @ evs"
      "error (handleForgeAssets env singleDesign s) \<noteq> None"
      "finalizedProducts (handleForgeAssets env singleDesign s) = []"
      "step (handleForgeAssets env singleDesign s) = step s"
      by (simp_all add: h handleApiError_def Let_def s2 s1_def)
    have bad: "\<exists>k l. k < length ds \<and> 2 \<le> l \<and>
            skeleton None evs =
              concat (map (tupleSkeleton (holiday s)) (take k ds)) @
              take l (tupleSkeleton (holiday s) (ds ! k))"
      using kl by (intro exI[of _ k] exI[of _ l]) (simp only: simp_thms)
    show ?thesis
      by (rule exI[of _ evs]) (simp only: f bad simp_thms)
  next
    case (Inr all)
    have "fst ?loop = Inr all" using loop Inr by simp
    from t0(2)[rule_format, OF this] have ok0:
      "skeleton None evs = concat (map (tupleSkeleton (holiday s)) (drop 0 ds))"
      "progressReports evs = concat (replicate (length ds - 0) (map (\<lambda>p. (p, 13)) [0..<14]))"
      "map itemOf all = map itemOf [] @ drop 0 ds"
      by blast+
    have ok:
      "skeleton None evs = concat (map (tupleSkeleton (holiday s)) ds)"
      "progressReports evs = concat (replicate (length ds) (map (\<lambda>p. (p, 13)) [0..<14]))"
      "map itemOf all = ds"
      using ok0 by (simp_all only: drop_0 diff_zero list.map append_Nil)
    have h: "handleForgeAssets env singleDesign s =
             (s2\<lparr>finalizedProducts := all, step := FINALIZE\<rparr>)\<lparr>isLoading := False\<rparr>"
      using hfa Inr by simp
    have f: "log (handleForgeAssets env singleDesign s) = log s @ evs"
      "error (handleForgeAssets env singleDesign s) = None"
      "finalizedProducts (handleForgeAssets env singleDesign s) = all"
      "step (handleForgeAssets env singleDesign s) = FINALIZE"
      by (simp_all add: h s2 s1_def)
    show ?thesis
      by (rule exI[of _ evs]) (simp only: f ok simp_thms not_None_eq option.distinct)
  qed
qed


lemma forgeLoop_step:
  "i < length ds \<Longrightarrow>
   forgeLoop env hol ds i acc s =
     (case tupleRun env hol ds i s of
        (Inl err, s2) \<Rightarrow> (Inl err, s2)
      | (Inr assets, s2) \<Rightarrow> forgeLoop env hol ds (i + 1) (acc @ [builtProduct (ds ! i) assets]) s2)"
  by (subst forgeLoop.simps) (simp add: tupleRun_def Let_def builtProduct_def split: prod.splits sum.splits)

lemma forgeLoop_stateBefore:
  "i \<le> length ds \<Longrightarrow>
   (\<forall>k e. i \<le> k \<and> k < length ds
         \<and> (\<forall>j. i \<le> j \<and> j < k \<longrightarrow> (\<exists>x. tupleResult env hol ds s0 j = Inr x))
         \<and> tupleResult env hol ds s0 k = Inl e \<longrightarrow>
      forgeLoop env hol ds i acc (stateBefore env hol ds s0 i) =
        (Inl e, stateBefore env hol ds s0 (Suc k)))
 \<and> ((\<forall>j. i \<le> j \<and> j < length ds \<longrightarrow> (\<exists>x. tupleResult env hol ds s0 j = Inr x)) \<longrightarrow>
      forgeLoop env hol ds i acc (stateBefore env hol ds s0 i) =
        (Inr (acc @ map (\<lambda>j. builtProduct (ds ! j) (projr (tupleResult env hol ds s0 j))) [i..<length ds]),
         stateBefore env hol ds s0 (length ds)))"
proof (induction "length ds - i" arbitrary: i acc)
  case 0
  then have i: "i = length ds" by simp
  have "forgeLoop env hol ds i acc (stateBefore env hol ds s0 i) =
          (Inr acc, stateBefore env hol ds s0 (length ds))"
    unfolding i by (subst forgeLoop.simps) simp
  then show ?case using i by simp
next
  case (Suc n)
  then have lt: "i < length ds" by simp
  define sb where "sb = stateBefore env hol ds s0 i"
  obtain r s2 where run: "tupleRun env hol ds i sb = (r, s2)" by (cases "tupleRun env hol ds i sb")
  have s2: "s2 = stateBefore env hol ds s0 (Suc i)" using run by (simp add: sb_def)
  have r: "tupleResult env hol ds s0 i = r" using run by (simp add: tupleResult_def sb_def)
  have n: "n = length ds - (i + 1)" and le: "i + 1 \<le> length ds" using Suc.hyps(2) lt by simp_all
  have unf: "forgeLoop env hol ds i acc sb =
     (case r of Inl err \<Rightarrow> (Inl err, s2)
      | Inr assets \<Rightarrow> forgeLoop env hol ds (i + 1) (acc @ [builtProduct (ds ! i) assets]) s2)"
    using forgeLoop_step[OF lt, of env hol acc sb] run by (simp split: sum.splits)
  have A: "forgeLoop env hol ds i acc sb = (Inl e, stateBefore env hol ds s0 (Suc k))"
    if k: "i \<le> k" "k < length ds"
      and before: "\<forall>j. i \<le> j \<and> j < k \<longrightarrow> (\<exists>x. tupleResult env hol ds s0 j = Inr x)"
      and fail: "tupleResult env hol ds s0 k = Inl e" for k e
  proof (cases "k = i")
    case True
    then have "r = Inl e" using fail r by simp
    then show ?thesis using unf s2 True by simp
  next
    case False
    then have ik: "i < k" using k(1) by simp
    with before obtain x where x: "r = Inr x" using r by auto
    have k1: "i + 1 \<le> k" using ik by simp
    have b1: "\<forall>j. i + 1 \<le> j \<and> j < k \<longrightarrow> (\<exists>x. tupleResult env hol ds s0 j = Inr x)"
      using before by simp
    from Suc.hyps(1)[OF n le, of "acc @ [builtProduct (ds ! i) x]"]
    have "forgeLoop env hol ds (i + 1) (acc @ [builtProduct (ds ! i) x]) (stateBefore env hol ds s0 (i + 1)) =
            (Inl e, stateBefore env hol ds s0 (Suc k))"
      using k1 k(2) b1 fail by blast
    then show ?thesis using unf x s2 by simp
  qed
  have B: "forgeLoop env hol ds i acc sb =
        (Inr (acc @ map (\<lambda>j. builtProduct (ds ! j) (projr (tupleResult env hol ds s0 j))) [i..<length ds]),
         stateBefore env hol ds s0 (length ds))"
    if all: "\<forall>j. i \<le> j \<and> j < length ds \<longrightarrow> (\<exists>x. tupleResult env hol ds s0 j = Inr x)"
  proof -
    from all lt obtain x where x: "r = Inr x" using r by auto
    have a1: "\<forall>j. i + 1 \<le> j \<and> j < length ds \<longrightarrow> (\<exists>x. tupleResult env hol ds s0 j = Inr x)"
      using all by simp
    from Suc.hyps(1)[OF n le, of "acc @ [builtProduct (ds ! i) x]"] a1
    have ih: "forgeLoop env hol ds (i + 1) (acc @ [builtProduct (ds ! i) x]) (stateBefore env hol ds s0 (i + 1)) =
        (Inr ((acc @ [builtProduct (ds ! i) x]) @
              map (\<lambda>j. builtProduct (ds ! j) (projr (tupleResult env hol ds s0 j))) [i + 1..<length ds]),
         stateBefore env hol ds s0 (length ds))"
      by blast
    have px: "projr (tupleResult env hol ds s0 i) = x" using r x by simp
    have "[i..<length ds] = i # [i + 1..<length ds]" using lt by (simp add: upt_conv_Cons)
    then have m: "map (\<lambda>j. builtProduct (ds ! j) (projr (tupleResult env hol ds s0 j))) [i..<length ds] =
        builtProduct (ds ! i) x # map (\<lambda>j. builtProduct (ds ! j) (projr (tupleResult env hol ds s0 j))) [i + 1..<length ds]"
      using px by simp
    show ?thesis using unf x s2 ih unfolding m by simp
  qed
  show ?case using A B unfolding sb_def by blast
qed

lemma stateBefore_step:
  assumes sb: "stateBefore env hol ds s k = s\<lparr>attempts := a, log := log s @ evs, loadingMessage := m\<rparr>"
  shows "\<exists>a' m' evs' l.
      stateBefore env hol ds s (Suc k) = s\<lparr>attempts := a', log := log s @ evs @ evs', loadingMessage := m'\<rparr>
    \<and> (\<exists>rest. evs' = Progress 0 13 # rest) \<and> 2 \<le> l
    \<and> skeleton None evs' = take l (tupleSkeleton hol (ds ! k))
    \<and> ((\<exists>x. tupleResult env hol ds s k = Inr x) \<longrightarrow> skeleton None evs' = tupleSkeleton hol (ds ! k))"
proof -
  define d where "d = ds ! k"
  define op where "op = overallProgressText k (length ds) d"
  define sk where "sk = (stateBefore env hol ds s k)\<lparr>loadingMessage := op\<rparr>"
  let ?run = "generateFinalAssets env (item_url d) (item_concept d) hol (item_productType d)
                (Some (progressCallback op)) sk"
  have tr: "tupleRun env hol ds k (stateBefore env hol ds s k) = ?run"
    by (simp add: tupleRun_def Let_def d_def op_def sk_def)
  from generateFinalAssets_trace[of env d hol op sk]
  obtain a' m' evs' l where t:
    "snd ?run = sk\<lparr>attempts := a', log := log sk @ evs', loadingMessage := m'\<rparr>"
    "\<exists>rest. evs' = Progress 0 13 # rest"
    "skeleton None evs' = take l (tupleSkeleton hol d)" "2 \<le> l"
    "(\<exists>x. fst ?run = Inr x) \<longrightarrow> skeleton None evs' = tupleSkeleton hol d"
    by blast
  have s': "stateBefore env hol ds s (Suc k) =
        s\<lparr>attempts := a', log := log s @ evs @ evs', loadingMessage := m'\<rparr>"
    by (simp add: tr t(1)) (simp add: sk_def sb)
  have res: "tupleResult env hol ds s k = fst ?run" by (simp add: tupleResult_def tr)
  show ?thesis
    apply (rule exI[of _ a'], rule exI[of _ m'], rule exI[of _ evs'], rule exI[of _ l])
    using s' t(2,3,4,5) unfolding res d_def apply (simp only: simp_thms)
    done
qed

lemma stateBefore_completed:
  "k \<le> length ds \<Longrightarrow> \<forall>j<k. \<exists>x. tupleResult env hol ds s j = Inr x \<Longrightarrow>
   \<exists>a m evs.
      stateBefore env hol ds s k = s\<lparr>attempts := a, log := log s @ evs, loadingMessage := m\<rparr>
    \<and> (evs = [] \<or> (\<exists>p t rest. evs = Progress p t # rest))
    \<and> skeleton None evs = concat (map (tupleSkeleton hol) (take k ds))"
proof (induction k)
  case 0
  have "stateBefore env hol ds s 0 = s\<lparr>attempts := attempts s, log := log s @ [], loadingMessage := loadingMessage s\<rparr>"
    by simp
  moreover have "skeleton None [] = concat (map (tupleSkeleton hol) (take 0 ds))" by simp
  ultimately show ?case by blast
next
  case (Suc k)
  then have lt: "k < length ds" and prev: "\<forall>j<k. \<exists>x. tupleResult env hol ds s j = Inr x"
    and okk: "\<exists>x. tupleResult env hol ds s k = Inr x" by simp_all
  from Suc.IH[OF _ prev] lt
  obtain a m evs where ih:
    "stateBefore env hol ds s k = s\<lparr>attempts := a, log := log s @ evs, loadingMessage := m\<rparr>"
    "evs = [] \<or> (\<exists>p t rest. evs = Progress p t # rest)"
    "skeleton None evs = concat (map (tupleSkeleton hol) (take k ds))"
    by auto
  from stateBefore_step[OF ih(1)] okk
  obtain a' m' evs' where st:
    "stateBefore env hol ds s (Suc k) = s\<lparr>attempts := a', log := log s @ evs @ evs', loadingMessage := m'\<rparr>"
    "\<exists>rest. evs' = Progress 0 13 # rest"
    "skeleton None evs' = tupleSkeleton hol (ds ! k)"
    by blast
  have ap: "skeleton None (evs @ evs') = skeleton None evs @ skeleton None evs'"
    using st(2) by (intro skeleton_append) blast
  have tk: "concat (map (tupleSkeleton hol) (take (Suc k) ds)) =
            concat (map (tupleSkeleton hol) (take k ds)) @ tupleSkeleton hol (ds ! k)"
    using lt by (simp add: take_Suc_conv_app_nth)
  have c1: "stateBefore env hol ds s (Suc k) =
              s\<lparr>attempts := a', log := log s @ (evs @ evs'), loadingMessage := m'\<rparr>"
    using st(1) by simp
  have c2: "evs @ evs' = [] \<or> (\<exists>p t rest. evs @ evs' = Progress p t # rest)"
    using ih(2) st(2) by auto
  have c3: "skeleton None (evs @ evs') = concat (map (tupleSkeleton hol) (take (Suc k) ds))"
    unfolding ap tk ih(3) st(3) ..
  show ?case
    apply (rule exI[of _ a'], rule exI[of _ m'], rule exI[of _ "evs @ evs'"])
    using c1 c2 c3 apply (simp only: simp_thms)
    done
qed

lemma stateBefore_stopped:
  assumes lt: "k < length ds" and prev: "\<forall>j<k. \<exists>x. tupleResult env hol ds s j = Inr x"
  shows "\<exists>a m evs l.
      stateBefore env hol ds s (Suc k) = s\<lparr>attempts := a, log := log s @ evs, loadingMessage := m\<rparr>
    \<and> 2 \<le> l
    \<and> skeleton None evs =
        concat (map (tupleSkeleton hol) (take k ds)) @ take l (tupleSkeleton hol (ds ! k))
    \<and> copyRequests (skeleton None evs) = map item_concept (take (Suc k) ds)"
proof -
  from stateBefore_completed[OF _ prev] lt
  obtain a m evs where ih:
    "stateBefore env hol ds s k = s\<lparr>attempts := a, log := log s @ evs, loadingMessage := m\<rparr>"
    "skeleton None evs = concat (map (tupleSkeleton hol) (take k ds))"
    by auto
  from stateBefore_step[OF ih(1)]
  obtain a' m' evs' l where st:
    "stateBefore env hol ds s (Suc k) = s\<lparr>attempts := a', log := log s @ evs @ evs', loadingMessage := m'\<rparr>"
    "\<exists>rest. evs' = Progress 0 13 # rest" "2 \<le> l"
    "skeleton None evs' = take l (tupleSkeleton hol (ds ! k))"
    by blast
  have ap: "skeleton None (evs @ evs') = skeleton None evs @ skeleton None evs'"
    using st(2) by (intro skeleton_append) blast
  have c1: "stateBefore env hol ds s (Suc k) =
              s\<lparr>attempts := a', log := log s @ (evs @ evs'), loadingMessage := m'\<rparr>"
    using st(1) by simp
  have c3: "skeleton None (evs @ evs') =
        concat (map (tupleSkeleton hol) (take k ds)) @ take l (tupleSkeleton hol (ds ! k))"
    unfolding ap ih(2) st(4) ..
  have c4: "copyRequests (skeleton None (evs @ evs')) = map item_concept (take (Suc k) ds)"
    unfolding c3 using lt st(3)
    by (simp add: copyRequests_append copyRequests_tuples copyRequests_tupleSkeleton_take
        take_Suc_conv_app_nth)
  show ?thesis
    apply (rule exI[of _ a'], rule exI[of _ m'], rule exI[of _ "evs @ evs'"], rule exI[of _ l])
    using c1 st(3) c3 c4 apply (simp only: simp_thms)
    done
qed

lemma first_failing_tuple:
  "(\<exists>k<(n::nat). (\<forall>j<k. \<exists>x. f j = Inr x) \<and> (\<exists>e. f k = Inl e)) \<or> (\<forall>j<n. \<exists>x. f j = Inr x)"
proof (cases "\<forall>j<n. \<exists>x. f j = Inr x")
  case True
  then show ?thesis by blast
next
  case False
  then have "\<exists>k. k < n \<and> (\<exists>e. f k = Inl e)"
    by (metis sum.exhaust)
  then obtain k where k: "k < n \<and> (\<exists>e. f k = Inl e)" "\<forall>j<k. \<not> (j < n \<and> (\<exists>e. f j = Inl e))"
    using exists_least_iff[of "\<lambda>k. k < n \<and> (\<exists>e. f k = Inl e)"] by blast
  have "\<forall>j<k. \<exists>x. f j = Inr x"
  proof (intro allI impI)
    fix j assume "j < k"
    then have "j < n" "\<not> (\<exists>e. f j = Inl e)" using k by auto
    then show "\<exists>x. f j = Inr x" by (cases "f j") auto
  qed
  then show ?thesis using k(1) by blast
qed

lemma itemOf_builtProduct: "itemOf (builtProduct d x) = d"
  by (simp add: itemOf_def builtProduct_def)

text \<open>
  C4. The orchestrator works through the tuples in input order and stops at the first one
  that fails. Let \<open>s1\<close> be the session state once the loading flag is set and the
  finalized products are cleared. If tuple \<open>k\<close> is the first that fails (every tuple before
  it returned its assets), the orchestrator ends in the state in which the run of tuple
  \<open>k\<close> ended, with the error message of that failure set: nothing is attempted or logged
  after it, the list of finalized products is empty (the outputs of the tuples completed
  before are dropped) and the step does not change; the skeleton of the trace is the whole
  trace of the tuples before \<open>k\<close> followed by a prefix of the trace of tuple \<open>k\<close>, and
  the listing-copy requests are those of tuples \<open>0, ..., k\<close> in order, so no later tuple
  is started. If no tuple fails, every tuple is processed in order, the finalized products
  are those built from the tuples in order, and the step becomes \<open>FINALIZE\<close>. One of
  the two is always the case.
\<close>

theorem forge_batch_all_or_nothing:
  assumes ds: "ds = (case singleDesign of Some d \<Rightarrow> [d] | None \<Rightarrow> selectedDesigns s)"
    and ne: "ds \<noteq> []"
    and s1: "s1 = s\<lparr>isLoading := True, error := None, finalizedProducts := []\<rparr>"
  shows "(\<forall>k e. k < length ds
              \<and> (\<forall>j<k. \<exists>x. tupleResult env (holiday s) ds s1 j = Inr x)
              \<and> tupleResult env (holiday s) ds s1 k = Inl e \<longrightarrow>
            handleForgeAssets env singleDesign s =
              (stateBefore env (holiday s) ds s1 (Suc k))
                \<lparr>error := Some (if instanceOfError e then toString (err_message e) else err_string e),
                 isLoading := False\<rparr>
          \<and> finalizedProducts (handleForgeAssets env singleDesign s) = []
          \<and> step (handleForgeAssets env singleDesign s) = step s
          \<and> (\<exists>evs l. log (handleForgeAssets env singleDesign s) = log s @ evs \<and> 2 \<le> l
                \<and> skeleton None evs =
                    concat (map (tupleSkeleton (holiday s)) (take k ds)) @
                    take l (tupleSkeleton (holiday s) (ds ! k))
                \<and> copyRequests (skeleton None evs) = map item_concept (take (Suc k) ds)))
       \<and> ((\<forall>j<length ds. \<exists>x. tupleResult env (holiday s) ds s1 j = Inr x) \<longrightarrow>
            handleForgeAssets env singleDesign s =
              (stateBefore env (holiday s) ds s1 (length ds))
                \<lparr>finalizedProducts :=
                   map (\<lambda>j. builtProduct (ds ! j) (projr (tupleResult env (holiday s) ds s1 j)))
                     [0..<length ds],
                 step := FINALIZE, isLoading := False\<rparr>
          \<and> error (handleForgeAssets env singleDesign s) = None
          \<and> map itemOf (finalizedProducts (handleForgeAssets env singleDesign s)) = ds
          \<and> (\<exists>evs. log (handleForgeAssets env singleDesign s) = log s @ evs
                \<and> skeleton None evs = concat (map (tupleSkeleton (holiday s)) ds)
                \<and> copyRequests (skeleton None evs) = map item_concept ds))
       \<and> ((\<exists>k<length ds. (\<forall>j<k. \<exists>x. tupleResult env (holiday s) ds s1 j = Inr x)
                          \<and> (\<exists>e. tupleResult env (holiday s) ds s1 k = Inl e))
          \<or> (\<forall>j<length ds. \<exists>x. tupleResult env (holiday s) ds s1 j = Inr x))"
proof -
  let ?hol = "holiday s"
  let ?s' = "handleForgeAssets env singleDesign s"
  let ?res = "tupleResult env ?hol ds s1"
  let ?sb = "stateBefore env ?hol ds s1"
  let ?loop = "forgeLoop env ?hol ds 0 [] s1"
  have hfa: "?s' =
      (case ?loop of
         (Inr allFinalAssets, s2) \<Rightarrow> (s2\<lparr>finalizedProducts := allFinalAssets, step := FINALIZE\<rparr>)\<lparr>isLoading := False\<rparr>
       | (Inl e, s2) \<Rightarrow> (handleApiError e s2)\<lparr>isLoading := False\<rparr>)"
    using ds ne unfolding s1 by (simp add: handleForgeAssets_def Let_def)
  have fl0: "0 \<le> length ds" by simp
  note fl = forgeLoop_stateBefore[OF fl0, of env ?hol s1 "[]"]
  have flA: "?loop = (Inl e, ?sb (Suc k))"
    if "k < length ds" "\<forall>j<k. \<exists>x. ?res j = Inr x" "?res k = Inl e" for k e
  proof -
    have "0 \<le> k \<and> k < length ds \<and> (\<forall>j. 0 \<le> j \<and> j < k \<longrightarrow> (\<exists>x. ?res j = Inr x)) \<and> ?res k = Inl e"
      using that by (simp only: le0 simp_thms)
    with fl[THEN conjunct1, rule_format, of k e]
    have "forgeLoop env ?hol ds 0 [] (?sb 0) = (Inl e, ?sb (Suc k))" by blast
    then show ?thesis by (simp only: stateBefore.simps)
  qed
  have flB: "?loop = (Inr (map (\<lambda>j. builtProduct (ds ! j) (projr (?res j))) [0..<length ds]), ?sb (length ds))"
    if "\<forall>j<length ds. \<exists>x. ?res j = Inr x"
  proof -
    have "\<forall>j. 0 \<le> j \<and> j < length ds \<longrightarrow> (\<exists>x. ?res j = Inr x)"
      using that by (simp only: le0 simp_thms)
    with fl[THEN conjunct2]
    have "forgeLoop env ?hol ds 0 [] (?sb 0) =
            (Inr ([] @ map (\<lambda>j. builtProduct (ds ! j) (projr (?res j))) [0..<length ds]), ?sb (length ds))"
      by blast
    then show ?thesis by (simp only: stateBefore.simps append_Nil)
  qed
  have F: "?s' = (?sb (Suc k))\<lparr>error := Some (if instanceOfError e then toString (err_message e) else err_string e),
                 isLoading := False\<rparr>
          \<and> finalizedProducts ?s' = []
          \<and> step ?s' = step s
          \<and> (\<exists>evs l. log ?s' = log s @ evs \<and> 2 \<le> l
                \<and> skeleton None evs =
                    concat (map (tupleSkeleton ?hol) (take k ds)) @ take l (tupleSkeleton ?hol (ds ! k))
                \<and> copyRequests (skeleton None evs) = map item_concept (take (Suc k) ds))"
    if k: "k < length ds" and before: "\<forall>j<k. \<exists>x. ?res j = Inr x" and fail: "?res k = Inl e" for k e
  proof -
    have loop: "?loop = (Inl e, ?sb (Suc k))"
      using k before fail by (rule flA)
    define sk where "sk = ?sb (Suc k)"
    from stateBefore_stopped[OF k before]
    obtain a m evs l where st:
      "sk = s1\<lparr>attempts := a, log := log s1 @ evs, loadingMessage := m\<rparr>"
      "2 \<le> l"
      "skeleton None evs =
         concat (map (tupleSkeleton ?hol) (take k ds)) @ take l (tupleSkeleton ?hol (ds ! k))"
      "copyRequests (skeleton None evs) = map item_concept (take (Suc k) ds)"
      unfolding sk_def by blast
    have h: "?s' = sk\<lparr>error := Some (if instanceOfError e then toString (err_message e) else err_string e),
                 isLoading := False\<rparr>"
      unfolding hfa loop sk_def[symmetric] by (simp add: handleApiError_def Let_def)
    have f: "finalizedProducts ?s' = []" "step ?s' = step s" "log ?s' = log s @ evs"
      unfolding h st(1) s1 by simp_all
    have tr: "\<exists>evs l. log ?s' = log s @ evs \<and> 2 \<le> l
                \<and> skeleton None evs =
                    concat (map (tupleSkeleton ?hol) (take k ds)) @ take l (tupleSkeleton ?hol (ds ! k))
                \<and> copyRequests (skeleton None evs) = map item_concept (take (Suc k) ds)"
      apply (rule exI[of _ evs], rule exI[of _ l])
      using f(3) st(2,3,4) apply (simp only: simp_thms)
      done
    show ?thesis using h f(1,2) tr unfolding sk_def by (simp only: simp_thms)
  qed
  have S: "?s' = (?sb (length ds))
                \<lparr>finalizedProducts :=
                   map (\<lambda>j. builtProduct (ds ! j) (projr (?res j))) [0..<length ds],
                 step := FINALIZE, isLoading := False\<rparr>
          \<and> error ?s' = None
          \<and> map itemOf (finalizedProducts ?s') = ds
          \<and> (\<exists>evs. log ?s' = log s @ evs
                \<and> skeleton None evs = concat (map (tupleSkeleton ?hol) ds)
                \<and> copyRequests (skeleton None evs) = map item_concept ds)"
    if all: "\<forall>j<length ds. \<exists>x. ?res j = Inr x"
  proof -
    define products where
      "products = map (\<lambda>j. builtProduct (ds ! j) (projr (?res j))) [0..<length ds]"
    have loop: "?loop = (Inr products, ?sb (length ds))"
      unfolding products_def using all by (rule flB)
    define sn where "sn = ?sb (length ds)"
    from stateBefore_completed[OF le_refl all]
    obtain a m evs where st:
      "sn = s1\<lparr>attempts := a, log := log s1 @ evs, loadingMessage := m\<rparr>"
      "skeleton None evs = concat (map (tupleSkeleton ?hol) (take (length ds) ds))"
      unfolding sn_def by blast
    have h: "?s' = sn\<lparr>finalizedProducts := products, step := FINALIZE, isLoading := False\<rparr>"
      unfolding hfa loop sn_def[symmetric] by simp
    have f: "error ?s' = None" "finalizedProducts ?s' = products" "log ?s' = log s @ evs"
      unfolding h st(1) s1 by simp_all
    have "map itemOf products = map (\<lambda>j. ds ! j) [0..<length ds]"
      unfolding products_def by (simp add: itemOf_builtProduct)
    then have it: "map itemOf (finalizedProducts ?s') = ds"
      unfolding f(2) by (simp add: map_nth)
    have sk: "skeleton None evs = concat (map (tupleSkeleton ?hol) ds)"
      using st(2) by simp
    have cr: "copyRequests (skeleton None evs) = map item_concept ds"
      unfolding sk by (rule copyRequests_tuples)
    have tr: "\<exists>evs. log ?s' = log s @ evs
                \<and> skeleton None evs = concat (map (tupleSkeleton ?hol) ds)
                \<and> copyRequests (skeleton None evs) = map item_concept ds"
      apply (rule exI[of _ evs])
      using f(3) sk cr apply (simp only: simp_thms)
      done
    show ?thesis using h f(1) it tr unfolding sn_def products_def by (simp only: simp_thms)
  qed
  show ?thesis
    using F S first_failing_tuple[of "length ds" ?res] by blast
qed


text \<open>
  C3 (as amended). For a batch that completes, the progress callback receives, for each
  tuple in turn, the pairs (0, 13), (1, 13), ..., (13, 13), where 13 is one listing-copy
  step plus the 12 mockup steps of one tuple: the counter restarts at 0 for every tuple and
  the total is that of one tuple. Report 0 precedes the listing-copy request, report 1
  follows it, and report \<open>q + 2\<close> precedes the mockup request of scene prompt \<open>q\<close>.
\<close>

theorem progress_restarts_for_each_tuple:
  assumes "ds = (case singleDesign of Some d \<Rightarrow> [d] | None \<Rightarrow> selectedDesigns s)"
    and "ds \<noteq> []"
    and "error (handleForgeAssets env singleDesign s) = None"
  shows "\<exists>evs.
     log (handleForgeAssets env singleDesign s) = log s @ evs
   \<and> progressReports evs = concat (replicate (length ds) (map (\<lambda>p. (p, 13)) [0..<14]))
   \<and> skeleton None evs = concat (map (tupleSkeleton (holiday s)) ds)
   \<and> (\<forall>d \<in> set ds. length (getMockupPrompts (item_productType d) (item_concept d) (holiday s)) + 1 = 13)"
proof -
  let ?s' = "handleForgeAssets env singleDesign s"
  let ?ts = "tupleSkeleton (holiday s)"
  from handleForgeAssets_trace[OF assms(1,2), of env]
  obtain evs where t0:
    "log ?s' = log s @ evs
   \<and> (error ?s' = None \<longrightarrow>
        step ?s' = FINALIZE
      \<and> map itemOf (finalizedProducts ?s') = ds
      \<and> skeleton None evs = concat (map ?ts ds)
      \<and> progressReports evs = concat (replicate (length ds) (map (\<lambda>p. (p, 13)) [0..<14])))
   \<and> (error ?s' \<noteq> None \<longrightarrow>
        finalizedProducts ?s' = []
      \<and> step ?s' = step s
      \<and> (\<exists>k l. k < length ds \<and> 2 \<le> l \<and>
            skeleton None evs = concat (map ?ts (take k ds)) @ take l (?ts (ds ! k))))" ..
  have "log (handleForgeAssets env singleDesign s) = log s @ evs"
    "progressReports evs = concat (replicate (length ds) (map (\<lambda>p. (p, 13)) [0..<14]))"
    "skeleton None evs = concat (map (tupleSkeleton (holiday s)) ds)"
    using t0 assms(3) by blast+
  moreover have "\<forall>d \<in> set ds. length (getMockupPrompts (item_productType d) (item_concept d) (holiday s)) + 1 = 13"
    by (simp add: length_getMockupPrompts)
  ultimately show ?thesis by (intro exI[of _ evs]) (simp only: simp_thms)
qed

lemma mockupLoop_good:
  assumes good: "\<forall>k. \<exists>r t cp img. ai env k = Inr r \<and> resp_text r = Some t \<and>
                    parseJson env (trim t) = Inr cp \<and> extractImage r = Inr (Some img)"
  shows "\<exists>u. fst (mockupLoop env dp ps onP T N i urls s) = Inr u \<and> (N \<le> i \<longrightarrow> u = urls) \<and> (i < N \<longrightarrow> u \<noteq> [])"
proof (induction "N - i" arbitrary: i urls s)
  case 0
  then show ?case by (simp add: mockupLoop.simps)
next
  case (Suc k)
  then have lt: "i < N" by simp
  let ?s1 = "report onP (i + 2) T s"
  from good obtain r img where r: "ai env (attempts ?s1) = Inr r" "extractImage r = Inr (Some img)"
    by blast
  let ?s2 = "?s1\<lparr>attempts := attempts ?s1 + 1, log := log ?s1 @ [Generate (MockupRequest dp (ps ! i))]\<rparr>"
  define s3 where "s3 = (if i < N - 1 then sleep 1500 ?s2 else ?s2)"
  let ?urls = "urls @ [''data:image/jpeg;base64,'' @ img]"
  have w: "withRetry (generateContent env (MockupRequest dp (ps ! i))) defaultMaxRetries defaultInitialDelay ?s1
             = (Inr r, ?s2)"
    using r(1) by (rule withRetry_first_try)
  have step: "mockupLoop env dp ps onP T N i urls s = mockupLoop env dp ps onP T N (i + 1) ?urls s3"
    using lt w r(2) unfolding s3_def by (subst mockupLoop.simps) (simp add: Let_def)
  have k: "k = N - (i + 1)" using Suc.hyps(2) by simp
  from Suc.hyps(1)[OF k, of ?urls s3]
  obtain u where u: "fst (mockupLoop env dp ps onP T N (i + 1) ?urls s3) = Inr u"
    "N \<le> i + 1 \<longrightarrow> u = ?urls" "i + 1 < N \<longrightarrow> u \<noteq> []"
    by blast
  have "u \<noteq> []" using u(2,3) by (cases "i + 1 < N") auto
  then show ?case using u(1) lt by (simp add: step)
qed


lemma generateFinalAssets_good:
  assumes good: "\<forall>k. \<exists>r t cp img. ai env k = Inr r \<and> resp_text r = Some t \<and>
                    parseJson env (trim t) = Inr cp \<and> extractImage r = Inr (Some img)"
    and url: "base64ToPart url = Inr dp"
  shows "\<exists>x. fst (generateFinalAssets env url c hol pt onP s) = Inr x"
proof -
  let ?ps = "getMockupPrompts pt c hol"
  let ?s0 = "report onP 0 13 s"
  from good obtain r t cp where r: "ai env (attempts ?s0) = Inr r" "resp_text r = Some t"
    "parseJson env (trim t) = Inr cp"
    by blast
  let ?s1 = "?s0\<lparr>attempts := attempts ?s0 + 1, log := log ?s0 @ [Generate (ListingCopyRequest c)]\<rparr>"
  have "withRetry (generateContent env (ListingCopyRequest c)) defaultMaxRetries defaultInitialDelay ?s0
          = (Inr r, ?s1)"
    using r(1) by (rule withRetry_first_try)
  then have lc: "generateListingCopy env c ?s0 = (Inr cp, ?s1)"
    using r(2,3) by (simp add: generateListingCopy_def)
  define s2 where "s2 = report onP 1 13 ?s1"
  from mockupLoop_good[OF good, of dp ?ps onP 13 12 0 "[]" s2]
  obtain u where u: "fst (mockupLoop env dp ?ps onP 13 12 0 [] s2) = Inr u" "u \<noteq> []"
    by auto
  obtain s3 where m: "mockupLoop env dp ?ps onP 13 12 0 [] s2 = (Inr u, s3)"
    using u(1) by (cases "mockupLoop env dp ?ps onP 13 12 0 [] s2") simp
  have "fst (generateFinalAssets env url c hol pt onP s) = Inr (u, cp)"
    using lc url m u(2) unfolding s2_def
    by (simp add: generateFinalAssets_def Let_def length_getMockupPrompts)
  then show ?thesis by blast
qed


lemma forgeLoop_good:
  assumes good: "\<forall>k. \<exists>r t cp img. ai env k = Inr r \<and> resp_text r = Some t \<and>
                    parseJson env (trim t) = Inr cp \<and> extractImage r = Inr (Some img)"
    and urls: "\<forall>d \<in> set ds. \<exists>dp. base64ToPart (item_url d) = Inr dp"
  shows "\<exists>all. fst (forgeLoop env hol ds i acc s) = Inr all"
proof (induction "length ds - i" arbitrary: i acc s)
  case 0
  then show ?case by (simp add: forgeLoop.simps)
next
  case (Suc n)
  then have lt: "i < length ds" by simp
  define d where "d = ds ! i"
  define op where "op = overallProgressText i (length ds) d"
  define s1 where "s1 = s\<lparr>loadingMessage := op\<rparr>"
  have "d \<in> set ds" using lt by (simp add: d_def)
  with urls obtain dp where dp: "base64ToPart (item_url d) = Inr dp" by blast
  let ?run = "generateFinalAssets env (item_url d) (item_concept d) hol (item_productType d)
                (Some (progressCallback op)) s1"
  from generateFinalAssets_good[OF good dp] obtain x where x: "fst ?run = Inr x" by blast
  obtain ms cp where mc: "x = (ms, cp)" by (cases x)
  obtain s2 where run: "?run = (Inr (ms, cp), s2)" using x mc by (cases ?run) simp
  define acc' where "acc' = acc @ [\<lparr>concept = item_concept d, designUrl = item_url d,
                       mockups = ms, listingCopy = cp,
                       productType = item_productType d, printifyId = None\<rparr>]"
  have res: "forgeLoop env hol ds i acc s = forgeLoop env hol ds (i + 1) acc' s2"
    using lt run unfolding d_def op_def s1_def acc'_def
    by (subst forgeLoop.simps) (simp add: Let_def)
  have n: "n = length ds - (i + 1)" using Suc.hyps(2) by simp
  show ?case unfolding res by (rule Suc.hyps(1)[OF n])
qed


lemma handleForgeAssets_good:
  assumes good: "\<forall>k. \<exists>r t cp img. ai env k = Inr r \<and> resp_text r = Some t \<and>
                    parseJson env (trim t) = Inr cp \<and> extractImage r = Inr (Some img)"
    and ds: "ds = (case singleDesign of Some d \<Rightarrow> [d] | None \<Rightarrow> selectedDesigns s)"
    and urls: "\<forall>d \<in> set ds. \<exists>dp. base64ToPart (item_url d) = Inr dp"
  shows "error (handleForgeAssets env singleDesign s) = None \<or> ds = []"
proof (cases "ds = []")
  case True
  then show ?thesis by simp
next
  case False
  define s1 where "s1 = s\<lparr>isLoading := True, error := None, finalizedProducts := []\<rparr>"
  let ?loop = "forgeLoop env (holiday s) ds 0 [] s1"
  from forgeLoop_good[OF good urls] obtain all where "fst ?loop = Inr all" by blast
  then obtain s2 where loop: "?loop = (Inr all, s2)" by (cases ?loop) simp
  from forgeLoop_trace[of 0 ds env "holiday s" "[]" s1] loop
  obtain a m evs where "s2 = s1\<lparr>attempts := a, log := log s1 @ evs, loadingMessage := m\<rparr>"
    by auto
  then have "error s2 = None" by (simp add: s1_def)
  moreover have "handleForgeAssets env singleDesign s =
             (s2\<lparr>finalizedProducts := all, step := FINALIZE\<rparr>)\<lparr>isLoading := False\<rparr>"
    using ds False loop unfolding s1_def by (simp add: handleForgeAssets_def Let_def)
  ultimately show ?thesis by simp
qed


lemma example_good:
  "\<forall>k. \<exists>r t cp img. ai shopEnv k = Inr r \<and> resp_text r = Some t \<and>
        parseJson shopEnv (trim t) = Inr cp \<and> extractImage r = Inr (Some img)"
  by (simp add: shopEnv_def exampleResponse_def extractImage_def)


lemma example_secondPart:
  "base64ToPart ''data:image/png;base64,CCCC'' = Inr \<lparr>mimeType = ''image/png'', data = ''CCCC''\<rparr>"
  by code_simp


lemma example_batch:
  "[firstItem, secondItem] = (case None of Some d \<Rightarrow> [d] | None \<Rightarrow> selectedDesigns batchState)"
  "\<forall>d \<in> set [firstItem, secondItem]. \<exists>dp. base64ToPart (item_url d) = Inr dp"
  by (simp_all add: batchState_def firstItem_def secondItem_def example_designPart example_secondPart)


lemma example_batch_ok: "error (handleForgeAssets shopEnv None batchState) = None"
  using handleForgeAssets_good[OF example_good example_batch] by simp

theorem progress_restarts_for_each_tuple_witness:
  "progressReports (log (handleForgeAssets shopEnv None batchState)) =
     concat (replicate 2 (map (\<lambda>p. (p, 13)) [0..<14]))"
proof -
  have ne: "[firstItem, secondItem] \<noteq> []" by simp
  have l0: "log batchState = []" by (simp add: batchState_def exampleState_def)
  from progress_restarts_for_each_tuple[OF example_batch(1) ne example_batch_ok]
  obtain evs where "log (handleForgeAssets shopEnv None batchState) = log batchState @ evs"
    "progressReports evs = concat (replicate (length [firstItem, secondItem]) (map (\<lambda>p. (p, 13)) [0..<14]))"
    by blast
  then show ?thesis by (simp add: l0 numeral_2_eq_2)
qed


lemma example_batch_trace:
  "\<exists>evs. log (handleForgeAssets shopEnv None batchState) = evs \<and>
     progressReports evs = concat (replicate (length [firstItem, secondItem]) (map (\<lambda>p. (p, 13)) [0..<14]))
   \<and> skeleton None evs = concat (map (tupleSkeleton (holiday batchState)) [firstItem, secondItem])"
proof -
  let ?s' = "handleForgeAssets shopEnv None batchState"
  have ne: "[firstItem, secondItem] \<noteq> []" by simp
  have l0: "log batchState = []" by (simp add: batchState_def exampleState_def)
  have hol: "holiday batchState = ''Christmas''" by (simp add: batchState_def exampleState_def)
  from handleForgeAssets_trace[OF example_batch(1) ne, of shopEnv]
  obtain evs where t0:
    "log ?s' = log batchState @ evs
   \<and> (error ?s' = None \<longrightarrow>
        step ?s' = FINALIZE
      \<and> map itemOf (finalizedProducts ?s') = [firstItem, secondItem]
      \<and> skeleton None evs = concat (map (tupleSkeleton (holiday batchState)) [firstItem, secondItem])
      \<and> progressReports evs = concat (replicate (length [firstItem, secondItem]) (map (\<lambda>p. (p, 13)) [0..<14])))
   \<and> (error ?s' \<noteq> None \<longrightarrow>
        finalizedProducts ?s' = []
      \<and> step ?s' = step batchState
      \<and> (\<exists>k l. k < length [firstItem, secondItem] \<and> 2 \<le> l \<and>
            skeleton None evs = concat (map (tupleSkeleton (holiday batchState)) (take k [firstItem, secondItem])) @
              take l (tupleSkeleton (holiday batchState) ([firstItem, secondItem] ! k))))" ..
  have lg: "log ?s' = evs" using t0[THEN conjunct1] l0 by simp
  note ok = t0[THEN conjunct2, THEN conjunct1, rule_format, OF example_batch_ok]
  have pr: "progressReports evs = concat (replicate (length [firstItem, secondItem]) (map (\<lambda>p. (p, 13)) [0..<14]))"
    and sk: "skeleton None evs = concat (map (tupleSkeleton (holiday batchState)) [firstItem, secondItem])"
    using ok by (simp_all only: simp_thms)
  show ?thesis using lg pr sk by blast
qed




lemma example_batch_reports:
  "progressReports (log (handleForgeAssets shopEnv None batchState)) =
     map (\<lambda>p. (p, 13)) [0..<14] @ map (\<lambda>p. (p, 13)) [0..<14]"
proof -
  from example_batch_trace obtain evs where e: "log (handleForgeAssets shopEnv None batchState) = evs"
    "progressReports evs = concat (replicate (length [firstItem, secondItem]) (map (\<lambda>p. (p, 13)) [0..<14]))"
    by blast
  have "concat (replicate (length [firstItem, secondItem]) (map (\<lambda>p. (p, 13::nat)) [0..<14])) =
        map (\<lambda>p. (p, 13)) [0..<14] @ map (\<lambda>p. (p, 13)) [0..<14]"
    by (simp add: numeral_2_eq_2)
  then show ?thesis using e by simp
qed


lemma example_batch_last:
  "\<exists>pre. skeleton None (log (handleForgeAssets shopEnv None batchState)) =
          pre @ [Progress 13 13,
                 Generate (MockupRequest \<lparr>mimeType = ''image/png'', data = ''CCCC''\<rparr>
                   (getMockupPrompts Hoodie (item_concept secondItem) ''Christmas'' ! 11))]"
proof -
  let ?ps = "getMockupPrompts Hoodie (item_concept secondItem) ''Christmas''"
  let ?dp = "\<lparr>mimeType = ''image/png'', data = ''CCCC''\<rparr>"
  let ?f = "\<lambda>q. [Progress (q + 2) 13, Generate (MockupRequest ?dp (?ps ! q))]"
  let ?front = "Progress 0 13 # Generate (ListingCopyRequest (item_concept secondItem)) # Progress 1 13 #
        concat (map ?f [0..<11])"
  let ?ending = "[Progress 13 13, Generate (MockupRequest ?dp (?ps ! 11))]"
  have hol: "holiday batchState = ''Christmas''" by (simp add: batchState_def exampleState_def)
  from example_batch_trace obtain evs where e: "log (handleForgeAssets shopEnv None batchState) = evs"
    "skeleton None evs = concat (map (tupleSkeleton (holiday batchState)) [firstItem, secondItem])"
    by blast
  have u: "[0..<12] = [0..<11] @ [11::nat]" by code_simp
  have ts2: "tupleSkeleton ''Christmas'' secondItem = ?front @ ?ending"
    unfolding tupleSkeleton_def Let_def length_getMockupPrompts
    by (simp add: secondItem_def example_secondPart u del: upt_Suc)
  have "concat (map (tupleSkeleton ''Christmas'') [firstItem, secondItem]) =
          tupleSkeleton ''Christmas'' firstItem @ tupleSkeleton ''Christmas'' secondItem"
    by simp
  then have "skeleton None (log (handleForgeAssets shopEnv None batchState)) =
      (tupleSkeleton ''Christmas'' firstItem @ ?front) @ ?ending"
    by (simp only: e hol ts2 append_assoc)
  then show ?thesis by (rule exI[of _ "tupleSkeleton ''Christmas'' firstItem @ ?front"])
qed


text \<open>
  C3 as stated fails: for a batch of two tuples that completes, the reports are
  (0, 13), ..., (13, 13) twice. The sequence is not increasing, the total is 13 and not 26,
  and the last report (13, 13) is delivered before the last mockup request is sent, not
  after that step completes.
\<close>


theorem progress_counter_counterexample:
  "progressReports (log (handleForgeAssets shopEnv None batchState)) =
     map (\<lambda>p. (p, 13)) [0..<14] @ map (\<lambda>p. (p, 13)) [0..<14]
   \<and> \<not> sorted_wrt (\<lambda>a b. fst a < fst b) (map (\<lambda>p. (p, 13::nat)) [0..<14] @ map (\<lambda>p. (p, 13)) [0..<14])
   \<and> (26, 26) \<notin> set (map (\<lambda>p. (p, 13::nat)) [0..<14] @ map (\<lambda>p. (p, 13)) [0..<14])
   \<and> (\<exists>pre. skeleton None (log (handleForgeAssets shopEnv None batchState)) =
          pre @ [Progress 13 13,
                 Generate (MockupRequest \<lparr>mimeType = ''image/png'', data = ''CCCC''\<rparr>
                   (getMockupPrompts Hoodie (item_concept secondItem) ''Christmas'' ! 11))])"
proof (intro conjI)
  show "progressReports (log (handleForgeAssets shopEnv None batchState)) =
     map (\<lambda>p. (p, 13)) [0..<14] @ map (\<lambda>p. (p, 13)) [0..<14]"
    by (rule example_batch_reports)
  show "\<not> sorted_wrt (\<lambda>a b. fst a < fst b) (map (\<lambda>p. (p, 13::nat)) [0..<14] @ map (\<lambda>p. (p, 13)) [0..<14])"
    by code_simp
  show "(26, 26) \<notin> set (map (\<lambda>p. (p, 13::nat)) [0..<14] @ map (\<lambda>p. (p, 13)) [0..<14])"
    by auto
  show "\<exists>pre. skeleton None (log (handleForgeAssets shopEnv None batchState)) =
          pre @ [Progress 13 13,
                 Generate (MockupRequest \<lparr>mimeType = ''image/png'', data = ''CCCC''\<rparr>
                   (getMockupPrompts Hoodie (item_concept secondItem) ''Christmas'' ! 11))]"
    by (rule example_batch_last)
qed


lemma generateFinalAssets_bad_url:
  assumes good: "\<forall>k. \<exists>r t cp img. ai env k = Inr r \<and> resp_text r = Some t \<and>
                    parseJson env (trim t) = Inr cp \<and> extractImage r = Inr (Some img)"
    and url: "base64ToPart url = Inl e"
  shows "fst (generateFinalAssets env url c hol pt onP s) = Inl e"
proof -
  let ?s0 = "report onP 0 13 s"
  from good obtain r t cp where r: "ai env (attempts ?s0) = Inr r" "resp_text r = Some t"
    "parseJson env (trim t) = Inr cp"
    by blast
  let ?s1 = "?s0\<lparr>attempts := attempts ?s0 + 1, log := log ?s0 @ [Generate (ListingCopyRequest c)]\<rparr>"
  have "withRetry (generateContent env (ListingCopyRequest c)) defaultMaxRetries defaultInitialDelay ?s0
          = (Inr r, ?s1)"
    using r(1) by (rule withRetry_first_try)
  then have lc: "generateListingCopy env c ?s0 = (Inr cp, ?s1)"
    using r(2,3) by (simp add: generateListingCopy_def)
  show ?thesis
    using lc url by (simp add: generateFinalAssets_def Let_def length_getMockupPrompts)
qed

lemma example_bad_url: "base64ToPart ''not-a-data-url'' = Inl invalidDataUrl"
  by code_simp

theorem forge_batch_all_or_nothing_witness:
  "finalizedProducts brokenBatchState = [exampleProduct]
   \<and> selectedDesigns brokenBatchState = [firstItem, brokenItem, secondItem]
   \<and> (\<exists>x. tupleResult shopEnv ''Christmas'' [firstItem, brokenItem, secondItem]
             (brokenBatchState\<lparr>isLoading := True, error := None, finalizedProducts := []\<rparr>) 0 = Inr x)
   \<and> tupleResult shopEnv ''Christmas'' [firstItem, brokenItem, secondItem]
       (brokenBatchState\<lparr>isLoading := True, error := None, finalizedProducts := []\<rparr>) 1 =
       Inl (newError ''Invalid base64 data URL format.'')
   \<and> finalizedProducts (handleForgeAssets shopEnv None brokenBatchState) = []
   \<and> error (handleForgeAssets shopEnv None brokenBatchState) = Some ''Invalid base64 data URL format.''
   \<and> step (handleForgeAssets shopEnv None brokenBatchState) = DESIGN
   \<and> copyRequests (skeleton None (log (handleForgeAssets shopEnv None brokenBatchState))) =
       [item_concept firstItem, item_concept brokenItem]"
proof -
  define ds where "ds = [firstItem, brokenItem, secondItem]"
  define s1 where "s1 = brokenBatchState\<lparr>isLoading := True, error := None, finalizedProducts := []\<rparr>"
  let ?s' = "handleForgeAssets shopEnv None brokenBatchState"
  have sel: "selectedDesigns brokenBatchState = ds" "finalizedProducts brokenBatchState = [exampleProduct]"
    "holiday brokenBatchState = ''Christmas''" "step brokenBatchState = DESIGN" "log brokenBatchState = []"
    by (simp_all add: brokenBatchState_def exampleState_def ds_def)
  have h1: "ds = (case None of Some d \<Rightarrow> [d] | None \<Rightarrow> selectedDesigns brokenBatchState)"
    by (simp add: sel)
  have ne: "ds \<noteq> []" by (simp add: ds_def)
  have d0: "ds ! 0 = firstItem" and d1: "ds ! 1 = brokenItem" and len: "length ds = 3"
    by (simp_all add: ds_def)
  have ok0: "\<exists>x. tupleResult shopEnv ''Christmas'' ds s1 0 = Inr x"
    unfolding tupleResult_def tupleRun_def Let_def d0
    using generateFinalAssets_good[OF example_good, of "item_url firstItem"]
    by (simp add: firstItem_def example_designPart)
  have bad: "base64ToPart (item_url brokenItem) = Inl invalidDataUrl"
    by (simp add: brokenItem_def example_bad_url)
  have fail1: "tupleResult shopEnv ''Christmas'' ds s1 1 = Inl invalidDataUrl"
    unfolding tupleResult_def tupleRun_def Let_def d1
    by (rule generateFinalAssets_bad_url[OF example_good bad])
  have before: "\<forall>j<1. \<exists>x. tupleResult shopEnv ''Christmas'' ds s1 j = Inr x"
    using ok0 by simp
  have k: "(1::nat) < length ds" by (simp add: len)
  from forge_batch_all_or_nothing[OF h1 ne s1_def, of shopEnv]
  have "\<forall>k e. k < length ds
              \<and> (\<forall>j<k. \<exists>x. tupleResult shopEnv (holiday brokenBatchState) ds s1 j = Inr x)
              \<and> tupleResult shopEnv (holiday brokenBatchState) ds s1 k = Inl e \<longrightarrow>
            ?s' =
              (stateBefore shopEnv (holiday brokenBatchState) ds s1 (Suc k))
                \<lparr>error := Some (if instanceOfError e then toString (err_message e) else err_string e),
                 isLoading := False\<rparr>
          \<and> finalizedProducts ?s' = []
          \<and> step ?s' = step brokenBatchState
          \<and> (\<exists>evs l. log ?s' = log brokenBatchState @ evs \<and> 2 \<le> l
                \<and> skeleton None evs =
                    concat (map (tupleSkeleton (holiday brokenBatchState)) (take k ds)) @
                    take l (tupleSkeleton (holiday brokenBatchState) (ds ! k))
                \<and> copyRequests (skeleton None evs) = map item_concept (take (Suc k) ds))"
    by (rule conjunct1)
  from this[rule_format, of 1 invalidDataUrl] k before fail1
  have r: "?s' =
              (stateBefore shopEnv ''Christmas'' ds s1 (Suc 1))
                \<lparr>error := Some (if instanceOfError invalidDataUrl then toString (err_message invalidDataUrl)
                                else err_string invalidDataUrl),
                 isLoading := False\<rparr>"
     "finalizedProducts ?s' = []"
     "step ?s' = DESIGN"
     "\<exists>evs l. log ?s' = evs
                \<and> copyRequests (skeleton None evs) = map item_concept (take (Suc 1) ds)"
    unfolding sel by auto
  have e: "error ?s' = Some ''Invalid base64 data URL format.''"
    by (subst r(1)) (simp add: invalidDataUrl_def newError_def)
  have c: "copyRequests (skeleton None (log ?s')) = [item_concept firstItem, item_concept brokenItem]"
    using r(4) by (auto simp: ds_def)
  show ?thesis
    using sel(1,2) ok0 fail1 r(2,3) e c
    unfolding ds_def s1_def invalidDataUrl_def by (simp only: simp_thms)
qed

end
